(* ===== verification/Prelude.thy ===== *)
theory Prelude
  imports Main "HOL-Library.Word" "HOL-Library.Monad_Syntax" "HOL-Library.Multiset"
begin

text \<open>
  Shared ground of the development: the names of the model's basic types, decimal and
  hexadecimal printing, substring search, UTF-8 as \<open>unicode/utf8\<close> of the Go standard library
  decodes it, removal of a list element by index, and the interface of keyed tables (the
  routers and pending-call maps of the program) with its general lemmas.

  Go's \<open>string\<close>, \<open>[]byte\<close> and \<open>json.RawMessage\<close> are all byte sequences, so all three are
  \<^typ>\<open>string\<close> here (an Isabelle \<^typ>\<open>char\<close> is one byte). Where the code tells a nil slice
  from an empty one, the type is \<open>raw\<close>, with \<^const>\<open>None\<close> for nil.
\<close>

unbundle bit_operations_syntax

type_synonym raw = "string option"
type_synonym u32 = "32 word"
type_synonym u64 = "64 word"

named_theorems frame "fields an operation leaves as they were"
named_theorems wf_intro "operations that keep the well-formedness of an instance"

subsection \<open>Computations that may not return\<close>

text \<open>A call that may not return is an option; a sequence of calls that returned did so at each.\<close>

lemma bind_SomeE:
  assumes "Option.bind x f = Some r"
  obtains y where "x = Some y" and "f y = Some r"
  using assms by (cases x) auto

subsection \<open>Decimal and hexadecimal digits\<close>

definition digit :: "nat \<Rightarrow> char" where
  "digit n = ''0123456789abcdef'' ! n"

fun show_nat :: "nat \<Rightarrow> string" where
  "show_nat n = (if n < 10 then [digit n] else show_nat (n div 10) @ [digit (n mod 10)])"

declare show_nat.simps [simp del]

definition hex4 :: "nat \<Rightarrow> string" where
  "hex4 n = [digit (n div 4096 mod 16), digit (n div 256 mod 16),
             digit (n div 16 mod 16), digit (n mod 16)]"

definition is_hex :: "char \<Rightarrow> bool" where
  "is_hex c = (let b = of_char c :: nat in
     48 \<le> b \<and> b \<le> 57 \<or> 97 \<le> b \<and> b \<le> 102 \<or> 65 \<le> b \<and> b \<le> 70)"

definition hex_val :: "char \<Rightarrow> nat" where
  "hex_val c = (let b = of_char c :: nat in
     if b \<le> 57 then b - 48 else if b \<le> 70 then b - 55 else b - 87)"

lemma show_nat_nonempty: "show_nat n \<noteq> []"
  by (subst show_nat.simps) simp

lemma show_nat_small: "n < 10 \<Longrightarrow> show_nat n = [digit n]"
  by (subst show_nat.simps) simp

subsection \<open>Substrings\<close>

fun str_contains :: "string \<Rightarrow> string \<Rightarrow> bool" where
  "str_contains [] sub = (sub = [])"
| "str_contains (c # cs) sub = (take (length sub) (c # cs) = sub \<or> str_contains cs sub)"

lemma str_contains_iff: "str_contains s sub \<longleftrightarrow> (\<exists>xs ys. s = xs @ sub @ ys)"
proof (induction s)
  case Nil
  then show ?case by auto
next
  case (Cons c cs)
  have "take (length sub) (c # cs) = sub \<longleftrightarrow> (\<exists>ys. c # cs = sub @ ys)"
    by (metis append_eq_conv_conj)
  moreover have "(\<exists>xs ys. c # cs = xs @ sub @ ys) \<longleftrightarrow>
      (\<exists>ys. c # cs = sub @ ys) \<or> (\<exists>xs ys. cs = xs @ sub @ ys)"
    by (metis (no_types, lifting) append_Cons append_Nil list.inject neq_Nil_conv)
  ultimately show ?case using Cons.IH by simp
qed

subsection \<open>Removing the element at an index\<close>

definition remove_nth :: "nat \<Rightarrow> 'a list \<Rightarrow> 'a list" where
  "remove_nth i xs = take i xs @ drop (Suc i) xs"

lemma length_remove_nth: "i < length xs \<Longrightarrow> length (remove_nth i xs) = length xs - 1"
  by (simp add: remove_nth_def)

lemma mset_remove_nth: "i < length xs \<Longrightarrow> add_mset (xs ! i) (mset (remove_nth i xs)) = mset xs"
proof -
  assume i: "i < length xs"
  have "mset xs = mset (take i xs @ xs ! i # drop (Suc i) xs)"
    using id_take_nth_drop [OF i] by simp
  then show ?thesis by (simp add: remove_nth_def)
qed

lemma remove_nth_split: "remove_nth (length xs) (xs @ y # ys) = xs @ ys"
  by (simp add: remove_nth_def)

subsection \<open>UTF-8\<close>

text \<open>
  \<open>utf8_len s\<close> is the length of the well-formed UTF-8 sequence \<open>s\<close> starts with, 0 when it
  starts with none (\<open>utf8.DecodeRune\<close> then answers \<open>RuneError\<close> with width 1). The second byte's
  range depends on the first one, which rules out overlong forms, surrogates and values past
  U+10FFFF.
\<close>

definition byte_in :: "string \<Rightarrow> nat \<Rightarrow> nat \<Rightarrow> nat \<Rightarrow> bool" where
  "byte_in s i lo hi = (i < length s \<and> lo \<le> of_char (s ! i) \<and> of_char (s ! i) \<le> hi)"

text \<open>
  What the first byte fixes: the length of the sequence (0 for a byte that starts none) and the
  range of the second byte (the tables \<open>first\<close> and \<open>acceptRanges\<close> of \<open>unicode/utf8\<close>).
\<close>

definition utf8_first :: "nat \<Rightarrow> nat \<times> nat \<times> nat" where
  "utf8_first b =
     (if b < 128 then (1, 0, 0) else if b < 194 then (0, 0, 0)
      else if b < 224 then (2, 128, 191)
      else if b = 224 then (3, 160, 191) else if b = 237 then (3, 128, 159)
      else if b < 240 then (3, 128, 191)
      else if b = 240 then (4, 144, 191) else if b = 244 then (4, 128, 143)
      else if b < 244 then (4, 128, 191) else (0, 0, 0))"

fun utf8_len :: "string \<Rightarrow> nat" where
  "utf8_len [] = 0"
| "utf8_len (c # cs) = (case utf8_first (of_char c) of (n, lo, hi) \<Rightarrow>
     if n \<le> 1 then n
     else if byte_in cs 0 lo hi \<and> (\<forall>i \<in> set [1..<n - 1]. byte_in cs i 128 191) then n else 0)"

declare utf8_len.simps(2) [simp del]

lemma utf8_first_range: "utf8_first b = (n, lo, hi) \<Longrightarrow> n \<le> 4"
  by (auto simp: utf8_first_def split: if_splits)

lemma byte_in_length: "byte_in s i lo hi \<Longrightarrow> i < length s"
  by (simp add: byte_in_def)

lemma byte_in_append: "byte_in s i lo hi \<Longrightarrow> byte_in (s @ t) i lo hi"
  by (simp add: byte_in_def nth_append)

lemma utf8_len_Cons_cases:
  obtains (short) "utf8_len (c # cs) \<le> 1"
  | (long) n lo hi where "utf8_first (of_char c) = (n, lo, hi)" and "1 < n"
      and "utf8_len (c # cs) = n" and "byte_in cs 0 lo hi"
      and "\<forall>i \<in> set [1..<n - 1]. byte_in cs i 128 191"
proof -
  obtain n lo hi where f: "utf8_first (of_char c) = (n, lo, hi)"
    by (cases "utf8_first (of_char c)")
  show thesis
  proof (cases "1 < n \<and> byte_in cs 0 lo hi \<and> (\<forall>i \<in> set [1..<n - 1]. byte_in cs i 128 191)")
    case True
    with f show ?thesis by (intro long [of n lo hi]) (simp_all add: utf8_len.simps)
  next
    case False
    with f show ?thesis by (intro short) (auto simp: utf8_len.simps)
  qed
qed

lemma utf8_len_le: "utf8_len s \<le> length s"
proof (cases s)
  case (Cons c cs)
  show ?thesis
  proof (cases c cs rule: utf8_len_Cons_cases)
    case short
    then show ?thesis by (simp add: Cons)
  next
    case (long n lo hi)
    have "n - 2 < length cs"
    proof (cases "n = 2")
      case True
      then show ?thesis using byte_in_length [OF long(4)] by simp
    next
      case False
      with long(2) have "n - 2 \<in> set [1..<n - 1]" by auto
      with long(5) show ?thesis by (blast dest: byte_in_length)
    qed
    with long(2,3) show ?thesis by (simp add: Cons)
  qed
qed simp

lemma utf8_len_append: "utf8_len s \<noteq> 0 \<Longrightarrow> utf8_len (s @ t) = utf8_len s"
proof (cases s)
  case (Cons c cs)
  obtain n lo hi where f: "utf8_first (of_char c) = (n, lo, hi)" by (cases "utf8_first (of_char c)")
  assume "utf8_len s \<noteq> 0"
  with Cons f show ?thesis
    by (auto simp: utf8_len.simps dest: byte_in_append split: if_splits)
qed simp

text \<open>U+FFFD, the replacement character.\<close>

definition utf8_error :: string where
  "utf8_error = [CHR 0xEF, CHR 0xBF, CHR 0xBD]"

fun valid_utf8 :: "string \<Rightarrow> bool" where
  "valid_utf8 [] = True"
| "valid_utf8 (c # cs) =
     (utf8_len (c # cs) \<noteq> 0 \<and> valid_utf8 (drop (utf8_len (c # cs) - 1) cs))"

text \<open>Each byte that starts no well-formed sequence is replaced (\<open>bytes.ToValidUTF8\<close> per byte).\<close>

fun to_valid_utf8 :: "string \<Rightarrow> string" where
  "to_valid_utf8 [] = []"
| "to_valid_utf8 (c # cs) =
     (if utf8_len (c # cs) = 0 then utf8_error @ to_valid_utf8 cs
      else take (utf8_len (c # cs)) (c # cs) @ to_valid_utf8 (drop (utf8_len (c # cs) - 1) cs))"

declare valid_utf8.simps(2) [simp del] to_valid_utf8.simps(2) [simp del]

text \<open>The sequence a non-empty string starts with, and what follows it.\<close>

lemma take_drop_utf8: "utf8_len (c # cs) \<noteq> 0 \<Longrightarrow>
    take (utf8_len (c # cs)) (c # cs) = c # take (utf8_len (c # cs) - 1) cs"
  by (cases "utf8_len (c # cs)") simp_all

lemma to_valid_utf8_id: "valid_utf8 s \<Longrightarrow> to_valid_utf8 s = s"
proof (induction s rule: to_valid_utf8.induct)
  case 1
  then show ?case by simp
next
  case (2 c cs)
  from "2.prems" have w: "utf8_len (c # cs) \<noteq> 0"
    and v: "valid_utf8 (drop (utf8_len (c # cs) - 1) cs)"
    by (auto simp: valid_utf8.simps)
  from "2.IH"(2) w v show ?case
    by (simp add: to_valid_utf8.simps take_drop_utf8)
qed

lemma ascii_utf8_len: "of_char c < (128::nat) \<Longrightarrow> utf8_len (c # cs) = 1"
  by (simp add: utf8_len.simps utf8_first_def)

lemmas valid_utf8_simps = valid_utf8.simps utf8_len.simps utf8_first_def byte_in_def

text \<open>The first sequence stands on its own, and valid texts can be joined.\<close>

lemma utf8_len_take:
  assumes "utf8_len (c # cs) \<noteq> 0"
  shows "utf8_len (take (utf8_len (c # cs)) (c # cs)) = utf8_len (c # cs)"
proof (cases c cs rule: utf8_len_Cons_cases)
  case short
  then have "utf8_len (c # cs) = 1" using assms by linarith
  then show ?thesis
    by (cases "utf8_first (of_char c)") (auto simp: utf8_len.simps split: if_splits)
next
  case (long n lo hi)
  let ?s = "take (n - 1) cs"
  have "byte_in ?s i l h" if "byte_in cs i l h" "i < n - 1" for i l h
    using that long(2,3) by (auto simp: byte_in_def)
  then have "byte_in ?s 0 lo hi" "\<forall>i \<in> set [1..<n - 1]. byte_in ?s i 128 191"
    using long(2,4,5) by auto
  with long(1,2,3) take_drop_utf8 [OF assms] show ?thesis by (simp add: utf8_len.simps)
qed

lemma valid_utf8_append: "valid_utf8 a \<Longrightarrow> valid_utf8 b \<Longrightarrow> valid_utf8 (a @ b)"
proof (induction a rule: valid_utf8.induct)
  case (2 c cs)
  from "2.prems"(1) have w: "utf8_len (c # cs) \<noteq> 0"
    and v: "valid_utf8 (drop (utf8_len (c # cs) - 1) cs)"
    by (auto simp: valid_utf8.simps)
  have "utf8_len (c # cs @ b) = utf8_len (c # cs)" using utf8_len_append [OF w, of b] by simp
  moreover have "utf8_len (c # cs) - 1 \<le> length cs" using utf8_len_le [of "c # cs"] by simp
  ultimately show ?case using "2.IH" [OF v "2.prems"(2)] w by (simp add: valid_utf8.simps)
qed simp

lemma valid_utf8_take:
  assumes "utf8_len (c # cs) \<noteq> 0"
  shows "valid_utf8 (take (utf8_len (c # cs)) (c # cs))"
proof -
  have "length (take (utf8_len (c # cs) - 1) cs) \<le> utf8_len (c # cs) - 1" by simp
  then show ?thesis
    using utf8_len_take [OF assms] assms take_drop_utf8 [OF assms] by (simp add: valid_utf8.simps)
qed

lemma valid_utf8_ascii: "\<forall>c \<in> set s. of_char c < (128::nat) \<Longrightarrow> valid_utf8 s"
  by (induction s) (simp_all add: valid_utf8.simps ascii_utf8_len)

subsection \<open>Keyed tables\<close>

text \<open>
  The interface the routers and the tables of pending calls offer their clients: storing an
  entry and looking one up.
\<close>

locale keyed_table =
  fixes put :: "'k \<Rightarrow> 'v \<Rightarrow> 't \<Rightarrow> 't"
    and get :: "'t \<Rightarrow> 'k \<Rightarrow> 'v option"
  assumes get_put: "get (put k v t) k' = (if k' = k then Some v else get t k')"
begin

lemma get_put_same: "get (put k v t) k = Some v"
  by (simp add: get_put)

lemma get_put_other: "k' \<noteq> k \<Longrightarrow> get (put k v t) k' = get t k'"
  by (simp add: get_put)

text \<open>Storing twice under one key keeps the later entry only.\<close>

lemma get_put_twice: "get (put k v (put k u t)) k' = get (put k v t) k'"
  by (simp add: get_put)

text \<open>A whole list of registrations: the last one of a key wins.\<close>

lemma get_puts:
  "get (fold (\<lambda>(k, v). put k v) kvs t) k' =
     (case map_of (rev kvs) k' of Some v \<Rightarrow> Some v | None \<Rightarrow> get t k')"
proof (induction kvs arbitrary: t)
  case Nil
  then show ?case by simp
next
  case (Cons kv kvs)
  obtain k v where kv: "kv = (k, v)" by (cases kv)
  show ?case
    using Cons.IH [of "put k v t"] kv
    by (auto simp: get_put map_add_def split: option.splits)
qed

end

end
