(* ===== verification/Json.thy ===== *)
theory Json
  imports Prelude
begin

text \<open>
  The part of Go's \<open>encoding/json\<close> the program uses, on bytes: the scanner (which texts are
  valid JSON, with its nesting limit), the decoding of string bodies, the matching of object
  keys with struct fields, and the encoding of strings by \<open>json.Marshal\<close>. A decoded object keeps,
  for each member, the raw text of its value, which is what a \<open>json.RawMessage\<close> field receives.
\<close>

subsection \<open>Characters\<close>

definition dquote :: char where "dquote = CHR 0x22"
definition bslash :: char where "bslash = CHR 0x5C"

definition is_ws :: "char \<Rightarrow> bool" where
  "is_ws c = (c \<in> {CHR '' '', CHR 0x09, CHR 0x0A, CHR 0x0D})"

definition is_punct :: "char \<Rightarrow> bool" where
  "is_punct c = (c \<in> set ''{}[]:,'')"

definition is_digit :: "char \<Rightarrow> bool" where
  "is_digit c = (48 \<le> (of_char c :: nat) \<and> (of_char c :: nat) \<le> 57)"

definition is_letter :: "char \<Rightarrow> bool" where
  "is_letter c = (let b = of_char c :: nat in 65 \<le> b \<and> b \<le> 90 \<or> 97 \<le> b \<and> b \<le> 122)"

definition is_word_char :: "char \<Rightarrow> bool" where
  "is_word_char c = (is_digit c \<or> is_letter c \<or> c \<in> set ''+-.'')"

subsection \<open>The scanner: bytes to tokens\<close>

text \<open>
  A string token holds the text between the quotes, escapes still in place. Control characters
  and unknown escapes make a string invalid. A word is a maximal run of number and letter
  characters; the parser below accepts the three literals and the numbers of the JSON grammar.
\<close>

datatype token = TWs char | TPunct char | TStr string | TWord string

datatype lmode = LNone | LWord string | LStr string | LEsc string | LHex nat string

text \<open>The end of a word is seen at the character after it, which is then read again.\<close>

function (sequential) lex :: "lmode \<Rightarrow> string \<Rightarrow> token list option" where
  "lex LNone [] = Some []"
| "lex (LWord w) [] = Some [TWord w]"
| "lex (LStr acc) [] = None"
| "lex (LEsc acc) [] = None"
| "lex (LHex n acc) [] = None"
| "lex LNone (c # cs) =
     (if is_ws c then map_option ((#) (TWs c)) (lex LNone cs)
      else if is_punct c then map_option ((#) (TPunct c)) (lex LNone cs)
      else if c = dquote then lex (LStr []) cs
      else if is_word_char c then lex (LWord [c]) cs
      else None)"
| "lex (LWord w) (c # cs) =
     (if is_word_char c then lex (LWord (w @ [c])) cs
      else map_option ((#) (TWord w)) (lex LNone (c # cs)))"
| "lex (LStr acc) (c # cs) =
     (if c = dquote then map_option ((#) (TStr acc)) (lex LNone cs)
      else if c = bslash then lex (LEsc (acc @ [c])) cs
      else if of_char c < (32::nat) then None
      else lex (LStr (acc @ [c])) cs)"
| "lex (LEsc acc) (c # cs) =
     (if c = CHR ''u'' then lex (LHex 4 (acc @ [c])) cs
      else if c \<in> set ''bfnrt/'' \<or> c = dquote \<or> c = bslash then lex (LStr (acc @ [c])) cs
      else None)"
| "lex (LHex n acc) (c # cs) =
     (if is_hex c then (if n \<le> 1 then lex (LStr (acc @ [c])) cs
                        else lex (LHex (n - 1) (acc @ [c])) cs)
      else None)"
  by pat_completeness auto
termination
  by (relation "measure (\<lambda>(m, s). 2 * length s + (case m of LWord _ \<Rightarrow> 1 | _ \<Rightarrow> 0))")
    (auto split: lmode.splits)

definition num_exp :: "string \<Rightarrow> bool" where
  "num_exp s = (case s of [] \<Rightarrow> True | c # cs \<Rightarrow>
     (c = CHR ''e'' \<or> c = CHR ''E'') \<and>
     (let ds = (case cs of [] \<Rightarrow> [] | g # gs \<Rightarrow> if g = CHR ''+'' \<or> g = CHR ''-'' then gs else cs)
      in ds \<noteq> [] \<and> list_all is_digit ds))"

definition num_frac :: "string \<Rightarrow> bool" where
  "num_frac s = (case s of [] \<Rightarrow> True | c # cs \<Rightarrow>
     if c = CHR ''.'' then (case cs of [] \<Rightarrow> False | d # ds \<Rightarrow>
       is_digit d \<and> num_exp (dropWhile is_digit ds))
     else num_exp s)"

definition is_json_number :: "string \<Rightarrow> bool" where
  "is_json_number w =
     (let v = (case w of [] \<Rightarrow> [] | c # cs \<Rightarrow> if c = CHR ''-'' then cs else w)
      in case v of [] \<Rightarrow> False | c # cs \<Rightarrow>
        if c = CHR ''0'' then num_frac cs
        else is_digit c \<and> num_frac (dropWhile is_digit cs))"

subsection \<open>Decoding a string body\<close>

definition getu4 :: "string \<Rightarrow> nat option" where
  \<comment> \<open>The code unit of the \<open>\uXXXX\<close> a text starts with.\<close>
  "getu4 s = (if 6 \<le> length s \<and> s ! 0 = bslash \<and> s ! 1 = CHR ''u'' \<and>
                 list_all is_hex (take 4 (drop 2 s))
              then Some (foldl (\<lambda>a c. 16 * a + hex_val c) 0 (take 4 (drop 2 s))) else None)"

definition encode_rune :: "nat \<Rightarrow> string" where
  "encode_rune r =
     (if r < 128 then [char_of r]
      else if r < 2048 then [char_of (192 + r div 64), char_of (128 + r mod 64)]
      else if r < 65536 then
        [char_of (224 + r div 4096), char_of (128 + r div 64 mod 64), char_of (128 + r mod 64)]
      else [char_of (240 + r div 262144), char_of (128 + r div 4096 mod 64),
            char_of (128 + r div 64 mod 64), char_of (128 + r mod 64)])"

definition unescape :: "char \<Rightarrow> string" where
  "unescape c = (if c = CHR ''b'' then [CHR 0x08] else if c = CHR ''f'' then [CHR 0x0C]
     else if c = CHR ''n'' then [CHR 0x0A] else if c = CHR ''r'' then [CHR 0x0D]
     else if c = CHR ''t'' then [CHR 0x09] else [c])"

function unquote :: "string \<Rightarrow> string" where
  "unquote [] = []"
| "unquote (c # cs) =
     (if c = bslash then
        (case getu4 (c # cs) of
           Some r \<Rightarrow>
             if 55296 \<le> r \<and> r < 57344 then
               (case getu4 (drop 5 cs) of
                  Some r1 \<Rightarrow>
                    if r < 56320 \<and> 56320 \<le> r1 \<and> r1 < 57344
                    then encode_rune (65536 + (r - 55296) * 1024 + (r1 - 56320)) @ unquote (drop 11 cs)
                    else utf8_error @ unquote (drop 5 cs)
                | None \<Rightarrow> utf8_error @ unquote (drop 5 cs))
             else encode_rune r @ unquote (drop 5 cs)
         | None \<Rightarrow> (case cs of [] \<Rightarrow> [] | e # es \<Rightarrow> unescape e @ unquote es))
      else if utf8_len (c # cs) = 0 then utf8_error @ unquote cs
      else take (utf8_len (c # cs)) (c # cs) @ unquote (drop (utf8_len (c # cs) - 1) cs))"
  by pat_completeness auto
termination
  by (relation "measure length") auto

declare unquote.simps(2) [simp del]

subsection \<open>The parser: tokens to values\<close>

datatype json = JNull | JBool bool | JNum string | JStr string | JArr "json list"
  | JObj "(string \<times> string \<times> json) list"

type_synonym fields = "(string \<times> string \<times> json) list"

text \<open>
  An open array or object: the members read so far, the key being read, and the raw text since
  its bracket. The parser state is the stack of open containers (\<open>parseState\<close> of the scanner)
  and what may come next.
\<close>

datatype frame = FArr "json list" string | FObj fields string string

datatype expect = EVal | EValOrEnd | EKey | EKeyOrEnd | EColon | EComma | EDone json string

type_synonym pstate = "frame list \<times> expect"

definition maxNestingDepth :: nat where "maxNestingDepth = 10000"

fun add_raw :: "string \<Rightarrow> frame list \<Rightarrow> frame list" where
  "add_raw r [] = []"
| "add_raw r (FArr vs raw # st) = FArr vs (raw @ r) # st"
| "add_raw r (FObj fs k raw # st) = FObj fs k (raw @ r) # st"

text \<open>A value is complete: it becomes a member of the container it stands in.\<close>

fun finish :: "json \<Rightarrow> string \<Rightarrow> frame list \<Rightarrow> pstate" where
  "finish v r [] = ([], EDone v r)"
| "finish v r (FArr vs raw # st) = (FArr (vs @ [v]) (raw @ r) # st, EComma)"
| "finish v r (FObj fs k raw # st) = (FObj (fs @ [(k, r, v)]) [] (raw @ r) # st, EComma)"

definition word_value :: "string \<Rightarrow> json option" where
  "word_value w = (if w = ''null'' then Some JNull else if w = ''true'' then Some (JBool True)
     else if w = ''false'' then Some (JBool False)
     else if is_json_number w then Some (JNum w) else None)"

definition wants_value :: "expect \<Rightarrow> bool" where
  "wants_value e = (case e of EVal \<Rightarrow> True | EValOrEnd \<Rightarrow> True | _ \<Rightarrow> False)"

definition wants_key :: "expect \<Rightarrow> bool" where
  "wants_key e = (case e of EKey \<Rightarrow> True | EKeyOrEnd \<Rightarrow> True | _ \<Rightarrow> False)"

fun jstr :: "pstate \<Rightarrow> string \<Rightarrow> pstate option" where
  "jstr (st, e) b =
     (let raw = dquote # b @ [dquote] in
      if wants_value e then Some (finish (JStr (unquote b)) raw st)
      else if wants_key e then
        (case st of FObj fs k r # st' \<Rightarrow> Some (FObj fs (unquote b) (r @ raw) # st', EColon)
                  | _ \<Rightarrow> None)
      else None)"

fun jopen :: "pstate \<Rightarrow> frame \<Rightarrow> expect \<Rightarrow> pstate option" where
  "jopen (st, e) f e' =
     (if wants_value e \<and> length st < maxNestingDepth then Some (f # st, e') else None)"

fun jpunct :: "pstate \<Rightarrow> char \<Rightarrow> pstate option" where
  "jpunct (st, e) c =
     (if c = CHR ''['' then jopen (st, e) (FArr [] [c]) EValOrEnd
      else if c = CHR ''{'' then jopen (st, e) (FObj [] [] [c]) EKeyOrEnd
      else if c = CHR '':'' then (if e = EColon then Some (add_raw [c] st, EVal) else None)
      else (case st of
          [] \<Rightarrow> None
        | FArr vs raw # st' \<Rightarrow>
            if c = CHR '']'' \<and> (e = EComma \<or> e = EValOrEnd) then Some (finish (JArr vs) (raw @ [c]) st')
            else if c = CHR '','' \<and> e = EComma then Some (add_raw [c] st, EVal) else None
        | FObj fs k raw # st' \<Rightarrow>
            if c = CHR ''}'' \<and> (e = EComma \<or> e = EKeyOrEnd) then Some (finish (JObj fs) (raw @ [c]) st')
            else if c = CHR '','' \<and> e = EComma then Some (add_raw [c] st, EKey) else None))"

fun jstep :: "pstate \<Rightarrow> token \<Rightarrow> pstate option" where
  "jstep (st, e) (TWs c) = Some (add_raw [c] st, e)"
| "jstep s (TStr b) = jstr s b"
| "jstep (st, e) (TWord w) =
     (if wants_value e then map_option (\<lambda>v. finish v w st) (word_value w) else None)"
| "jstep s (TPunct c) = jpunct s c"

fun jsteps :: "pstate \<Rightarrow> token list \<Rightarrow> pstate option" where
  "jsteps s [] = Some s"
| "jsteps s (t # ts) = Option.bind (jstep s t) (\<lambda>s'. jsteps s' ts)"

definition parse_json :: "string \<Rightarrow> (json \<times> string) option" where
  \<comment> \<open>The value and its raw text; \<^const>\<open>None\<close> is a \<open>SyntaxError\<close>.\<close>
  "parse_json s = do {
     ts \<leftarrow> lex LNone s;
     p \<leftarrow> jsteps ([], EVal) ts;
     (case p of ([], EDone v r) \<Rightarrow> Some (v, r) | _ \<Rightarrow> None)
   }"

subsection \<open>Struct fields\<close>

text \<open>
  A key selects a field when both fold to the same name. Folding maps the letters to upper
  case, and the two runes that fold to ASCII letters (the long s and the Kelvin sign) to these.
\<close>

definition upcase :: "char \<Rightarrow> char" where
  "upcase c = (if 97 \<le> (of_char c :: nat) \<and> (of_char c :: nat) \<le> 122
               then char_of ((of_char c :: nat) - 32) else c)"

function fold_name :: "string \<Rightarrow> string" where
  "fold_name [] = []"
| "fold_name (c # cs) =
     (if take 2 (c # cs) = [CHR 0xC5, CHR 0xBF] then CHR ''S'' # fold_name (drop 1 cs)
      else if take 3 (c # cs) = [CHR 0xE2, CHR 0x84, CHR 0xAA] then CHR ''K'' # fold_name (drop 2 cs)
      else upcase c # fold_name cs)"
  by pat_completeness auto
termination
  by (relation "measure length") auto

declare fold_name.simps(2) [simp del]

definition field_is :: "string \<Rightarrow> string \<Rightarrow> bool" where
  "field_is key name = (fold_name key = fold_name name)"

text \<open>
  Decoding into a struct field of type \<open>string\<close>: the members are taken in order, \<open>null\<close> leaves the
  field as it is and a value of another type is an error (the flag), after which decoding goes on.
\<close>

fun decode_string :: "string \<Rightarrow> fields \<Rightarrow> string \<times> bool \<Rightarrow> string \<times> bool" where
  "decode_string name [] st = st"
| "decode_string name ((k, r, v) # fs) (cur, ok) = decode_string name fs
     (if field_is k name
      then (case v of JNull \<Rightarrow> (cur, ok) | JStr s \<Rightarrow> (s, ok) | _ \<Rightarrow> (cur, False))
      else (cur, ok))"

text \<open>A field of type \<open>*string\<close>: \<open>null\<close> sets it to nil.\<close>

fun decode_string_ptr :: "string \<Rightarrow> fields \<Rightarrow> string option \<times> bool \<Rightarrow> string option \<times> bool" where
  "decode_string_ptr name [] st = st"
| "decode_string_ptr name ((k, r, v) # fs) (cur, ok) = decode_string_ptr name fs
     (if field_is k name
      then (case v of JNull \<Rightarrow> (None, ok) | JStr s \<Rightarrow> (Some s, ok) | _ \<Rightarrow> (cur, False))
      else (cur, ok))"

text \<open>
  The members \<open>json.Unmarshal\<close> decodes into a struct: none for the text \<open>null\<close>, an error for a
  syntax error or another kind of value.
\<close>

definition object_fields :: "string \<Rightarrow> fields option" where
  "object_fields s = (case parse_json s of
     Some (JNull, _) \<Rightarrow> Some [] | Some (JObj fs, _) \<Rightarrow> Some fs | _ \<Rightarrow> None)"

subsection \<open>Encoding a string\<close>

definition esc_ascii :: "char \<Rightarrow> string" where
  \<comment> \<open>\<open>appendString\<close> with \<open>escapeHTML\<close>, for one ASCII character.\<close>
  "esc_ascii c =
     (if c = dquote \<or> c = bslash then [bslash, c]
      else if c = CHR 0x08 then bslash # ''b'' else if c = CHR 0x0C then bslash # ''f''
      else if c = CHR 0x0A then bslash # ''n'' else if c = CHR 0x0D then bslash # ''r''
      else if c = CHR 0x09 then bslash # ''t''
      else if of_char c < (32::nat) \<or> c \<in> set ''<>&'' then bslash # CHR ''u'' # hex4 (of_char c)
      else [c])"

function json_esc :: "string \<Rightarrow> string" where
  "json_esc [] = []"
| "json_esc (c # cs) =
     (if of_char c < (128::nat) then esc_ascii c @ json_esc cs
      else if utf8_len (c # cs) = 0 then bslash # ''ufffd'' @ json_esc cs
      else (if take (utf8_len (c # cs)) (c # cs) = [CHR 0xE2, CHR 0x80, CHR 0xA8] then bslash # ''u2028''
            else if take (utf8_len (c # cs)) (c # cs) = [CHR 0xE2, CHR 0x80, CHR 0xA9] then bslash # ''u2029''
            else take (utf8_len (c # cs)) (c # cs)) @ json_esc (drop (utf8_len (c # cs) - 1) cs))"
  by pat_completeness auto
termination
  by (relation "measure length") auto

declare json_esc.simps(2) [simp del]

definition json_quote :: "string \<Rightarrow> string" where
  "json_quote s = dquote # json_esc s @ [dquote]"

end
