(* ===== verification/Json_Facts.thy ===== *)
theory Json_Facts
  imports Json
begin

text \<open>
  Facts about the JSON model the components share: what a printed string is to the scanner, that
  decoding what \<open>json.Marshal\<close> printed gives the string back (with invalid UTF-8 replaced), and
  how the parser runs over objects whose members are strings or \<open>null\<close>.
\<close>

subsection \<open>String bodies\<close>

definition str_body :: "string \<Rightarrow> bool" where
  "str_body b = (\<forall>acc rest. lex (LStr acc) (b @ rest) = lex (LStr (acc @ b)) rest)"

named_theorems str_bodies "texts that may stand between the quotes of a JSON string"

lemma str_bodyD: "str_body b \<Longrightarrow> lex (LStr acc) (b @ rest) = lex (LStr (acc @ b)) rest"
  by (simp add: str_body_def)

lemma str_body_Nil [str_bodies]: "str_body []"
  by (simp add: str_body_def)

lemma str_body_append [str_bodies]: "str_body a \<Longrightarrow> str_body b \<Longrightarrow> str_body (a @ b)"
  by (simp add: str_body_def)

lemma str_body_plain [str_bodies]:
  "c \<noteq> dquote \<Longrightarrow> c \<noteq> bslash \<Longrightarrow> 32 \<le> (of_char c :: nat) \<Longrightarrow> str_body [c]"
  by (simp add: str_body_def)

lemma str_body_Cons: "str_body [c] \<Longrightarrow> str_body cs \<Longrightarrow> str_body (c # cs)"
  using str_body_append [of "[c]" cs] by simp

lemma str_body_high: "\<forall>c \<in> set s. 128 \<le> (of_char c :: nat) \<Longrightarrow> str_body s"
proof (induction s)
  case (Cons c s)
  have "str_body [c]"
    using Cons.prems by (intro str_body_plain) (auto simp: dquote_def bslash_def)
  with Cons show ?case by (simp add: str_body_Cons)
qed (simp add: str_bodies)

lemma str_body_literal:
  "\<forall>c \<in> set s. c \<noteq> dquote \<and> c \<noteq> bslash \<and> 32 \<le> (of_char c :: nat) \<Longrightarrow> str_body s"
  by (induction s) (auto simp: str_bodies intro: str_body_Cons)

lemma dquote_neq [simp]: "dquote \<noteq> bslash" "bslash \<noteq> dquote"
  by (simp_all add: dquote_def bslash_def)

lemma str_body_esc [str_bodies]:
  "c \<in> set ''bfnrt/'' \<or> c = dquote \<or> c = bslash \<Longrightarrow> str_body [bslash, c]"
  by (auto simp: str_body_def dquote_def bslash_def)

lemma str_body_hex [str_bodies]:
  "is_hex a \<Longrightarrow> is_hex b \<Longrightarrow> is_hex c \<Longrightarrow> is_hex d \<Longrightarrow> str_body [bslash, CHR ''u'', a, b, c, d]"
  by (simp add: str_body_def)

lemma digit_hex: "n < 16 \<Longrightarrow> is_hex (digit n) \<and> hex_val (digit n) = n"
proof -
  have "\<forall>n<16. is_hex (digit n) \<and> hex_val (digit n) = n"
    by (simp add: eval_nat_numeral All_less_Suc digit_def is_hex_def hex_val_def)
  then show "n < 16 \<Longrightarrow> is_hex (digit n) \<and> hex_val (digit n) = n" by blast
qed

lemmas is_hex_digit = digit_hex [THEN conjunct1]
lemmas hex_val_digit = digit_hex [THEN conjunct2]

lemma str_body_hex4 [str_bodies]: "str_body (bslash # CHR ''u'' # hex4 n)"
  by (simp add: hex4_def str_body_hex is_hex_digit)

text \<open>The quoted text of a body is one token.\<close>

lemma lex_quoted:
  assumes "str_body b"
  shows "lex LNone (dquote # b @ dquote # rest) = map_option ((#) (TStr b)) (lex LNone rest)"
  using str_bodyD [OF assms, of "[]" "dquote # rest"]
  by (simp add: is_ws_def is_punct_def dquote_def)

subsection \<open>UTF-8 sequences past ASCII\<close>

lemma utf8_first_high: "utf8_first b = (n, lo, hi) \<Longrightarrow> 1 < n \<Longrightarrow> 194 \<le> b \<and> 128 \<le> lo"
  by (auto simp: utf8_first_def split: if_splits)

lemma utf8_high:
  assumes "128 \<le> (of_char c :: nat)" and "x \<in> set (take (utf8_len (c # cs)) (c # cs))"
  shows "128 \<le> (of_char x :: nat)"
proof (cases c cs rule: utf8_len_Cons_cases)
  case short
  with assms show ?thesis by (cases "utf8_len (c # cs)") auto
next
  case (long n lo hi)
  from assms(2) long(3) obtain i where i: "i < n" "i < length (c # cs)" "x = (c # cs) ! i"
    by (auto simp: in_set_conv_nth)
  consider "i = 0" | "i = 1" | j where "i = Suc j" "j \<in> set [1..<n - 1]"
  proof (cases i)
    case (Suc j)
    with i(1) that show ?thesis by (cases "j = 0") auto
  qed (rule that(1))
  then show ?thesis
  proof cases
    case 1
    with i assms(1) show ?thesis by simp
  next
    case 2
    with i long(4) utf8_first_high [OF long(1,2)] show ?thesis by (auto simp: byte_in_def)
  next
    case 3
    with i long(5) have "byte_in cs j 128 191" by blast
    with 3 i show ?thesis by (simp add: byte_in_def)
  qed
qed

lemma of_char_utf8_len: "utf8_len (c # cs) = 0 \<Longrightarrow> 128 \<le> (of_char c :: nat)"
  using ascii_utf8_len [of c cs] by (cases "of_char c < (128::nat)") auto

subsection \<open>Decoding what was encoded\<close>

lemma hex_digits_sum:
  assumes "(n::nat) < 65536"
  shows "16 * (16 * (16 * (n div 4096 mod 16) + n div 256 mod 16) + n div 16 mod 16) + n mod 16 = n"
proof -
  have d: "n div 4096 = n div 16 div 16 div 16" "n div 256 = n div 16 div 16"
    by (simp_all add: div_mult2_eq [symmetric])
  have "n div 4096 mod 16 = n div 16 div 16 div 16" using assms by (simp add: d)
  then show ?thesis by (simp add: d)
qed

lemma getu4_hex4: "n < 65536 \<Longrightarrow> getu4 (bslash # CHR ''u'' # hex4 n @ rest) = Some n"
  using hex_digits_sum [of n]
  by (simp add: getu4_def hex4_def is_hex_digit hex_val_digit)

lemma unquote_hex4:
  assumes "n < 65536" and "\<not> (55296 \<le> n \<and> n < 57344)"
  shows "unquote (bslash # CHR ''u'' # hex4 n @ rest) = encode_rune n @ unquote rest"
proof -
  have d: "drop 5 (CHR ''u'' # hex4 n @ rest) = rest" by (simp add: hex4_def)
  show ?thesis
    by (subst unquote.simps(2)) (use getu4_hex4 [OF assms(1), of rest] assms(2) d in auto)
qed

lemma unquote_esc:
  "c \<noteq> CHR ''u'' \<Longrightarrow> unquote (bslash # c # rest) = unescape c @ unquote rest"
  by (simp add: unquote.simps getu4_def)

lemma unquote_ascii:
  "of_char c < (128::nat) \<Longrightarrow> c \<noteq> bslash \<Longrightarrow> unquote (c # rest) = c # unquote rest"
  by (simp add: unquote.simps ascii_utf8_len)

lemma unquote_high:
  assumes "128 \<le> (of_char c :: nat)" and "utf8_len (c # cs) \<noteq> 0"
  shows "unquote (take (utf8_len (c # cs)) (c # cs) @ rest)
    = take (utf8_len (c # cs)) (c # cs) @ unquote rest"
proof -
  let ?w = "utf8_len (c # cs)"
  let ?s = "take (?w - 1) cs"
  have s: "take ?w (c # cs) = c # ?s" by (rule take_drop_utf8 [OF assms(2)])
  have "utf8_len (take ?w (c # cs)) = ?w" by (rule utf8_len_take [OF assms(2)])
  then have w: "utf8_len (c # ?s) = ?w" by (simp add: s)
  with assms(2) have w': "utf8_len (c # ?s @ rest) = ?w"
    using utf8_len_append [of "c # ?s" rest] by simp
  have l: "length (c # ?s) = ?w"
    using utf8_len_le [of "c # cs"] assms(2) by simp
  then have td: "take ?w (c # ?s @ rest) = c # ?s" "drop (?w - 1) (?s @ rest) = rest"
    using append_eq_conv_conj [of "c # ?s" rest "c # ?s @ rest"] by auto
  have "c \<noteq> bslash" using assms(1) by (auto simp: bslash_def)
  then have "unquote (c # ?s @ rest) = take ?w (c # ?s @ rest) @ unquote (drop (?w - 1) (?s @ rest))"
    by (subst unquote.simps(2)) (simp only: w' assms(2) if_False if_True simp_thms)
  then show ?thesis by (simp only: s td append_Cons)
qed

text \<open>The three ways an ASCII character is printed: a short escape, a \<open>\u\<close> escape, as it is.\<close>

lemma esc_ascii_cases:
  obtains (short) e where "esc_ascii c = [bslash, e]" and "unescape e = [c]" and "e \<noteq> CHR ''u''"
      and "e \<in> set ''bfnrt/'' \<or> e = dquote \<or> e = bslash"
  | (hex) "esc_ascii c = bslash # CHR ''u'' # hex4 (of_char c)"
  | (plain) "esc_ascii c = [c]" and "c \<noteq> dquote" and "c \<noteq> bslash" and "32 \<le> (of_char c :: nat)"
proof -
  consider "c = dquote \<or> c = bslash" | "c = CHR 0x08" | "c = CHR 0x0C" | "c = CHR 0x0A"
    | "c = CHR 0x0D" | "c = CHR 0x09"
    | "c \<noteq> dquote" "c \<noteq> bslash" "c \<notin> {CHR 0x08, CHR 0x0C, CHR 0x0A, CHR 0x0D, CHR 0x09}"
    by blast
  then show thesis
  proof cases
    case 1
    then show ?thesis
      by (intro short [of c]) (elim disjE; simp add: esc_ascii_def unescape_def dquote_def bslash_def)+
  next
    case 2
    then show ?thesis
      by (intro short [of "CHR ''b''"]) (simp_all add: esc_ascii_def unescape_def dquote_def bslash_def)
  next
    case 3
    then show ?thesis
      by (intro short [of "CHR ''f''"]) (simp_all add: esc_ascii_def unescape_def dquote_def bslash_def)
  next
    case 4
    then show ?thesis
      by (intro short [of "CHR ''n''"]) (simp_all add: esc_ascii_def unescape_def dquote_def bslash_def)
  next
    case 5
    then show ?thesis
      by (intro short [of "CHR ''r''"]) (simp_all add: esc_ascii_def unescape_def dquote_def bslash_def)
  next
    case 6
    then show ?thesis
      by (intro short [of "CHR ''t''"]) (simp_all add: esc_ascii_def unescape_def dquote_def bslash_def)
  next
    case 7
    then show ?thesis
      by (cases "of_char c < (32::nat) \<or> c \<in> set ''<>&''")
        (simp_all add: esc_ascii_def hex plain)
  qed
qed

lemma unquote_esc_ascii:
  assumes "of_char c < (128::nat)"
  shows "unquote (esc_ascii c @ rest) = c # unquote rest"
proof (cases c rule: esc_ascii_cases)
  case (short e)
  then show ?thesis by (simp add: unquote_esc)
next
  case hex
  then show ?thesis
    using assms unquote_hex4 [of "of_char c" rest] by (simp add: encode_rune_def)
next
  case plain
  then show ?thesis using assms by (simp add: unquote_ascii)
qed

lemma str_body_esc_ascii [str_bodies]: "str_body (esc_ascii c)"
  by (cases c rule: esc_ascii_cases) (simp_all add: str_bodies)

lemma unquote_u: "unquote (bslash # ''ufffd'' @ rest) = utf8_error @ unquote rest"
    "unquote (bslash # ''u2028'' @ rest) = [CHR 0xE2, CHR 0x80, CHR 0xA8] @ unquote rest"
    "unquote (bslash # ''u2029'' @ rest) = [CHR 0xE2, CHR 0x80, CHR 0xA9] @ unquote rest"
proof -
  have h: "hex4 65533 = ''fffd''" "hex4 8232 = ''2028''" "hex4 8233 = ''2029''"
    by (simp_all add: hex4_def digit_def)
  have e: "encode_rune 65533 = utf8_error" "encode_rune 8232 = [CHR 0xE2, CHR 0x80, CHR 0xA8]"
    "encode_rune 8233 = [CHR 0xE2, CHR 0x80, CHR 0xA9]"
    by (simp_all add: encode_rune_def utf8_error_def char_of_eq_iff)
  show "unquote (bslash # ''ufffd'' @ rest) = utf8_error @ unquote rest"
    "unquote (bslash # ''u2028'' @ rest) = [CHR 0xE2, CHR 0x80, CHR 0xA8] @ unquote rest"
    "unquote (bslash # ''u2029'' @ rest) = [CHR 0xE2, CHR 0x80, CHR 0xA9] @ unquote rest"
    using unquote_hex4 [of 65533 rest] unquote_hex4 [of 8232 rest] unquote_hex4 [of 8233 rest]
    by (simp_all add: h e)
qed

theorem unquote_json_esc: "unquote (json_esc s) = to_valid_utf8 s"
proof (induction s rule: json_esc.induct)
  case (2 c cs)
  let ?w = "utf8_len (c # cs)"
  let ?t = "take ?w (c # cs)"
  show ?case
  proof (cases "of_char c < (128::nat)")
    case True
    with "2.IH"(1) show ?thesis
      by (simp add: json_esc.simps unquote_esc_ascii to_valid_utf8.simps ascii_utf8_len)
  next
    case high: False
    show ?thesis
    proof (cases "?w = 0")
      case True
      with high "2.IH"(2) unquote_u(1) [of "json_esc cs"] show ?thesis
        by (simp add: json_esc.simps to_valid_utf8.simps)
    next
      case False
      have j: "json_esc (c # cs) = (if ?t = [CHR 0xE2, CHR 0x80, CHR 0xA8] then bslash # ''u2028''
          else if ?t = [CHR 0xE2, CHR 0x80, CHR 0xA9] then bslash # ''u2029'' else ?t)
          @ json_esc (drop (?w - 1) cs)"
        using high False by (simp add: json_esc.simps)
      have "unquote (json_esc (c # cs)) = ?t @ unquote (json_esc (drop (?w - 1) cs))"
        unfolding j using unquote_u(2,3) unquote_high [of c cs] high False by simp
      with high False "2.IH"(3) show ?thesis by (simp add: to_valid_utf8.simps)
    qed
  qed
qed simp

lemma str_body_json_esc [str_bodies]: "str_body (json_esc s)"
proof (induction s rule: json_esc.induct)
  case (2 c cs)
  have u: "str_body (bslash # ''ufffd'')" "str_body (bslash # ''u2028'')" "str_body (bslash # ''u2029'')"
    by (simp_all add: str_body_hex is_hex_def)
  show ?case
  proof (cases "of_char c < (128::nat)")
    case True
    with "2.IH"(1) show ?thesis by (simp add: json_esc.simps str_bodies)
  next
    case False
    let ?t = "take (utf8_len (c # cs)) (c # cs)"
    have "str_body ?t"
      using False by (intro str_body_high ballI) (rule utf8_high [of c _ cs], auto)
    with u have p: "str_body (if ?t = [CHR 0xE2, CHR 0x80, CHR 0xA8] then bslash # ''u2028''
        else if ?t = [CHR 0xE2, CHR 0x80, CHR 0xA9] then bslash # ''u2029'' else ?t)"
      by presburger
    show ?thesis
      using False str_body_append [OF u(1) "2.IH"(2)] str_body_append [OF p "2.IH"(3)]
      by (cases "utf8_len (c # cs) = 0") (simp_all add: json_esc.simps(2) [of c cs])
  qed
qed (simp add: str_bodies)

subsection \<open>The parser on token lists\<close>

lemma jsteps_append: "jsteps s (xs @ ys) = Option.bind (jsteps s xs) (\<lambda>s'. jsteps s' ys)"
  by (induction xs arbitrary: s) (auto simp: Option.bind_eq_None_conv split: bind_splits)

subsection \<open>What is printed is UTF-8\<close>

lemma valid_utf8_esc_ascii: "of_char c < (128::nat) \<Longrightarrow> valid_utf8 (esc_ascii c)"
proof (rule valid_utf8_ascii)
  have "\<forall>n<16. of_char (digit n) < (128::nat)"
    by (simp add: eval_nat_numeral All_less_Suc digit_def)
  then have "\<forall>x \<in> set (hex4 n). of_char x < (128::nat)" for n by (simp add: hex4_def)
  moreover assume "of_char c < (128::nat)"
  ultimately show "\<forall>x \<in> set (esc_ascii c). of_char x < (128::nat)"
    by (simp add: esc_ascii_def dquote_def bslash_def)
qed

lemma valid_utf8_json_esc: "valid_utf8 (json_esc s)"
proof (induction s rule: json_esc.induct)
  case (2 c cs)
  have u: "valid_utf8 (bslash # w)" if "w \<in> {''ufffd'', ''u2028'', ''u2029''}" for w
    using that by (auto simp: bslash_def valid_utf8_simps)
  show ?case
  proof (cases "of_char c < (128::nat)")
    case True
    then show ?thesis
      using "2.IH"(1) by (simp add: json_esc.simps valid_utf8_append valid_utf8_esc_ascii)
  next
    case False
    show ?thesis
    proof (cases "utf8_len (c # cs) = 0")
      case True
      then show ?thesis
        using "2.IH"(2) False valid_utf8_append [OF u [of "''ufffd''"], of "json_esc cs"]
        by (simp add: json_esc.simps)
    next
      case len: False
      let ?t = "take (utf8_len (c # cs)) (c # cs)"
      have "valid_utf8 (if ?t = [CHR 0xE2, CHR 0x80, CHR 0xA8] then bslash # ''u2028''
          else if ?t = [CHR 0xE2, CHR 0x80, CHR 0xA9] then bslash # ''u2029'' else ?t)"
        using valid_utf8_take [OF len] u [of "''u2028''"] u [of "''u2029''"] by simp
      from valid_utf8_append [OF this "2.IH"(3) [OF False len]] False len show ?thesis
        by (subst json_esc.simps(2)) (simp only: if_False)
    qed
  qed
qed simp

lemma valid_utf8_json_quote: "valid_utf8 (json_quote s)"
proof -
  have d: "valid_utf8 [dquote]" by (simp add: dquote_def valid_utf8_simps)
  show ?thesis
    using valid_utf8_append [OF d valid_utf8_append [OF valid_utf8_json_esc d], of s]
    by (simp add: json_quote_def)
qed

end
