(* ===== verification/Errors.thy ===== *)
theory Errors
  imports Json_Facts
begin

text \<open>
  \<open>kafig-go/errors.go\<close>: the error values of the Go API and the decoding of the error payloads the
  WASM runtime sends (\<open>parseErrorJSON\<close>, \<open>classifyErrorCode\<close>). Go's \<open>error\<close> interface is the datatype
  \<open>go_error\<close> of the dynamic types the program creates, nil being \<^const>\<open>None\<close> of an option.
\<close>

subsection \<open>Error codes and error values\<close>

type_synonym ErrorCode = string

definition ErrorCodeCPULimitExceeded :: ErrorCode where
  "ErrorCodeCPULimitExceeded = ''cpu_limit_exceeded''"
definition ErrorCodeMemoryLimitExceeded :: ErrorCode where
  "ErrorCodeMemoryLimitExceeded = ''memory_limit_exceeded''"
definition ErrorCodeStackOverflow :: ErrorCode where
  "ErrorCodeStackOverflow = ''stack_overflow''"
definition ErrorCodeRuntimeError :: ErrorCode where
  "ErrorCodeRuntimeError = ''runtime_error''"

lemmas error_codes = ErrorCodeCPULimitExceeded_def ErrorCodeMemoryLimitExceeded_def
  ErrorCodeStackOverflow_def ErrorCodeRuntimeError_def

record JsError =
  Name :: string
  Message :: string
  Stack :: "string option"

record RuntimeError =
  Code :: ErrorCode
  RtMessage :: string

text \<open>
  \<open>ErrMsg\<close> is any error the code knows by its text only (\<open>errors.New\<close>, \<open>fmt.Errorf\<close> without
  \<open>%w\<close>, errors of the WASM engine and of user handlers); \<open>ErrWrap p e\<close> is
  \<open>fmt.Errorf("p%w", e)\<close>; \<open>ErrPanic v\<close> is a \<open>handlerPanic\<close> whose value prints as \<open>v\<close>.
\<close>

datatype go_error = ErrMsg string | ErrWrap string go_error | ErrJs JsError
  | ErrRuntime RuntimeError | ErrPanic string

definition JsError_Error :: "JsError \<Rightarrow> string" where
  "JsError_Error e = Name e @ '': '' @ Message e"

definition RuntimeError_Error :: "RuntimeError \<Rightarrow> string" where
  "RuntimeError_Error e = Code e @ '': '' @ RtMessage e"

text \<open>The \<open>Error()\<close> method, by dynamic type.\<close>

fun error_text :: "go_error \<Rightarrow> string" where
  "error_text (ErrMsg m) = m"
| "error_text (ErrWrap p e) = p @ error_text e"
| "error_text (ErrJs e) = JsError_Error e"
| "error_text (ErrRuntime e) = RuntimeError_Error e"
| "error_text (ErrPanic v) = ''handler panic: '' @ v"

text \<open>\<open>errors.As\<close> along the wrapping chain, for the two exported error types.\<close>

fun as_JsError :: "go_error \<Rightarrow> JsError option" where
  "as_JsError (ErrJs e) = Some e"
| "as_JsError (ErrWrap p e) = as_JsError e"
| "as_JsError _ = None"

fun as_RuntimeError :: "go_error \<Rightarrow> RuntimeError option" where
  "as_RuntimeError (ErrRuntime e) = Some e"
| "as_RuntimeError (ErrWrap p e) = as_RuntimeError e"
| "as_RuntimeError _ = None"

subsection \<open>Decoding an error payload\<close>

definition classifyErrorCode :: "string \<Rightarrow> ErrorCode" where
  "classifyErrorCode msg =
     (if msg = ''interrupted'' then ErrorCodeCPULimitExceeded
      else if str_contains msg ''out of memory'' then ErrorCodeMemoryLimitExceeded
      else if str_contains msg ''stack'' then ErrorCodeStackOverflow
      else ErrorCodeRuntimeError)"

definition unparsed_error :: "string \<Rightarrow> go_error" where
  "unparsed_error data = ErrRuntime \<lparr>Code = ErrorCodeRuntimeError, RtMessage = data\<rparr>"

text \<open>\<open>json.Unmarshal(data, &jsErr)\<close> and \<open>json.Unmarshal(data, &rtErr)\<close>; \<^const>\<open>None\<close> is an error.\<close>

definition unmarshal_JsError :: "fields \<Rightarrow> JsError option" where
  "unmarshal_JsError fs =
     (let (n, ok1) = decode_string ''name'' fs ([], True);
          (m, ok2) = decode_string ''message'' fs ([], True);
          (s, ok3) = decode_string_ptr ''stack'' fs (None, True)
      in if ok1 \<and> ok2 \<and> ok3 then Some \<lparr>Name = n, Message = m, Stack = s\<rparr> else None)"

definition unmarshal_RuntimeError :: "fields \<Rightarrow> RuntimeError option" where
  "unmarshal_RuntimeError fs =
     (let (c, ok1) = decode_string ''code'' fs ([], True);
          (m, ok2) = decode_string ''message'' fs ([], True)
      in if ok1 \<and> ok2 then Some \<lparr>Code = c, RtMessage = m\<rparr> else None)"

definition parseErrorJSON :: "string \<Rightarrow> go_error" where
  "parseErrorJSON data =
     (case object_fields data of
        None \<Rightarrow> unparsed_error data
      | Some fs \<Rightarrow>
          (case decode_string ''kind'' fs ([], True) of (kind, ok) \<Rightarrow>
             if \<not> ok then unparsed_error data
             else if kind = ''js_error'' then
               (case unmarshal_JsError fs of None \<Rightarrow> unparsed_error data | Some e \<Rightarrow> ErrJs e)
             else if kind = ''runtime_error'' then
               (case unmarshal_RuntimeError fs of
                  None \<Rightarrow> unparsed_error data
                | Some e \<Rightarrow>
                    let code = classifyErrorCode (RtMessage e) in
                    if Code e = [] \<or> (Code e = ErrorCodeRuntimeError \<and> code \<noteq> ErrorCodeRuntimeError)
                    then ErrRuntime (e\<lparr>Code := code\<rparr>) else ErrRuntime e)
             else unparsed_error data))"

subsection \<open>Facts\<close>

lemma classifyErrorCode_nonempty: "classifyErrorCode msg \<noteq> []"
  by (simp add: classifyErrorCode_def error_codes)

text \<open>
  Whatever bytes the runtime sends as an error, the result is a \<open>JsError\<close>, or the generic
  \<open>RuntimeError\<close> that carries the bytes themselves as its message, or a \<open>RuntimeError\<close> whose code
  is not empty and is the generic one only when \<open>classifyErrorCode\<close> knows no better for its message.
\<close>

lemma parseErrorJSON_total:
  "(\<exists>e. parseErrorJSON data = ErrJs e) \<or>
   parseErrorJSON data = ErrRuntime \<lparr>Code = ErrorCodeRuntimeError, RtMessage = data\<rparr> \<or>
   (\<exists>e. parseErrorJSON data = ErrRuntime e \<and>
      (if Code e = ErrorCodeRuntimeError then classifyErrorCode (RtMessage e) = ErrorCodeRuntimeError
       else Code e \<noteq> []))"
  by (auto simp: parseErrorJSON_def unparsed_error_def Let_def classifyErrorCode_nonempty
      split: option.splits prod.splits if_splits)

text \<open>The members of an object printed with its quoted keys and values, as decoded.\<close>

lemma field_names:
  "field_is ''kind'' ''kind''" "field_is ''name'' ''name''" "field_is ''message'' ''message''"
  "field_is ''stack'' ''stack''" "field_is ''code'' ''code''"
  "\<not> field_is ''kind'' ''name''" "\<not> field_is ''kind'' ''message''" "\<not> field_is ''kind'' ''stack''"
  "\<not> field_is ''kind'' ''code''" "\<not> field_is ''name'' ''kind''" "\<not> field_is ''name'' ''message''"
  "\<not> field_is ''name'' ''stack''" "\<not> field_is ''message'' ''kind''" "\<not> field_is ''message'' ''name''"
  "\<not> field_is ''message'' ''stack''" "\<not> field_is ''message'' ''code''" "\<not> field_is ''stack'' ''kind''"
  "\<not> field_is ''stack'' ''name''" "\<not> field_is ''stack'' ''message''" "\<not> field_is ''code'' ''kind''"
  "\<not> field_is ''code'' ''message''"
  by (simp_all add: field_is_def fold_name.simps upcase_def char_of_eq_iff)

end
