(* ===== verification/Go_Text.thy ===== *)
theory Go_Text
  imports Prelude
begin

text \<open>
  The text functions of the Go standard library the program prints with: \<open>strconv.Quote\<close> (the
  \<open>%q\<close> verb). The Unicode table behind \<open>strconv.IsPrint\<close> for runes past ASCII is a parameter,
  \<open>isPrint\<close>.
\<close>

definition hex2 :: "nat \<Rightarrow> string" where
  "hex2 n = [digit (n div 16 mod 16), digit (n mod 16)]"

definition rune_value :: "string \<Rightarrow> nat" where
  \<comment> \<open>The code point of a well-formed sequence.\<close>
  "rune_value s = (let b = (\<lambda>i. of_char (s ! i) :: nat) in
     if length s = 1 then b 0
     else if length s = 2 then (b 0 - 192) * 64 + (b 1 - 128)
     else if length s = 3 then ((b 0 - 224) * 64 + (b 1 - 128)) * 64 + (b 2 - 128)
     else (((b 0 - 240) * 64 + (b 1 - 128)) * 64 + (b 2 - 128)) * 64 + (b 3 - 128))"

definition quote_ascii :: "char \<Rightarrow> string" where
  "quote_ascii c =
     (let b = of_char c :: nat in
      if c = CHR 0x22 \<or> c = CHR 0x5C then [CHR 0x5C, c]
      else if 32 \<le> b \<and> b < 127 then [c]
      else if b = 7 then CHR 0x5C # ''a'' else if b = 8 then CHR 0x5C # ''b''
      else if b = 12 then CHR 0x5C # ''f'' else if b = 10 then CHR 0x5C # ''n''
      else if b = 13 then CHR 0x5C # ''r'' else if b = 9 then CHR 0x5C # ''t''
      else if b = 11 then CHR 0x5C # ''v''
      else CHR 0x5C # CHR ''x'' # hex2 b)"

function quote_body :: "(nat \<Rightarrow> bool) \<Rightarrow> string \<Rightarrow> string" where
  "quote_body isPrint [] = []"
| "quote_body isPrint (c # cs) =
     (let w = utf8_len (c # cs); s = take w (c # cs) in
      if of_char c < (128::nat) then quote_ascii c @ quote_body isPrint cs
      else if w = 0 then CHR 0x5C # CHR ''x'' # hex2 (of_char c) @ quote_body isPrint cs
      else (if isPrint (rune_value s) then s
            else if rune_value s < 65536 then CHR 0x5C # CHR ''u'' # hex4 (rune_value s)
            else CHR 0x5C # CHR ''U'' # hex4 (rune_value s div 65536) @ hex4 (rune_value s mod 65536))
           @ quote_body isPrint (drop (w - 1) cs))"
  by pat_completeness auto
termination
  by (relation "measure (\<lambda>(p, s). length s)") auto

declare quote_body.simps(2) [simp del]

definition go_quote :: "(nat \<Rightarrow> bool) \<Rightarrow> string \<Rightarrow> string" where
  "go_quote isPrint s = CHR 0x22 # quote_body isPrint s @ [CHR 0x22]"

lemma quote_body_plain:
  "\<forall>c \<in> set s. 32 \<le> (of_char c :: nat) \<and> of_char c < (127::nat) \<and> c \<noteq> CHR 0x22 \<and> c \<noteq> CHR 0x5C
    \<Longrightarrow> quote_body isPrint s = s"
  by (induction s) (auto simp: quote_body.simps quote_ascii_def Let_def)

end
