(* ===== verification/Router.thy ===== *)
theory Router
  imports Errors Go_Text
begin

text \<open>
  \<open>kafig-go/rpc.go\<close>: the RPC router, its registrations and the messages of the service loop, and
  how a call is dispatched to a handler (\<open>callWithRecover\<close> and the body of the goroutines of
  \<open>launchPendingRPCs\<close> in \<open>kafig-go/instance.go\<close>).

  A handler is user code: a function of the world outside the instance (the type \<open>'w\<close>, which also
  stands for the context argument) and the parameters, giving the new world and what the call did:
  return a value and an error, as Go functions do, or panic with a value that prints as a text.
\<close>

datatype outcome = Returns raw "go_error option" | Panics string

type_synonym 'w RPCCallback = "'w \<Rightarrow> raw \<Rightarrow> 'w \<times> outcome"
type_synonym 'w RPCFallbackCallback = "'w \<Rightarrow> string \<Rightarrow> raw \<Rightarrow> 'w \<times> outcome"

record 'w RPCRouter =
  syncHandlers :: "string \<Rightarrow> 'w RPCCallback option"
  asyncHandlers :: "string \<Rightarrow> 'w RPCCallback option"
  fallbackHandler :: "'w RPCFallbackCallback option"

definition NewRPCRouter :: "'w RPCRouter" where
  "NewRPCRouter = \<lparr>syncHandlers = Map.empty, asyncHandlers = Map.empty, fallbackHandler = None\<rparr>"

definition WithSync :: "string \<Rightarrow> 'w RPCCallback \<Rightarrow> 'w RPCRouter \<Rightarrow> 'w RPCRouter" where
  "WithSync method h r = r\<lparr>syncHandlers := (syncHandlers r)(method \<mapsto> h)\<rparr>"

definition WithAsync :: "string \<Rightarrow> 'w RPCCallback \<Rightarrow> 'w RPCRouter \<Rightarrow> 'w RPCRouter" where
  "WithAsync method h r = r\<lparr>asyncHandlers := (asyncHandlers r)(method \<mapsto> h)\<rparr>"

definition WithFallback :: "'w RPCFallbackCallback \<Rightarrow> 'w RPCRouter \<Rightarrow> 'w RPCRouter" where
  "WithFallback h r = r\<lparr>fallbackHandler := Some h\<rparr>"

record rpcCall =
  PromiseID :: u32
  Method :: string
  Params :: raw

record rpcResult =
  ResPromiseID :: u32
  Value :: raw
  Err :: "go_error option"

subsection \<open>Running a handler\<close>

definition callWithRecover :: "outcome \<Rightarrow> raw \<times> go_error option" where
  "callWithRecover out = (case out of Returns v e \<Rightarrow> (v, e) | Panics p \<Rightarrow> (None, Some (ErrPanic p)))"

definition call_handler :: "('w \<times> outcome) \<Rightarrow> 'w \<times> raw \<times> go_error option" where
  "call_handler r = (case r of (w, out) \<Rightarrow> (w, callWithRecover out))"

text \<open>
  One goroutine up to its \<open>select\<close>: async handlers first, then sync handlers, then the fallback,
  then the error for an unknown method.
\<close>

definition runRPC :: "(nat \<Rightarrow> bool) \<Rightarrow> 'w RPCRouter \<Rightarrow> 'w \<Rightarrow> rpcCall \<Rightarrow> 'w \<times> rpcResult" where
  "runRPC isPrint router w r =
     (let h = (case asyncHandlers router (Method r) of
                 Some h \<Rightarrow> Some h | None \<Rightarrow> syncHandlers router (Method r));
          (w', value, err) =
            (case h of
               None \<Rightarrow>
                 (case fallbackHandler router of
                    Some f \<Rightarrow> call_handler (f w (Method r) (Params r))
                  | None \<Rightarrow> (w, None, Some (ErrMsg
                      (''method '' @ go_quote isPrint (Method r) @ '' not registered''))))
             | Some h \<Rightarrow> call_handler (h w (Params r)))
      in (w', \<lparr>ResPromiseID = PromiseID r, Value = value, Err = err\<rparr>))"

subsection \<open>Facts\<close>

interpretation sync_table: keyed_table WithSync syncHandlers
  by unfold_locales (simp add: WithSync_def)

interpretation async_table: keyed_table WithAsync asyncHandlers
  by unfold_locales (simp add: WithAsync_def)

lemma runRPC_id [simp]: "ResPromiseID (snd (runRPC isPrint router w r)) = PromiseID r"
  by (simp add: runRPC_def Let_def split: prod.split)

lemma asyncHandlers_WithSync [frame]: "asyncHandlers (fold (\<lambda>(m, h). WithSync m h) hs r) = asyncHandlers r"
  by (induction hs arbitrary: r) (auto simp: WithSync_def)

lemma fallback_WithSync [frame]: "fallbackHandler (fold (\<lambda>(m, h). WithSync m h) hs r) = fallbackHandler r"
  by (induction hs arbitrary: r) (auto simp: WithSync_def)

lemma syncHandlers_WithAsync [frame]: "syncHandlers (fold (\<lambda>(m, h). WithAsync m h) hs r) = syncHandlers r"
  by (induction hs arbitrary: r) (auto simp: WithAsync_def)

lemma fallback_WithAsync [frame]: "fallbackHandler (fold (\<lambda>(m, h). WithAsync m h) hs r) = fallbackHandler r"
  by (induction hs arbitrary: r) (auto simp: WithAsync_def)

lemma asyncHandlers_WithFallback [frame]: "asyncHandlers (WithFallback f r) = asyncHandlers r"
  by (simp add: WithFallback_def)

lemma syncHandlers_WithFallback [frame]: "syncHandlers (WithFallback f r) = syncHandlers r"
  by (simp add: WithFallback_def)

lemma fallback_WithFallback [frame]: "fallbackHandler (WithFallback f r) = Some f"
  by (simp add: WithFallback_def)

text \<open>
  C32. On a router built by any sequence of async and any sequence of sync registrations, with a
  fallback or without, an async call runs the handler registered last for its method on the async
  side, or else the one registered last on the sync side, or else the fallback. What the handler
  returns, value and error, is the result for the call's promise; a panic is an error with the
  panic's text and no value; without any handler the result is an error that names the method.
\<close>

theorem runRPC_registered:
  "runRPC isPrint (fold (\<lambda>(m, h). WithSync m h) ss (fold (\<lambda>(m, h). WithAsync m h) hs
       (case fb of None \<Rightarrow> NewRPCRouter | Some f \<Rightarrow> WithFallback f NewRPCRouter))) w r =
     (case (case map_of (rev hs @ rev ss) (Method r) of
              Some h \<Rightarrow> Some (h w (Params r))
            | None \<Rightarrow> map_option (\<lambda>f. f w (Method r) (Params r)) fb) of
        Some (w', Returns v e) \<Rightarrow> (w', \<lparr>ResPromiseID = PromiseID r, Value = v, Err = e\<rparr>)
      | Some (w', Panics p) \<Rightarrow> (w', \<lparr>ResPromiseID = PromiseID r, Value = None, Err = Some (ErrPanic p)\<rparr>)
      | None \<Rightarrow> (w, \<lparr>ResPromiseID = PromiseID r, Value = None,
          Err = Some (ErrMsg (''method '' @ go_quote isPrint (Method r) @ '' not registered''))\<rparr>)) \<and>
   error_text (ErrPanic p) = ''handler panic: '' @ p"
  by (auto simp: runRPC_def call_handler_def callWithRecover_def Let_def frame sync_table.get_puts
      async_table.get_puts NewRPCRouter_def map_add_def split: option.splits prod.splits outcome.splits)

end
