(* ===== verification/Wasm_Module.thy ===== *)
theory Wasm_Module
  imports Router
begin

text \<open>
  The instantiated WASM module as \<open>kafig-go\<close> sees it through wazero, and the memory helpers of
  \<open>kafig-go/instance.go\<close>. The engine and the module's code are parameters: a module is a record of
  the exported functions and memory operations over a guest state \<open>'g\<close> (linear memory and
  QuickJS heap together).

  An export that runs JavaScript may call the host imports on its way. Its behaviour is a tree
  \<open>'g run\<close>: it returns results, traps, never returns, or calls an import, and what it does then
  depends on the guest state after the import (which may have written to guest memory) and on the
  import's result. The remaining exports call no import and are functions.
\<close>

datatype host_call =
    CallRPC u32 u32 u32 u32 u32
  | CallSetResult u32 u32 u32
  | CallRPCSync u32 u32 u32 u32
  | CallShouldInterrupt u64 u64
  | CallPromiseRejection u32 u32

datatype host_ret = RetNone | RetI64 u64 | RetI32 u32

datatype 'g run =
    Returned 'g "u64 list"
  | Trapped 'g go_error
  | NeverReturns
  | CallsHost 'g host_call "'g \<Rightarrow> host_ret \<Rightarrow> 'g run"

record 'g wasm =
  fnAlloc :: "'g \<Rightarrow> u64 \<Rightarrow> 'g \<times> (go_error + u64)"
  fnDealloc :: "'g \<Rightarrow> u64 \<Rightarrow> u64 \<Rightarrow> 'g"
  fnEval :: "'g \<Rightarrow> u64 \<Rightarrow> u64 \<Rightarrow> u64 \<Rightarrow> 'g run"
  fnEvalCompiled :: "'g \<Rightarrow> u64 \<Rightarrow> u64 \<Rightarrow> u64 \<Rightarrow> 'g run"
  fnDispatchEvent :: "'g \<Rightarrow> u64 \<Rightarrow> u64 \<Rightarrow> u64 \<Rightarrow> u64 \<Rightarrow> u64 \<Rightarrow> 'g run"
  fnResolveRpc :: "'g \<Rightarrow> u64 \<Rightarrow> u64 \<Rightarrow> u64 \<Rightarrow> 'g run"
  fnRejectRpc :: "'g \<Rightarrow> u64 \<Rightarrow> u64 \<Rightarrow> u64 \<Rightarrow> 'g run"
  fnGetOpcodeCount :: "'g \<Rightarrow> 'g \<times> (go_error + u64)"
  fnGetCPUTimeUs :: "'g \<Rightarrow> 'g \<times> (go_error + u64)"
  fnResetExecutionStats :: "'g \<Rightarrow> 'g \<times> go_error option"
  fnSetMemoryLimit :: "'g \<Rightarrow> u64 \<Rightarrow> 'g \<times> go_error option"
  closeModule :: "'g \<Rightarrow> 'g \<times> go_error option"
  memRead :: "'g \<Rightarrow> u32 \<Rightarrow> u32 \<Rightarrow> string option"
  memWrite :: "'g \<Rightarrow> u32 \<Rightarrow> string \<Rightarrow> 'g"

text \<open>
  \<open>memRead\<close> gives \<^const>\<open>None\<close> for a range outside the memory; \<open>memWrite\<close> then leaves the state
  as it is, and the code does not look at the flag it answers with. \<open>WriteByte\<close> is a write of one
  byte. The error of \<open>fnDealloc\<close> is dropped by every caller.

  The rest of the host: the Unicode table of \<open>strconv.IsPrint\<close>, whether another goroutine called
  \<open>Interrupt\<close> since the code last looked, and the scheduler, which picks the in-flight handler
  goroutine whose result is received next (\<^const>\<open>None\<close>: none of them ever sends one).
\<close>

record 'w host_env =
  isPrint :: "nat \<Rightarrow> bool"
  signalled :: "'w \<Rightarrow> 'w \<times> bool"
  nextResult :: "'w \<Rightarrow> rpcCall list \<Rightarrow> nat option"

subsection \<open>Memory helpers\<close>

definition wasmAlloc :: "'g wasm \<Rightarrow> nat \<Rightarrow> 'g \<Rightarrow> 'g \<times> (go_error + u32)" where
  "wasmAlloc M size0 g =
     (let size = (if size0 = 0 then 1 else size0) in
      case fnAlloc M g (of_nat size) of
        (g', Inl e) \<Rightarrow> (g', Inl e)
      | (g', Inr res) \<Rightarrow>
          let ptr = ucast res :: u32 in
          if ptr = 0
          then (g', Inl (ErrMsg (''WASM alloc returned null (out of memory, requested ''
                                 @ show_nat size @ '' bytes)'')))
          else (g', Inr ptr))"

definition wasmDealloc :: "'g wasm \<Rightarrow> u32 \<Rightarrow> nat \<Rightarrow> 'g \<Rightarrow> 'g" where
  "wasmDealloc M ptr size0 g =
     (let size = (if size0 = 0 then 1 else size0) in fnDealloc M g (ucast ptr) (of_nat size))"

definition wasmWrite :: "'g wasm \<Rightarrow> u32 \<Rightarrow> string \<Rightarrow> 'g \<Rightarrow> 'g" where
  "wasmWrite M ptr data g = memWrite M g ptr data"

definition wasmReadCopy :: "'g wasm \<Rightarrow> u32 \<Rightarrow> u32 \<Rightarrow> 'g \<Rightarrow> go_error + string" where
  "wasmReadCopy M ptr len g =
     (case memRead M g ptr len of
        None \<Rightarrow> Inl (ErrMsg (''OOB read at ptr='' @ show_nat (unat ptr) @ '' len='' @ show_nat (unat len)))
      | Some data \<Rightarrow> Inr data)"

definition wasmReadString :: "'g wasm \<Rightarrow> u32 \<Rightarrow> u32 \<Rightarrow> 'g \<Rightarrow> go_error + string" where
  "wasmReadString M ptr len g =
     (case memRead M g ptr len of
        None \<Rightarrow> Inl (ErrMsg (''OOB read at ptr='' @ show_nat (unat ptr) @ '' len='' @ show_nat (unat len)))
      | Some data \<Rightarrow> Inr data)"

text \<open>
  \<open>[tag][payload]\<close> in fresh guest memory, as the packed \<open>(ptr << 32) | len\<close>; 0 when the
  allocation fails.
\<close>

definition writeSyncRPCResult :: "'g wasm \<Rightarrow> nat \<Rightarrow> string \<Rightarrow> 'g \<Rightarrow> 'g \<times> u64" where
  "writeSyncRPCResult M tag payload g =
     (let totalLen = 1 + length payload in
      case wasmAlloc M totalLen g of
        (g1, Inl e) \<Rightarrow> (g1, 0)
      | (g1, Inr ptr) \<Rightarrow>
          let g2 = memWrite M g1 ptr [char_of tag];
              g3 = memWrite M g2 (ptr + 1) payload
          in (g3, push_bit 32 (ucast ptr) OR of_nat totalLen))"

subsection \<open>Facts\<close>

lemma wasmAlloc_nonnull: "wasmAlloc M n g = (g', Inr ptr) \<Longrightarrow> ptr \<noteq> 0"
  by (auto simp: wasmAlloc_def Let_def split: prod.splits sum.splits if_splits)

text \<open>
  How the guest takes the packed result apart (\<open>kafig-runtime/src/init.rs\<close>): the high half is the
  pointer, the low half the length.
\<close>

definition packed_ptr :: "u64 \<Rightarrow> u32" where
  "packed_ptr p = ucast (drop_bit 32 p)"

definition packed_len :: "u64 \<Rightarrow> nat" where
  "packed_len p = unat (p AND 0xFFFFFFFF)"

lemma mask32: "(0xFFFFFFFF :: u64) = mask 32"
  by (simp add: mask_eq_exp_minus_1)
lemma packed_parts:
  assumes "n < 2 ^ 32"
  shows "packed_ptr (push_bit 32 (ucast (ptr :: u32)) OR of_nat n) = ptr"
    and "packed_len (push_bit 32 (ucast (ptr :: u32)) OR of_nat n) = n"
proof -
  have n: "take_bit 32 n = n" using assms by (simp add: take_bit_nat_eq_self_iff)
  then have b: "bit n i \<Longrightarrow> i < 32" for i by (metis bit_take_bit_iff)
  show "packed_ptr (push_bit 32 (ucast (ptr :: u32)) OR of_nat n) = ptr"
    by (rule bit_word_eqI) (auto simp: packed_ptr_def bit_simps dest: b)
  have "take_bit 32 (push_bit 32 (ucast ptr) OR (of_nat n :: u64)) = of_nat n"
    by (rule bit_word_eqI) (auto simp: bit_simps dest: b)
  moreover have "unat (of_nat n :: u64) = n"
    using assms by (simp add: unat_of_nat take_bit_nat_eq_self_iff)
  ultimately show "packed_len (push_bit 32 (ucast (ptr :: u32)) OR of_nat n) = n"
    by (simp only: packed_len_def mask32 take_bit_eq_mask [symmetric])
qed
end
