(* ===== verification/Instance.thy ===== *)
theory Instance
  imports Wasm_Module
begin

text \<open>
  The \<open>Instance\<close> of \<open>kafig-go/instance.go\<close>: its state, the host imports the guest calls back, and
  the execution of an export with its calls to those imports. Logging is left out.
\<close>

subsection \<open>State\<close>

text \<open>
  \<open>guest\<close> is the module instance, \<open>world\<close> the state of everything outside it that handlers,
  callbacks and other goroutines act on; the other fields are those of the struct. Callbacks that
  were not configured are \<^const>\<open>None\<close>, and so are a nil error and a nil \<open>json.RawMessage\<close>.
\<close>

record ('g, 'w) inst =
  guest :: 'g
  world :: 'w
  router :: "'w RPCRouter"
  interruptCallback :: "('w \<Rightarrow> u64 \<Rightarrow> u64 \<Rightarrow> 'w \<times> bool) option"
  promiseRejectionHandler :: "('w \<Rightarrow> JsError \<Rightarrow> 'w \<times> bool) option"
  interrupted :: bool
  pendingRPCs :: "rpcCall list"
  scriptError :: "go_error option"
  hasError :: bool
  resultValue :: raw
  hasResult :: bool

definition resetState :: "('g, 'w) inst \<Rightarrow> ('g, 'w) inst" where
  "resetState s = s\<lparr>scriptError := None, hasError := False, resultValue := None,
     hasResult := False, pendingRPCs := []\<rparr>"

definition Interrupt :: "('g, 'w) inst \<Rightarrow> ('g, 'w) inst" where
  "Interrupt s = s\<lparr>interrupted := True\<rparr>"

subsection \<open>Host imports\<close>

definition hostRPC :: "'g wasm \<Rightarrow> u32 \<Rightarrow> u32 \<Rightarrow> u32 \<Rightarrow> u32 \<Rightarrow> u32 \<Rightarrow> ('g, 'w) inst \<Rightarrow> ('g, 'w) inst" where
  "hostRPC M methodPtr methodLen paramsPtr paramsLen promiseID s =
     (case wasmReadString M methodPtr methodLen (guest s) of
        Inl e \<Rightarrow> s
      | Inr method \<Rightarrow>
          (case wasmReadCopy M paramsPtr paramsLen (guest s) of
             Inl e \<Rightarrow> s
           | Inr params \<Rightarrow> s\<lparr>pendingRPCs := pendingRPCs s @
               [\<lparr>PromiseID = promiseID, Method = method, Params = Some params\<rparr>]\<rparr>))"

text \<open>The value of a handler that is written back: nil becomes \<open>null\<close>.\<close>

definition or_null :: "raw \<Rightarrow> string" where
  "or_null v = (case v of None \<Rightarrow> ''null'' | Some r \<Rightarrow> r)"

definition hostRPCSync ::
  "'g wasm \<Rightarrow> 'w host_env \<Rightarrow> u32 \<Rightarrow> u32 \<Rightarrow> u32 \<Rightarrow> u32 \<Rightarrow> ('g, 'w) inst \<Rightarrow> ('g, 'w) inst \<times> u64" where
  "hostRPCSync M E methodPtr methodLen paramsPtr paramsLen s =
     (case wasmReadString M methodPtr methodLen (guest s) of
        Inl e \<Rightarrow> (s, 0)
      | Inr method \<Rightarrow>
     (case wasmReadCopy M paramsPtr paramsLen (guest s) of
        Inl e \<Rightarrow> (s, 0)
      | Inr params \<Rightarrow>
     (let reply = (\<lambda>w tag payload. case writeSyncRPCResult M tag payload (guest s) of
                     (g, packed) \<Rightarrow> (s\<lparr>world := w, guest := g\<rparr>, packed));
          answer = (\<lambda>(w, result, err). case err of
                     Some e \<Rightarrow> reply w 1 (error_text e)
                   | None \<Rightarrow> reply w 0 (or_null result))
      in case syncHandlers (router s) method of
           None \<Rightarrow>
             (case fallbackHandler (router s) of
                Some f \<Rightarrow> answer (call_handler (f (world s) method (Some params)))
              | None \<Rightarrow> reply (world s) 1
                  (''method '' @ go_quote (isPrint E) method @ '' not registered for sync RPC''))
         | Some h \<Rightarrow> answer (call_handler (h (world s) (Some params))))))"

definition hostSetResult :: "'g wasm \<Rightarrow> u32 \<Rightarrow> u32 \<Rightarrow> u32 \<Rightarrow> ('g, 'w) inst \<Rightarrow> ('g, 'w) inst" where
  "hostSetResult M resultPtr resultLen isError s =
     (case wasmReadCopy M resultPtr resultLen (guest s) of
        Inl e \<Rightarrow> s\<lparr>scriptError := Some (ErrRuntime
                     \<lparr>Code = ErrorCodeRuntimeError, RtMessage = error_text e\<rparr>), hasError := True\<rparr>
      | Inr resultJSON \<Rightarrow>
          if isError \<noteq> 0
          then s\<lparr>scriptError := Some (parseErrorJSON resultJSON), hasError := True\<rparr>
          else s\<lparr>resultValue := Some resultJSON, hasResult := True\<rparr>)"

definition hostShouldInterrupt :: "u64 \<Rightarrow> u64 \<Rightarrow> ('g, 'w) inst \<Rightarrow> ('g, 'w) inst \<times> u32" where
  "hostShouldInterrupt instructions cpuTimeUs s =
     (if interrupted s then (s, 1)
      else case interruptCallback s of
        None \<Rightarrow> (s, 0)
      | Some cb \<Rightarrow> (case cb (world s) instructions cpuTimeUs of
          (w, stop) \<Rightarrow> (s\<lparr>world := w\<rparr>, if stop then 1 else 0)))"

definition hostPromiseRejection :: "'g wasm \<Rightarrow> u32 \<Rightarrow> u32 \<Rightarrow> ('g, 'w) inst \<Rightarrow> ('g, 'w) inst \<times> u32" where
  "hostPromiseRejection M errorJsonPtr errorJsonLen s =
     (case promiseRejectionHandler s of
        None \<Rightarrow> (s, 0)
      | Some handler \<Rightarrow>
     (case wasmReadCopy M errorJsonPtr errorJsonLen (guest s) of
        Inl e \<Rightarrow> (s, 0)
      | Inr errorJSON \<Rightarrow>
     (case parseErrorJSON errorJSON of
        ErrJs jsErr \<Rightarrow> (case handler (world s) jsErr of
          (w, stop) \<Rightarrow> (s\<lparr>world := w\<rparr>, if stop then 1 else 0))
      | _ \<Rightarrow> (s, 0))))"

text \<open>The shared imports registered on the runtime, each passing on to the active instance.\<close>

fun host_import :: "'g wasm \<Rightarrow> 'w host_env \<Rightarrow> host_call \<Rightarrow> ('g, 'w) inst \<Rightarrow> ('g, 'w) inst \<times> host_ret" where
  "host_import M E (CallRPC mp ml pp pl pid) s = (hostRPC M mp ml pp pl pid s, RetNone)"
| "host_import M E (CallSetResult rp rl e) s = (hostSetResult M rp rl e s, RetNone)"
| "host_import M E (CallRPCSync mp ml pp pl) s =
     (case hostRPCSync M E mp ml pp pl s of (s', r) \<Rightarrow> (s', RetI64 r))"
| "host_import M E (CallShouldInterrupt n t) s =
     (case hostShouldInterrupt n t s of (s', r) \<Rightarrow> (s', RetI32 r))"
| "host_import M E (CallPromiseRejection ep el) s =
     (case hostPromiseRejection M ep el s of (s', r) \<Rightarrow> (s', RetI32 r))"

subsection \<open>Executing an export\<close>

text \<open>
  Another goroutine may call \<open>Interrupt\<close> at any moment; what it did becomes visible at the next
  import the guest calls.
\<close>

definition asyncSignals :: "'w host_env \<Rightarrow> ('g, 'w) inst \<Rightarrow> ('g, 'w) inst" where
  "asyncSignals E s = (case signalled E (world s) of (w, sig) \<Rightarrow>
     if sig then Interrupt (s\<lparr>world := w\<rparr>) else s\<lparr>world := w\<rparr>)"

text \<open>\<open>fn.Call(ctx, ...)\<close>; \<^const>\<open>None\<close> when the export never returns.\<close>

primrec callExport :: "'g wasm \<Rightarrow> 'w host_env \<Rightarrow> 'g run \<Rightarrow> ('g, 'w) inst \<Rightarrow>
    (('g, 'w) inst \<times> (go_error + u64 list)) option" where
  "callExport M E (Returned g rs) s = Some (s\<lparr>guest := g\<rparr>, Inr rs)"
| "callExport M E (Trapped g e) s = Some (s\<lparr>guest := g\<rparr>, Inl e)"
| "callExport M E NeverReturns s = None"
| "callExport M E (CallsHost g hc k) s =
     (case host_import M E hc (asyncSignals E (s\<lparr>guest := g\<rparr>)) of
        (s', r) \<Rightarrow> callExport M E (k (guest s') r) s')"

subsection \<open>Invariants of an execution\<close>

text \<open>
  What every host import keeps, whatever the guest does in between, an execution keeps: a
  predicate of the instance that is not affected by the guest's own steps, by signals from other
  goroutines or by an import.
\<close>

locale run_invariant =
  fixes M :: "'g wasm" and E :: "'w host_env" and P :: "('g, 'w) inst \<Rightarrow> bool"
  assumes keeps_guest: "P s \<Longrightarrow> P (s\<lparr>guest := g\<rparr>)"
    and keeps_signals: "P s \<Longrightarrow> P (asyncSignals E s)"
    and keeps_import: "P s \<Longrightarrow> P (fst (host_import M E hc s))"
begin

lemma callExport_keeps: "callExport M E r s = Some (s', res) \<Longrightarrow> P s \<Longrightarrow> P s'"
proof (induction r arbitrary: s)
  case (CallsHost g hc k)
  let ?i = "host_import M E hc (asyncSignals E (s\<lparr>guest := g\<rparr>))"
  have "P (fst ?i)"
    by (intro keeps_import keeps_signals keeps_guest CallsHost.prems(2))
  moreover have "callExport M E (k (guest (fst ?i)) (snd ?i)) (fst ?i) = Some (s', res)"
    using CallsHost.prems(1) by (simp split: prod.splits)
  ultimately show ?case using CallsHost.IH [OF rangeI rangeI] by blast
qed (auto intro: keeps_guest)

end

text \<open>
  Well-formedness: an error or a result value is there exactly when its flag says so (so \<open>Eval\<close>
  never returns a nil error for a failed script).
\<close>

definition inst_wf :: "('g, 'w) inst \<Rightarrow> bool" where
  "inst_wf s = (hasError s = (scriptError s \<noteq> None) \<and> hasResult s = (resultValue s \<noteq> None))"

lemma inst_wf_reset [wf_intro]: "inst_wf (resetState s)"
  by (simp add: inst_wf_def resetState_def)

lemmas host_imports = hostRPC_def hostRPCSync_def hostSetResult_def hostShouldInterrupt_def
  hostPromiseRejection_def

lemma inst_wf_import: "inst_wf s \<Longrightarrow> inst_wf (fst (host_import M E hc s))"
  by (cases hc)
    (auto simp: inst_wf_def host_imports Let_def split: sum.splits option.splits prod.splits go_error.splits)

lemma inst_wf_signals: "inst_wf s \<Longrightarrow> inst_wf (asyncSignals E s)"
  by (auto simp: inst_wf_def asyncSignals_def Interrupt_def split: prod.splits)

interpretation wf_run: run_invariant M E inst_wf for M :: "'g wasm" and E :: "'w host_env"
  by unfold_locales (simp_all add: inst_wf_import inst_wf_signals, simp add: inst_wf_def)

text \<open>The configuration of an instance, fixed when it is created.\<close>

definition inst_config where
  "inst_config s = (router s, interruptCallback s, promiseRejectionHandler s)"

lemma config_import: "inst_config (fst (host_import M E hc s)) = inst_config s"
  by (cases hc)
    (auto simp: inst_config_def host_imports Let_def split: sum.splits option.splits prod.splits go_error.splits)

lemma config_signals: "inst_config (asyncSignals E s) = inst_config s"
  by (auto simp: inst_config_def asyncSignals_def Interrupt_def split: prod.splits)

interpretation config_run: run_invariant M E "\<lambda>s. inst_config s = c"
  for M :: "'g wasm" and E :: "'w host_env" and c
  by unfold_locales (simp_all add: config_import config_signals, simp add: inst_config_def)

text \<open>The interrupt flag stays set for the rest of an execution.\<close>

lemma interrupted_import: "interrupted (fst (host_import M E hc s)) = interrupted s"
  by (cases hc)
    (auto simp: host_imports Let_def split: sum.splits option.splits prod.splits go_error.splits)

interpretation interrupt_run: run_invariant M E interrupted for M :: "'g wasm" and E :: "'w host_env"
  by unfold_locales
    (auto simp: interrupted_import asyncSignals_def Interrupt_def split: prod.splits)

text \<open>Calls are queued at the end, in the order the script makes them.\<close>

lemma pending_import: "\<exists>qs. pendingRPCs (fst (host_import M E hc s)) = pendingRPCs s @ qs"
  by (cases hc)
    (auto simp: host_imports Let_def split: sum.splits option.splits prod.splits go_error.splits)

interpretation pending_run: run_invariant M E "\<lambda>s. \<exists>qs. pendingRPCs s = ps @ qs"
  for M :: "'g wasm" and E :: "'w host_env" and ps
proof unfold_locales
  show "\<exists>qs. pendingRPCs (fst (host_import M E hc s)) = ps @ qs" if "\<exists>qs. pendingRPCs s = ps @ qs"
    for hc s
    using that pending_import [of M E hc s] by (metis append.assoc)
qed (auto simp: asyncSignals_def Interrupt_def split: prod.splits)

end
