(* ===== verification/Rpc_Service.thy ===== *)
theory Rpc_Service
  imports Prelude
begin

text \<open>
  The concurrency of \<open>serviceRPCLoop\<close> and the goroutines of \<open>launchPendingRPCs\<close>
  (\<open>kafig-go/instance.go\<close>) as a transition system: handler goroutines that have not finished
  their handler, those waiting in their \<open>select\<close>, the buffered result channel, the count of
  in-flight calls, the cancellation of the context and the end of the loop. What one iteration does
  with a result (\<open>body\<close>) and what a handler goroutine computes (\<open>exec\<close>) are parameters here; the
  theory \<open>Service_Loop\<close> supplies the code's.
\<close>

text \<open>What the loop does after an iteration: return an error value, or go on with new calls launched.\<close>

datatype ('c, 'e) verdict = Stop "'e option" | GoOn "'c list"

record ('s, 'c, 'r, 'e) svc =
  core :: 's
  running :: "'c list"
  sending :: "'r list"
  chan :: "'r list"
  inflight :: nat
  cancelled :: bool
  finished :: "'e option option"

datatype ('c, 'r) svc_label = Handle 'c | Send 'r | Drop 'r | Cancel | Receive 'r "'c list" | Exit

definition chanCapacity :: nat where "chanCapacity = 16"

inductive svc_step ::
  "('r \<Rightarrow> 's \<Rightarrow> ('s \<times> ('c, 'e) verdict) option) \<Rightarrow> ('c \<Rightarrow> 's \<Rightarrow> 's \<times> 'r) \<Rightarrow>
   ('s, 'c, 'r, 'e) svc \<Rightarrow> ('c, 'r) svc_label \<Rightarrow> ('s, 'c, 'r, 'e) svc \<Rightarrow> bool"
  for body exec where
  handle: "running x = xs @ c # ys \<Longrightarrow> exec c (core x) = (s', r) \<Longrightarrow>
    svc_step body exec x (Handle c) (x\<lparr>core := s', running := xs @ ys, sending := sending x @ [r]\<rparr>)"
| send: "sending x = xs @ r # ys \<Longrightarrow> length (chan x) < chanCapacity \<Longrightarrow>
    svc_step body exec x (Send r) (x\<lparr>sending := xs @ ys, chan := chan x @ [r]\<rparr>)"
| drop: "sending x = xs @ r # ys \<Longrightarrow> cancelled x \<Longrightarrow>
    svc_step body exec x (Drop r) (x\<lparr>sending := xs @ ys\<rparr>)"
| cancel: "\<not> cancelled x \<Longrightarrow> svc_step body exec x Cancel (x\<lparr>cancelled := True\<rparr>)"
| receive_go: "finished x = None \<Longrightarrow> inflight x \<noteq> 0 \<Longrightarrow> chan x = r # rs \<Longrightarrow>
    body r (core x) = Some (s', GoOn batch) \<Longrightarrow>
    svc_step body exec x (Receive r batch)
      (x\<lparr>core := s', chan := rs, inflight := inflight x - 1 + length batch,
         running := running x @ batch\<rparr>)"
| receive_stop: "finished x = None \<Longrightarrow> inflight x \<noteq> 0 \<Longrightarrow> chan x = r # rs \<Longrightarrow>
    body r (core x) = Some (s', Stop e) \<Longrightarrow>
    svc_step body exec x (Receive r [])
      (x\<lparr>core := s', chan := rs, inflight := inflight x - 1, finished := Some e, cancelled := True\<rparr>)"
| exit: "finished x = None \<Longrightarrow> inflight x = 0 \<Longrightarrow>
    svc_step body exec x Exit (x\<lparr>finished := Some None, cancelled := True\<rparr>)"

inductive svc_trace ::
  "('r \<Rightarrow> 's \<Rightarrow> ('s \<times> ('c, 'e) verdict) option) \<Rightarrow> ('c \<Rightarrow> 's \<Rightarrow> 's \<times> 'r) \<Rightarrow>
   ('s, 'c, 'r, 'e) svc \<Rightarrow> ('c, 'r) svc_label list \<Rightarrow> ('s, 'c, 'r, 'e) svc \<Rightarrow> bool"
  for body exec where
  Nil [intro!]: "svc_trace body exec x [] x"
| Cons [intro]: "svc_step body exec x l y \<Longrightarrow> svc_trace body exec y ls z \<Longrightarrow> svc_trace body exec x (l # ls) z"

inductive_cases svc_stepE: "svc_step body exec x l y"
inductive_simps svc_trace_Nil [simp]: "svc_trace body exec x [] y"
inductive_simps svc_trace_Cons: "svc_trace body exec x (l # ls) y"

lemma svc_trace_append: "svc_trace body exec x ls y \<Longrightarrow> svc_trace body exec y ms z \<Longrightarrow>
    svc_trace body exec x (ls @ ms) z"
  by (induction rule: svc_trace.induct) auto

text \<open>The loop right after its first batch was launched.\<close>

definition svc_start :: "'s \<Rightarrow> 'c list \<Rightarrow> ('s, 'c, 'r, 'e) svc" where
  "svc_start s batch = \<lparr>core = s, running = batch, sending = [], chan = [],
     inflight = length batch, cancelled = False, finished = None\<rparr>"

text \<open>What a run launched, fed to the guest and dropped.\<close>

fun launched :: "('c, 'r) svc_label list \<Rightarrow> 'c list" where
  "launched [] = []"
| "launched (Receive r cs # ls) = cs @ launched ls"
| "launched (l # ls) = launched ls"

fun received :: "('c, 'r) svc_label list \<Rightarrow> 'r list" where
  "received [] = []"
| "received (Receive r cs # ls) = r # received ls"
| "received (l # ls) = received ls"

fun dropped :: "('c, 'r) svc_label list \<Rightarrow> 'r list" where
  "dropped [] = []"
| "dropped (Drop r # ls) = r # dropped ls"
| "dropped (l # ls) = dropped ls"

subsection \<open>Accounting\<close>

text \<open>
  While the loop runs it waits for at least as many results as can still arrive, and for exactly
  as many as long as the context is not cancelled.
\<close>

definition in_transit :: "('s, 'c, 'r, 'e) svc \<Rightarrow> nat" where
  "in_transit x = length (running x) + length (sending x) + length (chan x)"

definition svc_inv :: "('s, 'c, 'r, 'e) svc \<Rightarrow> bool" where
  "svc_inv x = (finished x = None \<longrightarrow>
     in_transit x \<le> inflight x \<and> (\<not> cancelled x \<longrightarrow> in_transit x = inflight x))"

lemma svc_inv_start: "svc_inv (svc_start s batch)"
  by (simp add: svc_inv_def svc_start_def in_transit_def)

lemma svc_inv_step: "svc_step body exec x l y \<Longrightarrow> svc_inv x \<Longrightarrow> svc_inv y"
  by (erule svc_step.cases) (auto simp: svc_inv_def in_transit_def)

lemma svc_inv_trace: "svc_trace body exec x ls y \<Longrightarrow> svc_inv x \<Longrightarrow> svc_inv y"
  by (induction rule: svc_trace.induct) (auto intro: svc_inv_step)

text \<open>Without a \<open>Cancel\<close> the context of a running loop is not cancelled, and nothing is dropped.\<close>

lemma svc_step_uncancelled:
  "svc_step body exec x l y \<Longrightarrow> l \<noteq> Cancel \<Longrightarrow> (cancelled x \<longrightarrow> finished x \<noteq> None) \<Longrightarrow>
    (cancelled y \<longrightarrow> finished y \<noteq> None)"
  by (erule svc_step.cases) auto

lemma svc_step_finished: "svc_step body exec x l y \<Longrightarrow> finished x \<noteq> None \<Longrightarrow> finished y = finished x"
  by (erule svc_step.cases) auto

lemma svc_trace_finished: "svc_trace body exec x ls y \<Longrightarrow> finished x \<noteq> None \<Longrightarrow> finished y = finished x"
  by (induction rule: svc_trace.induct) (auto dest: svc_step_finished)

lemma svc_trace_uncancelled:
  "svc_trace body exec x ls y \<Longrightarrow> Cancel \<notin> set ls \<Longrightarrow> (cancelled x \<longrightarrow> finished x \<noteq> None) \<Longrightarrow>
    finished y = None \<Longrightarrow> \<not> cancelled y \<and> dropped ls = []"
proof (induction rule: svc_trace.induct)
  case (Cons x l y ls z)
  have u: "cancelled y \<longrightarrow> finished y \<noteq> None"
    using svc_step_uncancelled [OF Cons.hyps(1)] Cons.prems by auto
  have y: "finished y = None"
    using svc_trace_finished [OF Cons.hyps(2)] Cons.prems(3) by (cases "finished y") auto
  then have x: "finished x = None"
    using svc_step_finished [OF Cons.hyps(1)] by (cases "finished x") auto
  have "dropped (l # ls) = dropped ls"
    using Cons.hyps(1) x Cons.prems(2) by (cases rule: svc_step.cases) auto
  with Cons.IH u y Cons.prems show ?case by auto
qed simp

text \<open>After the end of the loop nothing is received or launched any more.\<close>

lemma nothing_after_finish:
  "finished x \<noteq> None \<Longrightarrow> svc_trace body exec x ls y \<Longrightarrow> received ls = [] \<and> launched ls = []"
proof (rotate_tac 1, induction rule: svc_trace.induct)
  case (Cons x l y ls z)
  have "finished y \<noteq> None" using svc_step_finished [OF Cons.hyps(1)] Cons.prems by auto
  with Cons.IH have i: "received ls = [] \<and> launched ls = []" by simp
  from Cons.hyps(1) show ?case by (cases rule: svc_step.cases) (use i Cons.prems in auto)
qed simp

text \<open>Adding up two steps of an account.\<close>

lemma add_chain:
  fixes a :: "'a :: ab_semigroup_add"
  assumes "a + l = b + r + d" and "b + l' = c + r' + d'"
  shows "a + (l + l') = c + (r + r') + (d + d')"
proof -
  have "a + (l + l') = (b + r + d) + l'" by (simp only: assms(1) add.assoc [symmetric])
  also have "\<dots> = (b + l') + (r + d)" by (simp only: ac_simps)
  also have "\<dots> = c + (r + r') + (d + d')" by (simp only: assms(2) ac_simps)
  finally show ?thesis .
qed

subsection \<open>The service interface\<close>

text \<open>
  What the loop relies on: a handler's result carries the id of the call it answers. Under this
  law no result is lost or made up, whatever the interleaving.
\<close>

locale rpc_service =
  fixes body :: "'r \<Rightarrow> 's \<Rightarrow> ('s \<times> ('c, 'e) verdict) option"
    and exec :: "'c \<Rightarrow> 's \<Rightarrow> 's \<times> 'r"
    and cid :: "'c \<Rightarrow> 'i"
    and rid :: "'r \<Rightarrow> 'i"
  assumes exec_id: "rid (snd (exec c s)) = cid c"
begin

definition ids :: "('s, 'c, 'r, 'e) svc \<Rightarrow> 'i multiset" where
  "ids x = mset (map cid (running x)) + mset (map rid (sending x)) + mset (map rid (chan x))"

lemma step_conserves:
  assumes "svc_step body exec x l y"
  shows "ids x + mset (map cid (launched [l]))
    = ids y + mset (map rid (received [l])) + mset (map rid (dropped [l]))"
  using assms
proof (cases rule: svc_step.cases)
  case (handle xs c ys s' r)
  then show ?thesis using exec_id [of c "core x"] by (simp add: ids_def)
qed (simp_all add: ids_def)

lemma trace_conserves:
  "svc_trace body exec x ls y \<Longrightarrow> ids x + mset (map cid (launched ls))
    = ids y + mset (map rid (received ls)) + mset (map rid (dropped ls))"
proof (induction rule: svc_trace.induct)
  case (Cons x l y ls z)
  have L: "mset (map cid (launched (l # ls))) = mset (map cid (launched [l])) + mset (map cid (launched ls))"
    and R: "mset (map rid (received (l # ls))) = mset (map rid (received [l])) + mset (map rid (received ls))"
    and D: "mset (map rid (dropped (l # ls))) = mset (map rid (dropped [l])) + mset (map rid (dropped ls))"
    by (cases l; simp)+
  show ?case
    unfolding L R D by (rule add_chain [OF step_conserves [OF Cons.hyps(1)] Cons.IH])
qed simp

text \<open>A loop that ends by itself, uncancelled, has settled every launched call exactly once.\<close>

lemma all_settled:
  assumes "svc_trace body exec (svc_start s batch) ls y" and "Cancel \<notin> set ls"
    and "finished y = None" and "inflight y = 0"
  shows "mset (map rid (received ls)) = mset (map cid (batch @ launched ls))"
proof -
  have "svc_inv y" by (rule svc_inv_trace [OF assms(1) svc_inv_start])
  then have e: "running y = []" "sending y = []" "chan y = []"
    using assms(3,4) by (simp_all add: svc_inv_def in_transit_def)
  have "dropped ls = []"
    using svc_trace_uncancelled [OF assms(1,2) _ assms(3)] by (simp add: svc_start_def)
  with trace_conserves [OF assms(1)] e show ?thesis
    by (simp add: ids_def svc_start_def)
qed

text \<open>
  A run that has left the loop did so by the loop's condition, or by an iteration that stopped, in
  a state that has what every step keeps.
\<close>

lemma trace_ends:
  assumes "\<And>r s s' v. body r s = Some (s', v) \<Longrightarrow> P s \<Longrightarrow> P s'" and "\<And>c s. P s \<Longrightarrow> P (fst (exec c s))"
  shows "svc_trace body exec x ls y \<Longrightarrow> finished x = None \<Longrightarrow> P (core x) \<Longrightarrow> finished y = Some e \<Longrightarrow>
    Exit \<in> set ls \<or> (\<exists>r s s'. P s \<and> body r s = Some (s', Stop e))"
proof (induction rule: svc_trace.induct)
  case (Cons x l y ls z)
  show ?case
    using Cons.hyps(1)
  proof (cases rule: svc_step.cases)
    case (handle xs c ys s' r)
    with Cons.IH Cons.prems assms(2) [of "core x" c] show ?thesis by simp
  next
    case (receive_go r rs s' batch)
    with Cons.IH Cons.prems assms(1) [OF receive_go(6)] show ?thesis by simp
  next
    case (receive_stop r rs s' e')
    have "finished z = finished y"
      by (rule svc_trace_finished [OF Cons.hyps(2)]) (simp add: receive_stop)
    with Cons.prems receive_stop show ?thesis by auto
  qed (use Cons.IH Cons.prems in auto)
qed simp

lemma settled_at_exit:
  "svc_trace body exec (svc_start s batch) ls y \<Longrightarrow> Cancel \<notin> set ls \<Longrightarrow> Exit \<in> set ls \<Longrightarrow>
    \<exists>ls0 y0. svc_trace body exec (svc_start s batch) ls0 y0 \<and> Cancel \<notin> set ls0 \<and>
      finished y0 = None \<and> inflight y0 = 0 \<and> received ls = received ls0 \<and> launched ls = launched ls0"
proof -
  have main: "svc_trace body exec x ls y \<Longrightarrow> Cancel \<notin> set ls \<Longrightarrow> Exit \<in> set ls \<Longrightarrow>
      \<exists>ls0 y0. svc_trace body exec x ls0 y0 \<and> Cancel \<notin> set ls0 \<and>
      finished y0 = None \<and> inflight y0 = 0 \<and> received ls = received ls0 \<and> launched ls = launched ls0"
    for x
  proof (induction rule: svc_trace.induct)
    case (Cons x l y ls z)
    show ?case
    proof (cases "l = Exit")
      case True
      with Cons.hyps(1) have x: "finished x = None" "inflight x = 0"
        by (auto elim: svc_step.cases)
      have "finished y \<noteq> None" using Cons.hyps(1) True by (auto elim: svc_step.cases)
      then have "received ls = [] \<and> launched ls = []"
        using Cons.hyps(2) by (rule nothing_after_finish)
      with x True show ?thesis by (intro exI [of _ "[]"] exI [of _ x]) auto
    next
      case False
      with Cons.prems Cons.IH obtain ls0 y0 where i: "svc_trace body exec y ls0 y0" "Cancel \<notin> set ls0"
        "finished y0 = None" "inflight y0 = 0" "received ls = received ls0" "launched ls = launched ls0"
        by auto
      then have "svc_trace body exec x (l # ls0) y0" using Cons.hyps(1) by blast
      moreover have "received (l # ls) = received (l # ls0)" "launched (l # ls) = launched (l # ls0)"
        using i(5,6) by (cases l; simp)+
      ultimately show ?thesis using i(2-4) Cons.prems(1) by (intro exI conjI) (assumption, auto)
    qed
  qed simp
  assume "svc_trace body exec (svc_start s batch) ls y" "Cancel \<notin> set ls" "Exit \<in> set ls"
  then show ?thesis by (rule main)
qed

text \<open>At no time has a call been answered that was not launched, or one been answered twice.\<close>

lemma settled_subset:
  "svc_trace body exec (svc_start s batch) ls y \<Longrightarrow>
    mset (map rid (received ls)) \<subseteq># mset (map cid (batch @ launched ls))"
proof -
  assume "svc_trace body exec (svc_start s batch) ls y"
  then have "mset (map cid (batch @ launched ls))
    = mset (map rid (received ls)) + (ids y + mset (map rid (dropped ls)))"
    using trace_conserves by (fastforce simp: ids_def svc_start_def ac_simps)
  then show ?thesis by simp
qed

text \<open>As long as the context is not cancelled and the guest's exports return, some step is possible.\<close>

lemma progress:
  assumes inv: "svc_inv x" and "finished x = None" and "\<not> cancelled x"
    and total: "\<And>r. body r (core x) \<noteq> None"
  shows "\<exists>l y. l \<noteq> Cancel \<and> svc_step body exec x l y"
proof (cases "inflight x = 0")
  case True
  with assms(2) show ?thesis by (blast intro: svc_step.exit)
next
  case busy: False
  with inv assms(2,3) have t: "in_transit x \<noteq> 0" by (simp add: svc_inv_def)
  show ?thesis
  proof (cases "chan x")
    case (Cons r rs)
    from total [of r] obtain s' v where b: "body r (core x) = Some (s', v)" by auto
    show ?thesis
    proof (cases v)
      case (Stop e)
      show ?thesis using assms(2) busy Cons b Stop by (blast intro: svc_step.receive_stop)
    next
      case (GoOn batch)
      show ?thesis using assms(2) busy Cons b GoOn by (blast intro: svc_step.receive_go)
    qed
  next
    case Nil
    show ?thesis
    proof (cases "sending x")
      case (Cons r rs)
      have "svc_step body exec x (Send r) (x\<lparr>sending := [] @ rs, chan := chan x @ [r]\<rparr>)"
        by (rule svc_step.send) (simp_all add: Cons Nil chanCapacity_def)
      then show ?thesis by blast
    next
      case no_send: Nil
      with t Nil obtain c cs where "running x = c # cs"
        by (cases "running x") (auto simp: in_transit_def)
      moreover obtain s' r where "exec c (core x) = (s', r)" by (cases "exec c (core x)")
      ultimately have "svc_step body exec x (Handle c)
          (x\<lparr>core := s', running := [] @ cs, sending := sending x @ [r]\<rparr>)"
        by (intro svc_step.handle) simp_all
      then show ?thesis by blast
    qed
  qed
qed

text \<open>
  A budget for the calls the guest may still make bounds every run, of any interleaving and with
  cancellation at any point.
\<close>

definition svc_measure :: "('s \<Rightarrow> nat) \<Rightarrow> ('s, 'c, 'r, 'e) svc \<Rightarrow> nat" where
  "svc_measure pot x = 3 * pot (core x) + 3 * length (running x) + 2 * length (sending x)
     + length (chan x) + (if cancelled x then 0 else 1) + (if finished x = None then 1 else 0)"

lemma step_decreases:
  assumes "\<And>r s s' batch. body r s = Some (s', GoOn batch) \<Longrightarrow> pot s' + length batch \<le> pot s"
    and "\<And>r s s' e. body r s = Some (s', Stop e) \<Longrightarrow> pot s' \<le> pot s"
    and "\<And>c s. pot (fst (exec c s)) \<le> pot s"
    and "svc_step body exec x l y"
  shows "svc_measure pot y < svc_measure pot x"
  using assms(4)
proof (cases rule: svc_step.cases)
  case (handle xs c ys s' r)
  with assms(3) [of c "core x"] show ?thesis by (simp add: svc_measure_def)
next
  case (receive_go r rs s' batch)
  with assms(1) [OF receive_go(6)] show ?thesis by (simp add: svc_measure_def)
next
  case (receive_stop r rs s' e)
  with assms(2) [OF receive_stop(6)] show ?thesis by (simp add: svc_measure_def)
qed (auto simp: svc_measure_def)

lemma trace_bounded:
  assumes "\<And>r s s' batch. body r s = Some (s', GoOn batch) \<Longrightarrow> pot s' + length batch \<le> pot s"
    and "\<And>r s s' e. body r s = Some (s', Stop e) \<Longrightarrow> pot s' \<le> pot s"
    and "\<And>c s. pot (fst (exec c s)) \<le> pot s"
  shows "svc_trace body exec x ls y \<Longrightarrow> length ls + svc_measure pot y \<le> svc_measure pot x"
proof (induction rule: svc_trace.induct)
  case (Cons x l y ls z)
  have "svc_measure pot y < svc_measure pot x"
    using assms(1,2,3) Cons.hyps(1) by (rule step_decreases)
  with Cons.IH show ?case by simp
qed simp

end

subsection \<open>Cancellation\<close>

text \<open>
  A state in which the loop waits for a result that no goroutine will send: no step is possible.
\<close>

lemma stuck_no_step:
  assumes "inflight x \<noteq> 0" and "running x = []" and "sending x = []" and "chan x = []"
    and "cancelled x"
  shows "\<not> svc_step body exec x l y"
  using assms by (auto elim: svc_step.cases)

lemma cancel_drops_all:
  "cancelled x \<Longrightarrow> running x = [] \<Longrightarrow>
    svc_trace body exec x (map Drop (sending x)) (x\<lparr>sending := []\<rparr>)"
proof (induction "sending x" arbitrary: x)
  case Nil
  then show ?case by (metis list.simps(8) svc_trace.Nil svc.surjective svc.update_convs(3))
next
  case (Cons r rs)
  have "svc_step body exec x (Drop r) (x\<lparr>sending := [] @ rs\<rparr>)"
    by (rule svc_step.drop) (simp_all add: Cons.hyps(2) [symmetric] Cons.prems)
  moreover have "svc_trace body exec (x\<lparr>sending := rs\<rparr>) (map Drop rs) (x\<lparr>sending := []\<rparr>)"
    using Cons.hyps(1) [of "x\<lparr>sending := rs\<rparr>"] Cons.prems by simp
  ultimately show ?case
    by (simp add: Cons.hyps(2) [symmetric] svc_trace.Cons)
qed

lemma all_handled:
  "\<exists>ls s' rs. svc_trace body exec x ls (x\<lparr>core := s', running := [], sending := sending x @ rs\<rparr>)"
proof (induction "running x" arbitrary: x)
  case Nil
  have "svc_trace body exec x [] (x\<lparr>core := core x, running := [], sending := sending x @ []\<rparr>)"
    using Nil by simp
  then show ?case by blast
next
  case (Cons c cs)
  obtain s' r where e: "exec c (core x) = (s', r)" by (cases "exec c (core x)")
  let ?y = "x\<lparr>core := s', running := cs, sending := sending x @ [r]\<rparr>"
  have "svc_step body exec x (Handle c) (x\<lparr>core := s', running := [] @ cs, sending := sending x @ [r]\<rparr>)"
    by (rule svc_step.handle) (simp_all add: Cons.hyps(2) [symmetric] e)
  then have st: "svc_step body exec x (Handle c) ?y" by simp
  obtain ls s'' rs where
    "svc_trace body exec ?y ls (?y\<lparr>core := s'', running := [], sending := sending ?y @ rs\<rparr>)"
    using Cons.hyps(1) [of ?y] by auto
  then have "svc_trace body exec ?y ls (x\<lparr>core := s'', running := [], sending := sending x @ (r # rs)\<rparr>)"
    by simp
  with st show ?case by blast
qed

text \<open>
  Once the context is cancelled, every goroutine may take the \<open>ctx.Done()\<close> branch of its
  \<open>select\<close>, and a loop that had calls in flight then waits for ever.
\<close>

lemma cancel_can_hang:
  fixes body :: "'r \<Rightarrow> 's \<Rightarrow> ('s \<times> ('c, 'e) verdict) option"
    and exec :: "'c \<Rightarrow> 's \<Rightarrow> 's \<times> 'r"
  assumes "batch \<noteq> []"
  shows "\<exists>ls y. svc_trace body exec (svc_start s batch) ls y \<and> finished y = None \<and>
    (\<forall>l z. \<not> svc_step body exec y l z)"
proof -
  let ?x = "svc_start s batch :: ('s, 'c, 'r, 'e) svc"
  let ?c = "?x\<lparr>cancelled := True\<rparr>"
  have "svc_step body exec ?x Cancel ?c"
    by (rule svc_step.cancel) (simp add: svc_start_def)
  then have c: "svc_trace body exec ?x [Cancel] ?c" by blast
  obtain ls s' rs where
    h: "svc_trace body exec ?c ls (?c\<lparr>core := s', running := [], sending := sending ?c @ rs\<rparr>)"
    using all_handled [of body exec ?c] by (elim exE) (rule that)
  let ?h = "?c\<lparr>core := s', running := [], sending := sending ?c @ rs\<rparr>"
  have d: "svc_trace body exec ?h (map Drop (sending ?h)) (?h\<lparr>sending := []\<rparr>)"
    by (rule cancel_drops_all) simp_all
  have "svc_trace body exec ?x ([Cancel] @ ls @ map Drop (sending ?h)) (?h\<lparr>sending := []\<rparr>)"
    by (intro svc_trace_append [OF c] svc_trace_append [OF h] d)
  moreover have "finished (?h\<lparr>sending := []\<rparr>) = None"
    by (simp add: svc_start_def)
  moreover have "\<not> svc_step body exec (?h\<lparr>sending := []\<rparr>) l z" for l z
    by (rule stuck_no_step) (use assms in \<open>simp_all add: svc_start_def\<close>)
  ultimately show ?thesis by blast
qed

end
