(* ===== verification/Service_Loop.thy ===== *)
theory Service_Loop
  imports Instance Rpc_Service
begin

text \<open>
  The RPC service loop of \<open>kafig-go/instance.go\<close>: feeding results back into the guest
  (\<open>resolveRPC\<close>, \<open>rejectRPC\<close>), launching the queued calls (\<open>launchPendingRPCs\<close>) and the loop
  itself, as a function of the scheduler of the host environment and, through the theory
  \<open>Rpc_Service\<close>, as the transition system of all interleavings.
\<close>

subsection \<open>Settling a promise\<close>

text \<open>The error a failed export call is returned as.\<close>

definition wrapCallError :: "string \<Rightarrow> go_error + 'a \<Rightarrow> go_error option" where
  "wrapCallError prefix r = (case r of Inl e \<Rightarrow> Some (ErrWrap prefix e) | Inr _ \<Rightarrow> None)"

definition resolveRPC :: "'g wasm \<Rightarrow> 'w host_env \<Rightarrow> u32 \<Rightarrow> raw \<Rightarrow> ('g, 'w) inst \<Rightarrow>
    (('g, 'w) inst \<times> go_error option) option" where
  "resolveRPC M E promiseID result0 s =
     (let result = or_null result0 in
      case wasmAlloc M (length result) (guest s) of
        (g, Inl e) \<Rightarrow> Some (s\<lparr>guest := g\<rparr>, Some (ErrWrap ''alloc for resolve: '' e))
      | (g, Inr ptr) \<Rightarrow> do {
          let g1 = wasmWrite M ptr result g;
          (s2, r) \<leftarrow> callExport M E
            (fnResolveRpc M g1 (ucast promiseID) (ucast ptr) (of_nat (length result))) (s\<lparr>guest := g1\<rparr>);
          let s3 = s2\<lparr>guest := wasmDealloc M ptr (length result) (guest s2)\<rparr>;
          Some (s3, wrapCallError ''resolve_rpc: '' r)
        })"

text \<open>\<open>json.Marshal(map[string]string{"message": rpcErr.Error()})\<close>\<close>

definition reject_payload :: "go_error \<Rightarrow> string" where
  \<open>reject_payload rpcErr = ''{"message":'' @ json_quote (error_text rpcErr) @ ''}''\<close>

definition rejectRPC :: "'g wasm \<Rightarrow> 'w host_env \<Rightarrow> u32 \<Rightarrow> go_error \<Rightarrow> ('g, 'w) inst \<Rightarrow>
    (('g, 'w) inst \<times> go_error option) option" where
  "rejectRPC M E promiseID rpcErr s =
     (let payload = reject_payload rpcErr in
      case wasmAlloc M (length payload) (guest s) of
        (g, Inl e) \<Rightarrow> Some (s\<lparr>guest := g\<rparr>, Some (ErrWrap ''alloc for reject: '' e))
      | (g, Inr ptr) \<Rightarrow> do {
          let g1 = wasmWrite M ptr payload g;
          (s2, r) \<leftarrow> callExport M E
            (fnRejectRpc M g1 (ucast promiseID) (ucast ptr) (of_nat (length payload))) (s\<lparr>guest := g1\<rparr>);
          let s3 = s2\<lparr>guest := wasmDealloc M ptr (length payload) (guest s2)\<rparr>;
          Some (s3, wrapCallError ''reject_rpc: '' r)
        })"

subsection \<open>The loop\<close>

text \<open>The queue is taken over as the new batch (by value, before anything can be queued again).\<close>

definition launchPendingRPCs :: "('g, 'w) inst \<Rightarrow> ('g, 'w) inst \<times> rpcCall list" where
  "launchPendingRPCs s = (s\<lparr>pendingRPCs := []\<rparr>, pendingRPCs s)"

definition promise_context :: "string \<Rightarrow> u32 \<Rightarrow> string" where
  "promise_context what promiseID = ''kafig: '' @ what @ '' rpc (promise '' @ show_nat (unat promiseID) @ ''): ''"

text \<open>
  The body of the loop, for the result that was received: feeding it back, with the error this
  returns from the loop, and then the look at the script's error and the launch of what it queued.
\<close>

definition feedBack :: "'g wasm \<Rightarrow> 'w host_env \<Rightarrow> rpcResult \<Rightarrow> ('g, 'w) inst \<Rightarrow>
    (('g, 'w) inst \<times> go_error option) option" where
  "feedBack M E res s =
     (case Err res of
        Some rpcErr \<Rightarrow> do {
          (s1, err) \<leftarrow> rejectRPC M E (ResPromiseID res) rpcErr s;
          Some (s1, map_option (ErrWrap (promise_context ''reject'' (ResPromiseID res))) err)
        }
      | None \<Rightarrow> do {
          (s1, err) \<leftarrow> resolveRPC M E (ResPromiseID res) (Value res) s;
          Some (s1, map_option (ErrWrap (promise_context ''resolve'' (ResPromiseID res))) err)
        })"

definition loopVerdict :: "('g, 'w) inst \<Rightarrow> go_error option \<Rightarrow>
    ('g, 'w) inst \<times> (rpcCall, go_error) verdict" where
  "loopVerdict s1 failed =
     (case failed of
        Some e \<Rightarrow> (s1, Stop (Some e))
      | None \<Rightarrow>
          if hasError s1 then (s1, Stop (scriptError s1))
          else (case launchPendingRPCs s1 of (s2, batch) \<Rightarrow> (s2, GoOn batch)))"

definition loopBody :: "'g wasm \<Rightarrow> 'w host_env \<Rightarrow> rpcResult \<Rightarrow> ('g, 'w) inst \<Rightarrow>
    (('g, 'w) inst \<times> (rpcCall, go_error) verdict) option" where
  "loopBody M E res s = do {
     (s1, failed) \<leftarrow> feedBack M E res s;
     Some (loopVerdict s1 failed)
   }"

text \<open>
  A handler goroutine: it only touches the world. A handler that never returns is one whose goroutine
  the scheduler never picks, and in the transition system one that takes no step.
\<close>

definition handlerStep :: "'w host_env \<Rightarrow> rpcCall \<Rightarrow> ('g, 'w) inst \<Rightarrow> ('g, 'w) inst \<times> rpcResult" where
  "handlerStep E r s = (case runRPC (isPrint E) (router s) (world s) r of (w, res) \<Rightarrow> (s\<lparr>world := w\<rparr>, res))"

text \<open>
  \<open>res := <-results\<close>: the scheduler picks the goroutine that sends next. When none ever sends
  (a handler that never returns, or goroutines that saw the context cancelled), the receive
  blocks for ever, which is \<^const>\<open>None\<close>.
\<close>

definition receiveResult :: "'w host_env \<Rightarrow> rpcCall list \<Rightarrow> ('g, 'w) inst \<Rightarrow>
    (('g, 'w) inst \<times> rpcCall list \<times> rpcResult) option" where
  "receiveResult E rs s =
     (case nextResult E (world s) rs of
        None \<Rightarrow> None
      | Some k \<Rightarrow>
          if rs = [] then None
          else (let i = k mod length rs in
            case handlerStep E (rs ! i) s of
              (s', res) \<Rightarrow> Some (s', remove_nth i rs, res)))"

text \<open>
  When the loop returns early, its deferred \<open>rpcCancel()\<close> only tells the goroutines: those that are
  in their handler run it to the end, with its effects on the world, and discard the result. In
  this function they do so before the caller goes on, in the order of their list; the transition
  system of \<open>Rpc_Service\<close> has every other order too.
\<close>

definition abandon :: "'w host_env \<Rightarrow> rpcCall list \<Rightarrow> ('g, 'w) inst \<Rightarrow> ('g, 'w) inst" where
  "abandon E rs s = foldl (\<lambda>s r. fst (handlerStep E r s)) s rs"

text \<open>\<open>n\<close> is the count \<open>inflight\<close>.\<close>

partial_function (option) rpcLoop :: "'g wasm \<Rightarrow> 'w host_env \<Rightarrow> rpcCall list \<Rightarrow> nat \<Rightarrow>
    ('g, 'w) inst \<Rightarrow> (('g, 'w) inst \<times> go_error option) option" where
  "rpcLoop M E rs n s =
     (if n > 0 then do {
        (s1, rs1, res) \<leftarrow> receiveResult E rs s;
        (s2, v) \<leftarrow> loopBody M E res s1;
        (case v of
           Stop e \<Rightarrow> Some (abandon E rs1 s2, e)
         | GoOn batch \<Rightarrow> rpcLoop M E (rs1 @ batch) (n - 1 + length batch) s2)
      }
      else Some (s, None))"

definition serviceRPCLoop :: "'g wasm \<Rightarrow> 'w host_env \<Rightarrow> ('g, 'w) inst \<Rightarrow>
    (('g, 'w) inst \<times> go_error option) option" where
  "serviceRPCLoop M E s =
     (if pendingRPCs s = [] then Some (s, None)
      else (case launchPendingRPCs s of (s1, batch) \<Rightarrow> rpcLoop M E batch (length batch) s1))"

subsection \<open>Facts\<close>

lemma callExport_wf [wf_intro]: "callExport M E r s = Some (s', res) \<Longrightarrow> inst_wf s \<Longrightarrow> inst_wf s'"
  by (rule wf_run.callExport_keeps)

lemma callExport_config [frame]: "callExport M E r s = Some (s', res) \<Longrightarrow> inst_config s' = inst_config s"
  by (rule config_run.callExport_keeps) simp_all

text \<open>
  How an instance changes while its guest is at work: the guest state may change (memory writes,
  allocation) and exports may run, with all the imports they call.
\<close>

inductive evolves :: "'g wasm \<Rightarrow> 'w host_env \<Rightarrow> ('g, 'w) inst \<Rightarrow> ('g, 'w) inst \<Rightarrow> bool"
  for M :: "'g wasm" and E :: "'w host_env" where
  stay: "evolves M E s s"
| guest_only: "evolves M E s t \<Longrightarrow> evolves M E s (t\<lparr>guest := g\<rparr>)"
| export: "evolves M E s t \<Longrightarrow> callExport M E r t = Some (u, res) \<Longrightarrow> evolves M E s u"

lemma evolves_guest: "evolves M E s (s\<lparr>guest := g\<rparr>)"
  by (intro evolves.guest_only evolves.stay)

lemma evolves_call:
  "callExport M E r (s\<lparr>guest := g\<rparr>) = Some (u, res) \<Longrightarrow> evolves M E s (u\<lparr>guest := g'\<rparr>)"
  by (rule evolves.guest_only [OF evolves.export [OF evolves_guest]])

lemma resolveRPC_evolves: "resolveRPC M E pid v s = Some (s', err) \<Longrightarrow> evolves M E s s'"
  by (auto simp: resolveRPC_def Let_def bind_eq_Some_conv intro: evolves_guest evolves_call
      split: prod.splits sum.splits)

lemma rejectRPC_evolves: "rejectRPC M E pid e s = Some (s', err) \<Longrightarrow> evolves M E s s'"
  by (auto simp: rejectRPC_def Let_def bind_eq_Some_conv intro: evolves_guest evolves_call
      split: prod.splits sum.splits)

lemma feedBack_cases:
  assumes "feedBack M E res s = Some (s1, failed)"
  obtains (reject) e err where "rejectRPC M E (ResPromiseID res) e s = Some (s1, err)"
  | (resolve) err where "resolveRPC M E (ResPromiseID res) (Value res) s = Some (s1, err)"
  using assms unfolding feedBack_def
  by (cases "Err res") (auto elim!: bind_SomeE)

lemma feedBack_evolves: "feedBack M E res s = Some (s', failed) \<Longrightarrow> evolves M E s s'"
  by (erule feedBack_cases) (auto intro: resolveRPC_evolves rejectRPC_evolves)

context run_invariant
begin

lemma evolves_keeps: "evolves M E s t \<Longrightarrow> P s \<Longrightarrow> P t"
  by (induction rule: evolves.induct) (auto intro: keeps_guest callExport_keeps)

end

text \<open>The three ways one unfolding of the loop can return.\<close>

lemma rpcLoop_unfold_cases:
  assumes "(if n > 0 then do {
      (s1, rs1, res) \<leftarrow> receiveResult E rs s;
      (s2, v) \<leftarrow> loopBody M E res s1;
      (case v of Stop e \<Rightarrow> Some (abandon E rs1 s2, e) | GoOn batch \<Rightarrow> f (rs1 @ batch) (n - 1 + length batch) s2) }
    else Some (s, None)) = Some r"
  obtains (empty) "n = 0" and "r = (s, None)"
  | (stop) s1 rs1 res s2 e where "0 < n" and "receiveResult E rs s = Some (s1, rs1, res)"
      and "loopBody M E res s1 = Some (s2, Stop e)" and "r = (abandon E rs1 s2, e)"
  | (go) s1 rs1 res s2 batch where "0 < n" and "receiveResult E rs s = Some (s1, rs1, res)"
      and "loopBody M E res s1 = Some (s2, GoOn batch)"
      and "f (rs1 @ batch) (n - 1 + length batch) s2 = Some r"
proof (cases "n > 0")
  case True
  let ?cont = "\<lambda>rs1 s2 v. case v of Stop e \<Rightarrow> Some (abandon E rs1 s2, e)
      | GoOn batch \<Rightarrow> f (rs1 @ batch) (n - 1 + length batch) s2"
  have "Option.bind (receiveResult E rs s) (\<lambda>(s1, rs1, res).
      Option.bind (loopBody M E res s1) (\<lambda>(s2, v). ?cont rs1 s2 v)) = Some r"
    using assms by (simp only: True if_True)
  then obtain t where r1: "receiveResult E rs s = Some t" and t: "(\<lambda>(s1, rs1, res).
      Option.bind (loopBody M E res s1) (\<lambda>(s2, v). ?cont rs1 s2 v)) t = Some r"
    by (rule bind_SomeE)
  obtain s1 rs1 res where tt: "t = (s1, rs1, res)" by (cases t)
  from t obtain u where r2: "loopBody M E res s1 = Some u" and u: "(\<lambda>(s2, v). ?cont rs1 s2 v) u = Some r"
    unfolding tt prod.case by (rule bind_SomeE)
  obtain s2 v where uu: "u = (s2, v)" by (cases u)
  note r1 = r1 [unfolded tt] and r2 = r2 [unfolded uu] and r3 = u [unfolded uu prod.case]
  show ?thesis
  proof (cases v)
    case (Stop e)
    show ?thesis by (rule stop [OF True r1]) (use r2 r3 Stop in auto)
  next
    case (GoOn batch)
    show ?thesis
      by (rule go [OF True r1]) (use r2 r3 in \<open>simp_all only: GoOn verdict.case\<close>)
  qed
next
  case False
  with assms show ?thesis by (auto intro: empty)
qed

text \<open>What an iteration of the loop and the receive before it keep, the whole loop keeps.\<close>

locale body_invariant =
  fixes M :: "'g wasm" and E :: "'w host_env" and P :: "('g, 'w) inst \<Rightarrow> bool"
  assumes keeps_body: "loopBody M E res s = Some (s', v) \<Longrightarrow> P s \<Longrightarrow> P s'"
    and keeps_world: "P s \<Longrightarrow> P (s\<lparr>world := w\<rparr>)"
    and keeps_pending: "P s \<Longrightarrow> P (s\<lparr>pendingRPCs := qs\<rparr>)"
begin

lemma receiveResult_keeps: "receiveResult E rs s = Some (s', rs', res) \<Longrightarrow> P s \<Longrightarrow> P s'"
  by (auto simp: receiveResult_def handlerStep_def Let_def
      intro!: keeps_world split: prod.splits option.splits if_splits)

lemma abandon_keeps: "P s \<Longrightarrow> P (abandon E rs s)"
  unfolding abandon_def
  by (induction rs arbitrary: s) (simp_all add: handlerStep_def split_beta keeps_world)

lemma rpcLoop_keeps:
  assumes ret: "rpcLoop M E rs n s = Some r" and "P s"
  shows "P (fst r)"
proof -
  have "M = M \<longrightarrow> E = E \<longrightarrow> P s \<longrightarrow> P (fst r)"
  proof (rule rpcLoop.raw_induct [where P = "\<lambda>M' E' rs n s r. M' = M \<longrightarrow> E' = E \<longrightarrow> P s \<longrightarrow> P (fst r)", OF _ ret])
    fix f M' E' rs n s r
    assume IH: "\<And>M' E' rs n s r. f M' E' rs n s = Some r \<Longrightarrow> M' = M \<longrightarrow> E' = E \<longrightarrow> P s \<longrightarrow> P (fst r)"
      and eq: "(if n > 0 then do {
          (s1, rs1, res) \<leftarrow> receiveResult E' rs s;
          (s2, v) \<leftarrow> loopBody M' E' res s1;
          (case v of Stop e \<Rightarrow> Some (abandon E' rs1 s2, e)
           | GoOn batch \<Rightarrow> f M' E' (rs1 @ batch) (n - 1 + length batch) s2) }
        else Some (s, None)) = Some r"
    show "M' = M \<longrightarrow> E' = E \<longrightarrow> P s \<longrightarrow> P (fst r)"
      using eq
    proof (cases rule: rpcLoop_unfold_cases)
      case (go s1 rs1 res s2 batch)
      from IH [OF go(4)] show ?thesis using go(2,3) keeps_body receiveResult_keeps by blast
    qed (auto dest: keeps_body receiveResult_keeps intro: abandon_keeps)
  qed
  with \<open>P s\<close> show ?thesis by simp
qed

lemma serviceRPCLoop_keeps: "serviceRPCLoop M E s = Some (s', err) \<Longrightarrow> P s \<Longrightarrow> P s'"
  by (auto simp: serviceRPCLoop_def launchPendingRPCs_def split: if_splits
      dest!: rpcLoop_keeps intro!: keeps_pending)

end

text \<open>
  A predicate that also ignores what handlers do to the world and which calls are queued is kept
  by the whole loop.
\<close>

locale loop_invariant = run_invariant M E P
  for M :: "'g wasm" and E :: "'w host_env" and P :: "('g, 'w) inst \<Rightarrow> bool" +
  assumes loop_world: "P s \<Longrightarrow> P (s\<lparr>world := w\<rparr>)"
    and loop_pending: "P s \<Longrightarrow> P (s\<lparr>pendingRPCs := qs\<rparr>)"
begin

lemma loopVerdict_keeps: "P s \<Longrightarrow> P (fst (loopVerdict s failed))"
  by (auto simp: loopVerdict_def launchPendingRPCs_def intro: loop_pending split: option.splits)

lemma loopBody_keeps:
  assumes "loopBody M E res s = Some (s', v)" and "P s"
  shows "P s'"
proof -
  from assms(1) obtain s1 failed where "feedBack M E res s = Some (s1, failed)"
    and v: "loopVerdict s1 failed = (s', v)"
    unfolding loopBody_def by (auto elim!: bind_SomeE)
  then have "P s1" using assms(2) feedBack_evolves evolves_keeps by blast
  then show ?thesis using loopVerdict_keeps [of s1 failed] v by simp
qed

end

sublocale loop_invariant \<subseteq> loop: body_invariant M E P
  by unfold_locales (auto intro: loopBody_keeps loop_world loop_pending)

interpretation wf_loop: loop_invariant M E inst_wf for M :: "'g wasm" and E :: "'w host_env"
  by unfold_locales (simp_all add: inst_wf_def)

interpretation config_loop: loop_invariant M E "\<lambda>s. inst_config s = c"
  for M :: "'g wasm" and E :: "'w host_env" and c
  by unfold_locales (simp_all add: inst_config_def)

interpretation interrupt_loop: loop_invariant M E interrupted for M :: "'g wasm" and E :: "'w host_env"
  by unfold_locales simp_all

interpretation go_service: rpc_service "loopBody M E" "handlerStep E" PromiseID ResPromiseID
  for M :: "'g wasm" and E :: "'w host_env"
  by unfold_locales (simp add: handlerStep_def split_beta)

subsection \<open>The loop as a run of the transition system\<close>

definition svc_at :: "'s \<Rightarrow> 'c list \<Rightarrow> nat \<Rightarrow> ('s, 'c, 'r, 'e) svc" where
  "svc_at s rs n = \<lparr>core = s, running = rs, sending = [], chan = [], inflight = n,
     cancelled = False, finished = None\<rparr>"

lemma svc_start_at: "svc_start s rs = svc_at s rs (length rs)"
  by (simp add: svc_start_def svc_at_def)

text \<open>A receive of the scheduled loop is three steps: the handler runs, sends, and is received.\<close>

lemma receiveResult_trace:
  fixes body :: "rpcResult \<Rightarrow> ('g, 'w) inst \<Rightarrow> (('g, 'w) inst \<times> (rpcCall, 'e) verdict) option"
  assumes "receiveResult E rs s = Some (s1, rs1, res)" and "0 < n"
  obtains c where "svc_trace body (handlerStep E) (svc_at s rs n) [Handle c, Send res]
    ((svc_at s1 rs1 n)\<lparr>chan := [res]\<rparr>)" and "length rs1 = length rs - 1" and "rs \<noteq> []"
proof -
  from assms(1) obtain k where ne: "rs \<noteq> []" and
    h: "handlerStep E (rs ! (k mod length rs)) s = (s1, res)" and rs1: "rs1 = remove_nth (k mod length rs) rs"
    by (auto simp: receiveResult_def Let_def split: option.splits if_splits prod.splits)
  let ?i = "k mod length rs"
  have i: "?i < length rs" using ne by simp
  let ?x = "svc_at s rs n :: (('g, 'w) inst, rpcCall, rpcResult, 'e) svc"
  let ?y = "?x\<lparr>core := s1, running := take ?i rs @ drop (Suc ?i) rs, sending := sending ?x @ [res]\<rparr>"
  have 1: "svc_step body (handlerStep E) ?x (Handle (rs ! ?i)) ?y"
    by (rule svc_step.handle) (simp_all add: svc_at_def h id_take_nth_drop [OF i, symmetric])
  have "svc_step body (handlerStep E) ?y (Send res) (?y\<lparr>sending := [] @ [], chan := chan ?y @ [res]\<rparr>)"
    by (rule svc_step.send) (simp_all add: svc_at_def chanCapacity_def)
  moreover have "?y\<lparr>sending := [] @ [], chan := chan ?y @ [res]\<rparr> = (svc_at s1 rs1 n)\<lparr>chan := [res]\<rparr>"
    by (simp add: svc_at_def rs1 remove_nth_def)
  ultimately have 2: "svc_step body (handlerStep E) ?y (Send res) ((svc_at s1 rs1 n)\<lparr>chan := [res]\<rparr>)"
    by simp
  show thesis
    by (rule that [of "rs ! ?i"]) (use 1 2 ne rs1 length_remove_nth [OF i] in auto)
qed

text \<open>Abandoned goroutines run their handlers after the end of the loop.\<close>

lemma abandon_trace:
  "running y = rs \<Longrightarrow> \<exists>ls z. svc_trace body (handlerStep E) y ls z \<and> Cancel \<notin> set ls \<and>
    core z = abandon E rs (core y) \<and> finished z = finished y"
proof (induction rs arbitrary: y)
  case Nil
  then show ?case by (intro exI [of _ "[]"] exI [of _ y]) (simp add: abandon_def)
next
  case (Cons c rs)
  obtain s' r where h: "handlerStep E c (core y) = (s', r)" by (cases "handlerStep E c (core y)")
  let ?y = "y\<lparr>core := s', running := [] @ rs, sending := sending y @ [r]\<rparr>"
  have st: "svc_step body (handlerStep E) y (Handle c) ?y"
    by (rule svc_step.handle) (simp_all add: Cons.prems h)
  obtain ls z where z: "svc_trace body (handlerStep E) ?y ls z" "Cancel \<notin> set ls"
    "core z = abandon E rs s'" "finished z = finished y"
    using Cons.IH [of ?y] by auto
  have "svc_trace body (handlerStep E) y (Handle c # ls) z" by (rule svc_trace.Cons [OF st z(1)])
  then show ?case using z h by (intro exI conjI) (assumption, simp_all add: abandon_def)
qed

lemma rpcLoop_traced:
  fixes s :: "('g, 'w) inst"
  assumes ret: "rpcLoop M E rs n s = Some r"
  shows "\<exists>ls y. svc_trace (loopBody M E) (handlerStep E) (svc_at s rs n) ls y \<and> Cancel \<notin> set ls \<and>
    core y = fst r \<and> finished y = Some (snd r)"
proof (rule rpcLoop.raw_induct [where P = "\<lambda>M E rs n s r. \<exists>ls y.
      svc_trace (loopBody M E) (handlerStep E) (svc_at s rs n) ls y \<and> Cancel \<notin> set ls \<and>
      core y = fst r \<and> finished y = Some (snd r)", OF _ ret])
  fix f M E rs n and s :: "('g, 'w) inst" and r
  assume IH: "\<And>M E rs n s r. f M E rs n s = Some r \<Longrightarrow> \<exists>ls y.
      svc_trace (loopBody M E) (handlerStep E) (svc_at s rs n) ls y \<and> Cancel \<notin> set ls \<and>
      core y = fst r \<and> finished y = Some (snd r)"
    and eq: "(if n > 0 then do {
          (s1, rs1, res) \<leftarrow> receiveResult E rs s;
          (s2, v) \<leftarrow> loopBody M E res s1;
          (case v of Stop e \<Rightarrow> Some (abandon E rs1 s2, e)
           | GoOn batch \<Rightarrow> f M E (rs1 @ batch) (n - 1 + length batch) s2) }
        else Some (s, None)) = Some r"
  let ?tr = "svc_trace (loopBody M E) (handlerStep E)"
  show "\<exists>ls y. ?tr (svc_at s rs n) ls y \<and> Cancel \<notin> set ls \<and> core y = fst r \<and> finished y = Some (snd r)"
    using eq
  proof (cases rule: rpcLoop_unfold_cases)
    case empty
    let ?x = "svc_at s rs n :: (('g, 'w) inst, rpcCall, rpcResult, go_error) svc"
    have "svc_step (loopBody M E) (handlerStep E) ?x Exit (?x\<lparr>finished := Some None, cancelled := True\<rparr>)"
      by (rule svc_step.exit) (simp_all add: svc_at_def empty)
    then have "?tr ?x [Exit] (?x\<lparr>finished := Some None, cancelled := True\<rparr>)" by blast
    then show ?thesis using empty by (intro exI conjI) (assumption, simp_all add: svc_at_def)
  next
    case (stop s1 rs1 res s2 e)
    obtain c where t: "?tr (svc_at s rs n) [Handle c, Send res] ((svc_at s1 rs1 n)\<lparr>chan := [res]\<rparr>)"
      by (rule receiveResult_trace [OF stop(2,1)])
    let ?x = "(svc_at s1 rs1 n)\<lparr>chan := [res]\<rparr> :: (('g, 'w) inst, rpcCall, rpcResult, go_error) svc"
    let ?y = "?x\<lparr>core := s2, chan := [], inflight := inflight ?x - 1, finished := Some e, cancelled := True\<rparr>"
    have "svc_step (loopBody M E) (handlerStep E) ?x (Receive res []) ?y"
      by (rule svc_step.receive_stop) (use stop in \<open>simp_all add: svc_at_def\<close>)
    then have y: "?tr (svc_at s rs n) ([Handle c, Send res] @ [Receive res []]) ?y"
      by (intro svc_trace_append [OF t]) blast
    have "running ?y = rs1" by (simp add: svc_at_def)
    then obtain ls z where z: "?tr ?y ls z" "Cancel \<notin> set ls" "core z = abandon E rs1 (core ?y)"
      "finished z = finished ?y" using abandon_trace by blast
    from svc_trace_append [OF y z(1)] show ?thesis
      using z stop by (intro exI conjI) (assumption, simp_all)
  next
    case (go s1 rs1 res s2 batch)
    obtain c where t: "?tr (svc_at s rs n) [Handle c, Send res] ((svc_at s1 rs1 n)\<lparr>chan := [res]\<rparr>)"
      by (rule receiveResult_trace [OF go(2,1)])
    let ?x = "(svc_at s1 rs1 n)\<lparr>chan := [res]\<rparr> :: (('g, 'w) inst, rpcCall, rpcResult, go_error) svc"
    have "svc_step (loopBody M E) (handlerStep E) ?x (Receive res batch)
        (?x\<lparr>core := s2, chan := [], inflight := inflight ?x - 1 + length batch, running := running ?x @ batch\<rparr>)"
      by (rule svc_step.receive_go) (use go in \<open>simp_all add: svc_at_def\<close>)
    moreover have "?x\<lparr>core := s2, chan := [], inflight := inflight ?x - 1 + length batch,
        running := running ?x @ batch\<rparr> = svc_at s2 (rs1 @ batch) (n - 1 + length batch)"
      by (simp add: svc_at_def)
    ultimately have s: "svc_step (loopBody M E) (handlerStep E) ?x (Receive res batch)
        (svc_at s2 (rs1 @ batch) (n - 1 + length batch))" by simp
    from IH [OF go(4)] obtain ls y where
      y: "?tr (svc_at s2 (rs1 @ batch) (n - 1 + length batch)) ls y" "Cancel \<notin> set ls"
        "core y = fst r" "finished y = Some (snd r)" by blast
    have "?tr (svc_at s rs n) ([Handle c, Send res] @ Receive res batch # ls) y"
      by (intro svc_trace_append [OF t] svc_trace.Cons [OF s] y(1))
    with y show ?thesis by (intro exI conjI) (assumption, simp_all)
  qed
qed

subsection \<open>The loop returns\<close>

text \<open>
  The guest's calls are bounded by a budget, a number read off the guest state that pays for every
  call an export queues: allocation and memory writes do not add to it, and settling a promise
  takes from it what it adds to the queue. Nothing else about the guest matters.
\<close>

definition rpc_budget :: "'g wasm \<Rightarrow> 'w host_env \<Rightarrow> ('g \<Rightarrow> nat) \<Rightarrow> bool" where
  "rpc_budget M E pot =
     ((\<forall>g n. pot (fst (fnAlloc M g n)) \<le> pot g) \<and> (\<forall>g p n. pot (fnDealloc M g p n) \<le> pot g) \<and>
      (\<forall>g p d. pot (memWrite M g p d) \<le> pot g) \<and>
      (\<forall>g pid p n (s :: ('g, 'w) inst) s' r.
         callExport M E (fnResolveRpc M g pid p n) (s\<lparr>guest := g\<rparr>) = Some (s', r) \<or>
         callExport M E (fnRejectRpc M g pid p n) (s\<lparr>guest := g\<rparr>) = Some (s', r) \<longrightarrow>
         pot (guest s') + length (pendingRPCs s') \<le> pot g + length (pendingRPCs s)))"

text \<open>Every export returns or traps, and some in-flight goroutine always delivers.\<close>

definition rpc_live :: "'g wasm \<Rightarrow> 'w host_env \<Rightarrow> bool" where
  "rpc_live M E =
     ((\<forall>g pid p n (s :: ('g, 'w) inst). callExport M E (fnResolveRpc M g pid p n) (s\<lparr>guest := g\<rparr>) \<noteq> None) \<and>
      (\<forall>g pid p n (s :: ('g, 'w) inst). callExport M E (fnRejectRpc M g pid p n) (s\<lparr>guest := g\<rparr>) \<noteq> None) \<and>
      (\<forall>w rs. rs \<noteq> [] \<longrightarrow> nextResult E w rs \<noteq> None))"

definition owed :: "('g \<Rightarrow> nat) \<Rightarrow> ('g, 'w) inst \<Rightarrow> nat" where
  "owed pot s = pot (guest s) + length (pendingRPCs s)"

lemma wasmAlloc_guest: "fst (wasmAlloc M n g) = fst (fnAlloc M g (of_nat (if n = 0 then 1 else n)))"
  by (simp add: wasmAlloc_def Let_def split: prod.splits sum.splits)

lemma owed_alloc: "rpc_budget M E pot \<Longrightarrow> wasmAlloc M n g = (g', r) \<Longrightarrow> pot g' \<le> pot g"
  using wasmAlloc_guest [of M n g] by (simp add: rpc_budget_def)

lemma resolveRPC_owed:
  assumes "rpc_budget M E pot" and "resolveRPC M E pid v s = Some (s', err)"
  shows "owed pot s' \<le> owed pot s"
proof (cases "wasmAlloc M (length (or_null v)) (guest s)")
  case (Pair g r)
  have g: "pot g \<le> pot (guest s)" by (rule owed_alloc [OF assms(1) Pair])
  show ?thesis
  proof (cases r)
    case (Inl e)
    with assms(2) Pair g show ?thesis by (auto simp: resolveRPC_def Let_def owed_def)
  next
    case (Inr ptr)
    let ?g = "wasmWrite M ptr (or_null v) g"
    let ?n = "length (or_null v)"
    from assms(2) Pair Inr obtain s2 r2 where
      c: "callExport M E (fnResolveRpc M ?g (ucast pid) (ucast ptr) (of_nat ?n)) (s\<lparr>guest := ?g\<rparr>) = Some (s2, r2)"
      and s': "s' = s2\<lparr>guest := wasmDealloc M ptr ?n (guest s2)\<rparr>"
      by (auto simp: resolveRPC_def Let_def elim!: bind_SomeE)
    have "pot (guest s2) + length (pendingRPCs s2) \<le> pot ?g + length (pendingRPCs s)"
      using assms(1) c unfolding rpc_budget_def by blast
    moreover have "pot ?g \<le> pot g" "pot (guest s') \<le> pot (guest s2)"
      using assms(1) by (simp_all add: rpc_budget_def s' wasmWrite_def wasmDealloc_def Let_def)
    ultimately show ?thesis using g by (simp add: owed_def s')
  qed
qed

lemma rejectRPC_owed:
  assumes "rpc_budget M E pot" and "rejectRPC M E pid e s = Some (s', err)"
  shows "owed pot s' \<le> owed pot s"
proof (cases "wasmAlloc M (length (reject_payload e)) (guest s)")
  case (Pair g r)
  have g: "pot g \<le> pot (guest s)" by (rule owed_alloc [OF assms(1) Pair])
  show ?thesis
  proof (cases r)
    case (Inl e')
    with assms(2) Pair g show ?thesis by (auto simp: rejectRPC_def Let_def owed_def)
  next
    case (Inr ptr)
    let ?g = "wasmWrite M ptr (reject_payload e) g"
    let ?n = "length (reject_payload e)"
    from assms(2) Pair Inr obtain s2 r2 where
      c: "callExport M E (fnRejectRpc M ?g (ucast pid) (ucast ptr) (of_nat ?n)) (s\<lparr>guest := ?g\<rparr>) = Some (s2, r2)"
      and s': "s' = s2\<lparr>guest := wasmDealloc M ptr ?n (guest s2)\<rparr>"
      by (auto simp: rejectRPC_def Let_def elim!: bind_SomeE)
    have "pot (guest s2) + length (pendingRPCs s2) \<le> pot ?g + length (pendingRPCs s)"
      using assms(1) c unfolding rpc_budget_def by blast
    moreover have "pot ?g \<le> pot g" "pot (guest s') \<le> pot (guest s2)"
      using assms(1) by (simp_all add: rpc_budget_def s' wasmWrite_def wasmDealloc_def Let_def)
    ultimately show ?thesis using g by (simp add: owed_def s')
  qed
qed

text \<open>One iteration pays for the calls it launches.\<close>

lemma loopBody_owed:
  assumes "rpc_budget M E pot" and "loopBody M E res s = Some (s', v)"
  shows "owed pot s' + (case v of GoOn batch \<Rightarrow> length batch | Stop e \<Rightarrow> 0) \<le> owed pot s"
proof -
  from assms(2) obtain s1 failed where f: "feedBack M E res s = Some (s1, failed)"
    and v: "loopVerdict s1 failed = (s', v)"
    unfolding loopBody_def by (auto elim!: bind_SomeE)
  have "owed pot s1 \<le> owed pot s"
    by (rule feedBack_cases [OF f]) (auto intro: resolveRPC_owed rejectRPC_owed assms(1))
  with v show ?thesis
    by (cases failed) (auto simp: loopVerdict_def launchPendingRPCs_def owed_def split: if_splits)
qed

lemma loopBody_returns:
  assumes "rpc_live M E"
  shows "loopBody M E res (s :: ('g, 'w) inst) \<noteq> None"
proof -
  have c: "\<exists>s' r. callExport M E (fnResolveRpc M g pid p n) (s\<lparr>guest := g\<rparr>) = Some (s', r)"
    "\<exists>s' r. callExport M E (fnRejectRpc M g pid p n) (s\<lparr>guest := g\<rparr>) = Some (s', r)"
    for g pid p n and s :: "('g, 'w) inst"
    using assms unfolding rpc_live_def by fastforce+
  have "\<exists>s1 err. resolveRPC M E pid v s = Some (s1, err)" for pid v and s :: "('g, 'w) inst"
  proof (cases "wasmAlloc M (length (or_null v)) (guest s)")
    case (Pair g r)
    then show ?thesis
      using c(1) [of "wasmWrite M (projr r) (or_null v) g" "ucast pid" "ucast (projr r)" "of_nat (length (or_null v))" s]
      by (cases r) (auto simp: resolveRPC_def Let_def)
  qed
  moreover have "\<exists>s1 err. rejectRPC M E pid e s = Some (s1, err)" for pid e and s :: "('g, 'w) inst"
  proof (cases "wasmAlloc M (length (reject_payload e)) (guest s)")
    case (Pair g r)
    then show ?thesis
      using c(2) [of "wasmWrite M (projr r) (reject_payload e) g" "ucast pid" "ucast (projr r)" "of_nat (length (reject_payload e))" s]
      by (cases r) (auto simp: rejectRPC_def Let_def)
  qed
  ultimately have r: "\<exists>s1 err. resolveRPC M E (ResPromiseID res) (Value res) s = Some (s1, err)"
    "\<exists>s1 err. rejectRPC M E (ResPromiseID res) e s = Some (s1, err)" for e
    by blast+
  have "\<exists>s1 failed. feedBack M E res s = Some (s1, failed)"
  proof (cases "Err res")
    case None
    with r(1) show ?thesis by (elim exE) (simp add: feedBack_def)
  next
    case (Some e)
    with r(2) [of e] show ?thesis by (elim exE) (simp add: feedBack_def)
  qed
  then show ?thesis by (elim exE) (simp add: loopBody_def)
qed

lemma receiveResult_owed: "receiveResult E rs s = Some (s1, rs1, res) \<Longrightarrow> owed pot s1 = owed pot s"
  by (auto simp: receiveResult_def handlerStep_def Let_def owed_def
      split: option.splits if_splits prod.splits)

lemma rpcLoop_returns:
  assumes "rpc_budget M E pot" and "rpc_live M E" and "length rs = n"
  shows "\<exists>r. rpcLoop M E rs n (s :: ('g, 'w) inst) = Some r"
  using assms(3)
proof (induction "owed pot s + n" arbitrary: rs n s rule: less_induct)
  case less
  show ?case
  proof (cases "n = 0")
    case True
    then show ?thesis by (simp add: rpcLoop.simps)
  next
    case False
    with less.prems have ne: "rs \<noteq> []" by auto
    with assms(2) have "nextResult E (world s) rs \<noteq> None" unfolding rpc_live_def by blast
    then obtain k where "nextResult E (world s) rs = Some k" by blast
    with ne obtain s1 rs1 res where r: "receiveResult E rs s = Some (s1, rs1, res)"
      by (cases "handlerStep E (rs ! (k mod length rs)) s") (simp add: receiveResult_def Let_def)
    then have l: "length rs1 = n - 1"
      using less.prems ne by (auto simp: receiveResult_def Let_def length_remove_nth
          split: option.splits prod.splits)
    from loopBody_returns [OF assms(2), of res s1] obtain s2 v where b: "loopBody M E res s1 = Some (s2, v)"
      by auto
    show ?thesis
    proof (cases v)
      case (Stop e)
      with r b False show ?thesis by (simp add: rpcLoop.simps)
    next
      case (GoOn batch)
      have "owed pot s2 + length batch \<le> owed pot s1"
        using loopBody_owed [OF assms(1) b] GoOn by simp
      then have "owed pot s2 + (n - 1 + length batch) < owed pot s + n"
        using False receiveResult_owed [OF r, of pot] by simp
      from less.hyps [OF this, of "rs1 @ batch"] l have
        "\<exists>r. rpcLoop M E (rs1 @ batch) (n - 1 + length batch) s2 = Some r" by simp
      then show ?thesis using r b False GoOn by (simp add: rpcLoop.simps [of M E rs n s])
    qed
  qed
qed

end
