(* ===== verification/Sample_Module.thy ===== *)
theory Sample_Module
  imports Instance
begin

text \<open>
  A small concrete guest on which the properties are applied: one page of memory, an allocator that
  hands out fresh addresses and keeps the list of live buffers, and exports that echo. A
  synchronous \<open>eval\<close> sets its source as the result; an asynchronous one makes one RPC, with the
  source as method name and as parameters; settling an RPC sets its value as the result or the
  error. It is the engine, not the model: the definitions of the other theories are applied to it.
\<close>

record sample =
  mem :: "nat \<Rightarrow> char"
  brk :: nat
  live :: "(nat \<times> nat) list"

definition page :: nat where "page = 65536"

definition sample0 :: sample where
  "sample0 = \<lparr>mem = (\<lambda>_. CHR 0x00), brk = 16, live = []\<rparr>"

definition sample_alloc :: "sample \<Rightarrow> u64 \<Rightarrow> sample \<times> (go_error + u64)" where
  "sample_alloc g n =
     (if n = 0 \<or> page < brk g + unat n then (g, Inr 0)
      else (g\<lparr>brk := brk g + unat n, live := live g @ [(brk g, unat n)]\<rparr>, Inr (of_nat (brk g))))"

definition sample_dealloc :: "sample \<Rightarrow> u64 \<Rightarrow> u64 \<Rightarrow> sample" where
  "sample_dealloc g p n = g\<lparr>live := remove1 (unat p, unat n) (live g)\<rparr>"

definition sample_read :: "sample \<Rightarrow> u32 \<Rightarrow> u32 \<Rightarrow> string option" where
  "sample_read g p n =
     (if unat p + unat n \<le> page then Some (map (mem g) [unat p..<unat p + unat n]) else None)"

fun poke :: "nat \<Rightarrow> string \<Rightarrow> (nat \<Rightarrow> char) \<Rightarrow> nat \<Rightarrow> char" where
  "poke a [] m = m"
| "poke a (c # cs) m = poke (Suc a) cs (m(a := c))"

definition sample_write :: "sample \<Rightarrow> u32 \<Rightarrow> string \<Rightarrow> sample" where
  "sample_write g p s =
     (if unat p + length s \<le> page then g\<lparr>mem := poke (unat p) s (mem g)\<rparr> else g)"

definition sample_result :: "sample \<Rightarrow> u64 \<Rightarrow> u64 \<Rightarrow> u32 \<Rightarrow> sample run" where
  "sample_result g p n e =
     CallsHost g (CallSetResult (ucast p) (ucast n) e) (\<lambda>g' _. Returned g' [0])"

definition sample_eval :: "sample \<Rightarrow> u64 \<Rightarrow> u64 \<Rightarrow> u64 \<Rightarrow> sample run" where
  "sample_eval g p n is_async =
     (if is_async = 0 then sample_result g p n 0
      else CallsHost g (CallRPC (ucast p) (ucast n) (ucast p) (ucast n) 7) (\<lambda>g' _. Returned g' [0]))"

definition sample_wasm :: "sample wasm" where
  "sample_wasm = \<lparr>fnAlloc = sample_alloc, fnDealloc = sample_dealloc, fnEval = sample_eval,
     fnEvalCompiled = sample_eval,
     fnDispatchEvent = (\<lambda>g np nl pp pl a. sample_eval g pp pl a),
     fnResolveRpc = (\<lambda>g pid p n. sample_result g p n 0),
     fnRejectRpc = (\<lambda>g pid p n. sample_result g p n 1),
     fnGetOpcodeCount = (\<lambda>g. (g, Inr 42)), fnGetCPUTimeUs = (\<lambda>g. (g, Inr 7)),
     fnResetExecutionStats = (\<lambda>g. (g, None)), fnSetMemoryLimit = (\<lambda>g n. (g, None)),
     closeModule = (\<lambda>g. (g, None)), memRead = sample_read, memWrite = sample_write\<rparr>"

text \<open>The world of the samples counts the calls of the handler \<open>ping\<close>, which echoes.\<close>

definition sample_env :: "nat host_env" where
  "sample_env = \<lparr>isPrint = (\<lambda>c. 32 \<le> c \<and> c \<le> 126), signalled = (\<lambda>w. (w, False)),
     nextResult = (\<lambda>w rs. if rs = [] then None else Some w)\<rparr>"

definition sample_router :: "nat RPCRouter" where
  "sample_router = WithAsync ''ping'' (\<lambda>w p. (Suc w, Returns p None)) NewRPCRouter"

definition sample_inst :: "(sample, nat) inst" where
  "sample_inst = \<lparr>guest = sample0, world = 0, router = sample_router, interruptCallback = None,
     promiseRejectionHandler = None, interrupted = False, pendingRPCs = [], scriptError = None,
     hasError = False, resultValue = None, hasResult = False\<rparr>"

definition sample_call :: rpcCall where
  "sample_call = \<lparr>PromiseID = 7, Method = ''ping'', Params = Some ''1''\<rparr>"

text \<open>An instance whose script has queued one call.\<close>

definition sample_pending :: "(sample, nat) inst" where
  "sample_pending = sample_inst\<lparr>pendingRPCs := [sample_call]\<rparr>"

lemmas sample_simps = sample0_def sample_alloc_def sample_dealloc_def sample_read_def
  sample_write_def sample_result_def sample_eval_def sample_wasm_def sample_env_def
  sample_router_def sample_inst_def sample_call_def sample_pending_def page_def

end
