(* ===== verification/Guest_Error.thy ===== *)
theory Guest_Error
  imports Errors
begin

text \<open>
  \<open>kafig-runtime/src/error.rs\<close>: the guest's side of the error payloads, classification, JSON
  escaping and the payload texts, and what the Go side reads back from them. A Rust \<open>str\<close> is a
  byte string that is valid UTF-8; \<open>host_set_result\<close> is represented by the pair it passes on, the
  payload and \<open>is_error\<close>.
\<close>

definition classify_error_code :: "string \<Rightarrow> string" where
  "classify_error_code msg =
     (if msg = ''interrupted'' then ''cpu_limit_exceeded''
      else if str_contains msg ''out of memory'' then ''memory_limit_exceeded''
      else if str_contains msg ''stack'' then ''stack_overflow''
      else ''runtime_error'')"

text \<open>
  The loop goes over characters; those past ASCII are pushed as they are, so going over the bytes
  gives the same text.
\<close>

definition escape_byte :: "char \<Rightarrow> string" where
  "escape_byte c =
     (if c = dquote then [bslash, dquote] else if c = bslash then [bslash, bslash]
      else if c = CHR 0x0A then bslash # ''n'' else if c = CHR 0x0D then bslash # ''r''
      else if c = CHR 0x09 then bslash # ''t''
      else if of_char c < (32::nat) then bslash # CHR ''u'' # hex4 (of_char c)
      else [c])"

definition json_escape_string :: "string \<Rightarrow> string" where
  "json_escape_string s = dquote # concat (map escape_byte s) @ [dquote]"

definition build_js_error_json :: "string \<Rightarrow> string \<Rightarrow> string option \<Rightarrow> string" where
  \<open>build_js_error_json name msg stack =
     ''{"kind":"js_error","name":'' @ json_escape_string name
      @ '',"message":'' @ json_escape_string msg
      @ '',"stack":'' @ (case stack of Some s \<Rightarrow> json_escape_string s | None \<Rightarrow> ''null'') @ ''}''\<close>

definition send_js_error :: "string \<Rightarrow> string \<Rightarrow> string option \<Rightarrow> string \<times> bool" where
  "send_js_error name msg stack = (build_js_error_json name msg stack, True)"

definition send_runtime_error :: "string \<Rightarrow> string \<Rightarrow> string \<times> bool" where
  \<open>send_runtime_error code msg =
     (''{"kind":"runtime_error","code":"'' @ code @ ''","message":'' @ json_escape_string msg @ ''}'',
      True)\<close>

definition send_exception :: "string \<Rightarrow> string \<Rightarrow> string option \<Rightarrow> string \<times> bool" where
  "send_exception name msg stack =
     (let code = classify_error_code msg in
      if code \<noteq> ''runtime_error'' then send_runtime_error code msg
      else send_js_error name msg stack)"

subsection \<open>Escaping, read back by the decoder\<close>

lemma escape_byte_high: "128 \<le> (of_char c :: nat) \<Longrightarrow> escape_byte c = [c]"
  by (auto simp: escape_byte_def dquote_def bslash_def)

lemma escape_bytes_high: "\<forall>c \<in> set s. 128 \<le> (of_char c :: nat) \<Longrightarrow> concat (map escape_byte s) = s"
  by (induction s) (simp_all add: escape_byte_high)

lemma escape_byte_ascii:
  obtains (short) e where "escape_byte c = [bslash, e]" and "unescape e = [c]" and "e \<noteq> CHR ''u''"
      and "e \<in> set ''bfnrt/'' \<or> e = dquote \<or> e = bslash"
  | (hex) "escape_byte c = bslash # CHR ''u'' # hex4 (of_char c)"
  | (plain) "escape_byte c = [c]" and "c \<noteq> dquote" and "c \<noteq> bslash" and "32 \<le> (of_char c :: nat)"
proof -
  consider "c = dquote \<or> c = bslash" | "c = CHR 0x0A" | "c = CHR 0x0D" | "c = CHR 0x09"
    | "c \<noteq> dquote" "c \<noteq> bslash" "c \<notin> {CHR 0x0A, CHR 0x0D, CHR 0x09}"
    by blast
  then show thesis
  proof cases
    case 1
    then show ?thesis
      by (intro short [of c]) (elim disjE; simp add: escape_byte_def unescape_def dquote_def bslash_def)+
  next
    case 2
    then show ?thesis
      by (intro short [of "CHR ''n''"]) (simp_all add: escape_byte_def unescape_def dquote_def bslash_def)
  next
    case 3
    then show ?thesis
      by (intro short [of "CHR ''r''"]) (simp_all add: escape_byte_def unescape_def dquote_def bslash_def)
  next
    case 4
    then show ?thesis
      by (intro short [of "CHR ''t''"]) (simp_all add: escape_byte_def unescape_def dquote_def bslash_def)
  next
    case 5
    then show ?thesis
      by (cases "of_char c < (32::nat)") (simp_all add: escape_byte_def hex plain)
  qed
qed

lemma str_body_escape_byte [str_bodies]: "str_body (escape_byte c)"
  by (cases c rule: escape_byte_ascii) (simp_all add: str_bodies)

lemma str_body_escape [str_bodies]: "str_body (concat (map escape_byte s))"
  by (induction s) (simp_all add: str_bodies)

lemma unquote_escape_byte:
  assumes "of_char c < (128::nat)"
  shows "unquote (escape_byte c @ rest) = c # unquote rest"
proof (cases c rule: escape_byte_ascii)
  case (short e)
  then show ?thesis by (simp add: unquote_esc)
next
  case hex
  then show ?thesis
    using assms unquote_hex4 [of "of_char c" rest] by (simp add: encode_rune_def)
next
  case plain
  then show ?thesis using assms by (simp add: unquote_ascii)
qed

text \<open>Decoding the escaped form of a Rust string gives the string.\<close>

lemma unquote_escape: "valid_utf8 s \<Longrightarrow> unquote (concat (map escape_byte s)) = s"
proof (induction s rule: valid_utf8.induct)
  case (2 c cs)
  let ?w = "utf8_len (c # cs)"
  let ?t = "take ?w (c # cs)"
  from "2.prems" have w: "?w \<noteq> 0" and v: "valid_utf8 (drop (?w - 1) cs)"
    by (auto simp: valid_utf8.simps)
  have IH: "unquote (concat (map escape_byte (drop (?w - 1) cs))) = drop (?w - 1) cs"
    by (rule "2.IH" [OF v])
  show ?case
  proof (cases "of_char c < (128::nat)")
    case True
    then have "?w = 1" by (rule ascii_utf8_len)
    with IH show ?thesis using unquote_escape_byte [OF True] by simp
  next
    case False
    then have high: "\<forall>x \<in> set ?t. 128 \<le> (of_char x :: nat)"
      using utf8_high [of c _ cs] by auto
    have split: "c # cs = ?t @ drop (?w - 1) cs"
      using w by (cases ?w) simp_all
    have "concat (map escape_byte (c # cs)) = ?t @ concat (map escape_byte (drop (?w - 1) cs))"
      by (subst split) (simp only: map_append concat_append escape_bytes_high [OF high])
    then show ?thesis
      using unquote_high [of c cs] False w IH split by simp
  qed
qed simp

subsection \<open>The payloads, read back by \<open>parseErrorJSON\<close>\<close>

lemma lex_json_escape_string:
  "lex LNone (json_escape_string s @ rest)
     = map_option ((#) (TStr (concat (map escape_byte s)))) (lex LNone rest)"
  using lex_quoted [OF str_body_escape, of s rest] by (simp add: json_escape_string_def)

lemmas lex_char_simps = is_ws_def is_punct_def is_word_char_def is_digit_def is_letter_def dquote_def

lemma lex_js_error_json:
  "lex LNone (build_js_error_json name msg stack) = Some
     ([TPunct CHR ''{'', TStr ''kind'', TPunct CHR '':'', TStr ''js_error'', TPunct CHR '','',
       TStr ''name'', TPunct CHR '':'', TStr (concat (map escape_byte name)), TPunct CHR '','',
       TStr ''message'', TPunct CHR '':'', TStr (concat (map escape_byte msg)), TPunct CHR '','',
       TStr ''stack'', TPunct CHR '':'',
       (case stack of Some s \<Rightarrow> TStr (concat (map escape_byte s)) | None \<Rightarrow> TWord ''null''),
       TPunct CHR ''}''])"
  by (cases stack)
    (simp_all add: build_js_error_json_def lex_json_escape_string lex_char_simps bslash_def)

lemma lex_runtime_error_json:
  assumes "str_body code"
  shows "lex LNone (fst (send_runtime_error code msg)) = Some
     [TPunct CHR ''{'', TStr ''kind'', TPunct CHR '':'', TStr ''runtime_error'', TPunct CHR '','',
       TStr ''code'', TPunct CHR '':'', TStr code, TPunct CHR '','',
       TStr ''message'', TPunct CHR '':'', TStr (concat (map escape_byte msg)), TPunct CHR ''}'']"
  using str_bodyD [OF assms, of "[]"]
  by (simp add: send_runtime_error_def lex_json_escape_string lex_char_simps bslash_def)

lemma unquote_literals:
  "unquote ''kind'' = ''kind''" "unquote ''name'' = ''name''" "unquote ''message'' = ''message''"
  "unquote ''stack'' = ''stack''" "unquote ''code'' = ''code''" "unquote ''js_error'' = ''js_error''"
  "unquote ''runtime_error'' = ''runtime_error''"
  by (simp_all add: unquote_ascii bslash_def)

lemmas parse_simps = parse_json_def wants_value_def wants_key_def maxNestingDepth_def word_value_def Let_def

text \<open>
  The payload the runtime builds for a thrown exception is decoded by the Go side to exactly the
  exception's name, message and stack.
\<close>

lemma js_error_roundtrip:
  assumes "valid_utf8 name" and "valid_utf8 msg" and "\<And>s. stack = Some s \<Longrightarrow> valid_utf8 s"
  shows "parseErrorJSON (build_js_error_json name msg stack)
    = ErrJs \<lparr>Name = name, Message = msg, Stack = stack\<rparr>"
proof -
  have "\<exists>r1 r2 r3 r4. object_fields (build_js_error_json name msg stack) = Some
     [(''kind'', r1, JStr ''js_error''), (''name'', r2, JStr name), (''message'', r3, JStr msg),
      (''stack'', r4, case stack of Some s \<Rightarrow> JStr s | None \<Rightarrow> JNull)]"
    using assms
    by (cases stack)
      (simp_all add: object_fields_def parse_simps lex_js_error_json unquote_literals unquote_escape)
  then obtain r1 r2 r3 r4 where fs: "object_fields (build_js_error_json name msg stack) = Some
     [(''kind'', r1, JStr ''js_error''), (''name'', r2, JStr name), (''message'', r3, JStr msg),
      (''stack'', r4, case stack of Some s \<Rightarrow> JStr s | None \<Rightarrow> JNull)]"
    by blast
  show ?thesis
    using fs
    by (cases stack) (simp_all add: parseErrorJSON_def field_names unmarshal_JsError_def)
qed

text \<open>
  The payload for a limit or an internal error is decoded to the same message, and to the same code
  unless that is the generic code and the message itself names a more specific one.
\<close>

lemma runtime_error_roundtrip:
  assumes "valid_utf8 msg" and "code \<in> {ErrorCodeCPULimitExceeded, ErrorCodeMemoryLimitExceeded,
    ErrorCodeStackOverflow, ErrorCodeRuntimeError}"
  shows "parseErrorJSON (fst (send_runtime_error code msg)) = ErrRuntime
    \<lparr>Code = (if code = ErrorCodeRuntimeError then classifyErrorCode msg else code), RtMessage = msg\<rparr>"
proof -
  have body: "str_body code" and plain: "unquote code = code" and ne: "code \<noteq> []"
    using assms(2) by (auto simp: error_codes str_body_literal unquote_ascii bslash_def dquote_def)
  have "\<exists>r1 r2 r3. object_fields (fst (send_runtime_error code msg)) = Some
     [(''kind'', r1, JStr ''runtime_error''), (''code'', r2, JStr code), (''message'', r3, JStr msg)]"
    using assms(1)
    by (simp add: object_fields_def parse_simps lex_runtime_error_json [OF body] unquote_literals
        unquote_escape plain)
  then obtain r1 r2 r3 where fs: "object_fields (fst (send_runtime_error code msg)) = Some
     [(''kind'', r1, JStr ''runtime_error''), (''code'', r2, JStr code), (''message'', r3, JStr msg)]"
    by blast
  show ?thesis
    by (simp add: parseErrorJSON_def fs field_names unmarshal_RuntimeError_def ne Let_def)
qed

text \<open>
  C20. An exception is reported once: the guest's classification of the message decides between the
  two error types, and the Go side, which classifies again, agrees with it.
\<close>

theorem send_exception_decoded:
  assumes "valid_utf8 name" and "valid_utf8 msg" and "\<And>s. stack = Some s \<Longrightarrow> valid_utf8 s"
  shows "parseErrorJSON (fst (send_exception name msg stack)) =
    (if classifyErrorCode msg = ErrorCodeRuntimeError
     then ErrJs \<lparr>Name = name, Message = msg, Stack = stack\<rparr>
     else ErrRuntime \<lparr>Code = classifyErrorCode msg, RtMessage = msg\<rparr>)"
proof -
  have agree: "classify_error_code msg = classifyErrorCode msg"
    by (simp add: classify_error_code_def classifyErrorCode_def error_codes)
  show ?thesis
  proof (cases "classifyErrorCode msg = ErrorCodeRuntimeError")
    case True
    then show ?thesis
      using js_error_roundtrip [OF assms]
      by (simp add: send_exception_def agree error_codes send_js_error_def)
  next
    case False
    have "classifyErrorCode msg \<in> {ErrorCodeCPULimitExceeded, ErrorCodeMemoryLimitExceeded,
        ErrorCodeStackOverflow, ErrorCodeRuntimeError}"
      by (simp add: classifyErrorCode_def)
    then show ?thesis
      using runtime_error_roundtrip [OF assms(2)] False
      by (simp add: send_exception_def agree error_codes Let_def)
  qed
qed

theorem send_exception_decoded_witness:
  "parseErrorJSON (fst (send_exception ''InternalError'' ''interrupted'' None))
    = ErrRuntime \<lparr>Code = ErrorCodeCPULimitExceeded, RtMessage = ''interrupted''\<rparr>"
proof -
  have v: "valid_utf8 ''InternalError''" "valid_utf8 ''interrupted''"
    by (simp_all add: valid_utf8_simps)
  show ?thesis
    using send_exception_decoded [OF v, of None]
    by (simp add: classifyErrorCode_def error_codes)
qed

end
