(* ===== verification/Service_Spec.thy ===== *)
theory Service_Spec
  imports Service_Loop Sample_Module Guest_Error
begin

text \<open>
  What the RPC service loop guarantees: it refines the servicing of calls one by one (\<open>services\<close>);
  whatever the interleaving of the handler goroutines, each call's own promise is settled, once; the
  loop returns; what it does under cancellation; the payload a failed call is rejected with.
\<close>

subsection \<open>The sample run\<close>

lemmas loop_simps = serviceRPCLoop_def launchPendingRPCs_def receiveResult_def handlerStep_def
  runRPC_def callWithRecover_def call_handler_def loopBody_def feedBack_def loopVerdict_def
  resolveRPC_def rejectRPC_def wrapCallError_def or_null_def wasmAlloc_def wasmDealloc_def
  wasmWrite_def wasmReadCopy_def wasmReadString_def hostRPC_def hostSetResult_def
  remove_nth_def asyncSignals_def NewRPCRouter_def WithAsync_def Let_def

definition sample_answer :: rpcResult where
  "sample_answer = \<lparr>ResPromiseID = 7, Value = Some ''1'', Err = None\<rparr>"

definition sample_done :: "(sample, nat) inst" where
  "sample_done = sample_inst\<lparr>guest := sample0\<lparr>brk := 17, mem := (\<lambda>_. CHR 0x00)(16 := CHR ''1'')\<rparr>,
     world := 1, resultValue := Some ''1'', hasResult := True\<rparr>"

lemma sample_handler: "handlerStep sample_env sample_call sample_inst = (sample_inst\<lparr>world := Suc 0\<rparr>, sample_answer)"
  by (simp add: loop_simps sample_simps sample_answer_def)

lemma sample_body:
  "loopBody sample_wasm sample_env sample_answer (sample_inst\<lparr>world := Suc 0\<rparr>) = Some (sample_done, GoOn [])"
  by (simp add: loop_simps sample_simps sample_answer_def sample_done_def)

text \<open>One call: its handler runs, sends its answer, which is received, and the loop ends.\<close>

lemma sample_trace:
  "\<exists>y. svc_trace (loopBody sample_wasm sample_env) (handlerStep sample_env)
     (svc_start sample_inst [sample_call])
     [Handle sample_call, Send sample_answer, Receive sample_answer []] y
   \<and> finished y = None \<and> inflight y = 0 \<and> \<not> cancelled y"
proof -
  let ?step = "svc_step (loopBody sample_wasm sample_env) (handlerStep sample_env)"
  let ?x = "svc_start sample_inst [sample_call] :: ((sample, nat) inst, rpcCall, rpcResult, go_error) svc"
  let ?y = "?x\<lparr>core := sample_inst\<lparr>world := Suc 0\<rparr>, running := [] @ [], sending := sending ?x @ [sample_answer]\<rparr>"
  let ?z = "?y\<lparr>sending := [] @ [], chan := chan ?y @ [sample_answer]\<rparr>"
  let ?u = "?z\<lparr>core := sample_done, chan := [], inflight := inflight ?z - 1 + length ([] :: rpcCall list),
      running := running ?z @ []\<rparr>"
  have 1: "?step ?x (Handle sample_call) ?y"
    by (rule svc_step.handle) (simp_all add: svc_start_def sample_handler)
  have 2: "?step ?y (Send sample_answer) ?z"
    by (rule svc_step.send) (simp_all add: svc_start_def chanCapacity_def)
  have 3: "?step ?z (Receive sample_answer []) ?u"
    by (rule svc_step.receive_go) (simp_all add: svc_start_def sample_body)
  have "svc_trace (loopBody sample_wasm sample_env) (handlerStep sample_env) ?x
      [Handle sample_call, Send sample_answer, Receive sample_answer []] ?u"
    by (intro svc_trace.Cons [OF 1] svc_trace.Cons [OF 2] svc_trace.Cons [OF 3] svc_trace.Nil)
  then show ?thesis by (intro exI conjI) (assumption, simp_all add: svc_start_def)
qed

lemma sample_service: "serviceRPCLoop sample_wasm sample_env sample_pending = Some (sample_done, None)"
proof -
  have "sample_pending\<lparr>pendingRPCs := []\<rparr> = sample_inst" by (simp add: sample_simps)
  moreover have "receiveResult sample_env [sample_call] sample_inst =
      Some (sample_inst\<lparr>world := Suc 0\<rparr>, [], sample_answer)"
    using sample_handler by (simp add: receiveResult_def sample_env_def remove_nth_def Let_def)
  moreover have "rpcLoop sample_wasm sample_env [] 0 sample_done = Some (sample_done, None)"
    by (simp add: rpcLoop.simps)
  ultimately show ?thesis
    using rpcLoop.simps [of sample_wasm sample_env "[sample_call]" "Suc 0" sample_inst]
    by (simp add: serviceRPCLoop_def launchPendingRPCs_def sample_body sample_pending_def)
qed

subsection \<open>Every call is answered once\<close>

lemma loopBody_stops_with:
  assumes "loopBody M E res s = Some (s', Stop e)" and "inst_wf s"
  shows "e \<noteq> None"
proof -
  from assms(1) obtain s1 failed where f: "feedBack M E res s = Some (s1, failed)"
    and v: "loopVerdict s1 failed = (s', Stop e)"
    unfolding loopBody_def by (auto elim!: bind_SomeE)
  have "inst_wf s1" using f assms(2) feedBack_evolves wf_run.evolves_keeps by blast
  then have "hasError s1 \<Longrightarrow> scriptError s1 \<noteq> None" by (simp add: inst_wf_def)
  with v show ?thesis
    by (cases failed) (auto simp: loopVerdict_def launchPendingRPCs_def split: if_splits)
qed

lemma handlerStep_wf: "inst_wf s \<Longrightarrow> inst_wf (fst (handlerStep E c s))"
  by (simp add: handlerStep_def split_beta inst_wf_def)

text \<open>
  What servicing calls means, without loop, channel or result message: as long as a call is
  outstanding, one of them is answered by its handler; the answer is put into guest memory and the
  guest settles the promise of that very call with it, rejected if the handler failed and resolved
  otherwise; if the script has then not failed, the calls it queued while settling are outstanding
  in turn. It is over when no call is outstanding.
\<close>

definition settlePromise :: "'g wasm \<Rightarrow> go_error option \<Rightarrow> 'g \<Rightarrow> u32 \<Rightarrow> u32 \<Rightarrow> nat \<Rightarrow> 'g run" where
  "settlePromise M failed g promise ptr len =
     (case failed of
        None \<Rightarrow> fnResolveRpc M g (ucast promise) (ucast ptr) (of_nat len)
      | Some e \<Rightarrow> fnRejectRpc M g (ucast promise) (ucast ptr) (of_nat len))"

inductive services :: "'g wasm \<Rightarrow> 'w host_env \<Rightarrow> ('g, 'w) inst \<Rightarrow> rpcCall multiset \<Rightarrow> ('g, 'w) inst \<Rightarrow> bool"
  for M :: "'g wasm" and E :: "'w host_env" where
  over: "services M E s {#} s"
| answer: "runRPC (isPrint E) (router s) (world s) c = (w, res) \<Longrightarrow>
    payload = (case Err res of None \<Rightarrow> or_null (Value res) | Some e \<Rightarrow> reject_payload e) \<Longrightarrow>
    wasmAlloc M (length payload) (guest s) = (g, Inr ptr) \<Longrightarrow>
    callExport M E (settlePromise M (Err res) (memWrite M g ptr payload) (PromiseID c) ptr (length payload))
      (s\<lparr>world := w, guest := memWrite M g ptr payload\<rparr>) = Some (t, Inr vs) \<Longrightarrow>
    \<not> hasError t \<Longrightarrow>
    services M E (t\<lparr>guest := wasmDealloc M ptr (length payload) (guest t), pendingRPCs := []\<rparr>)
      (Q + mset (pendingRPCs t)) s' \<Longrightarrow>
    services M E s (add_mset c Q) s'"

text \<open>One iteration of the loop that goes on is one such answer.\<close>

lemma resolveRPC_settles:
  assumes "resolveRPC M E pid v s = Some (s1, None)"
  obtains g ptr t vs where "wasmAlloc M (length (or_null v)) (guest s) = (g, Inr ptr)"
    and "callExport M E (settlePromise M None (memWrite M g ptr (or_null v)) pid ptr (length (or_null v)))
      (s\<lparr>guest := memWrite M g ptr (or_null v)\<rparr>) = Some (t, Inr vs)"
    and "s1 = t\<lparr>guest := wasmDealloc M ptr (length (or_null v)) (guest t)\<rparr>"
  using assms by (auto simp: resolveRPC_def wrapCallError_def settlePromise_def wasmWrite_def Let_def
      elim!: bind_SomeE split: prod.splits sum.splits)

lemma rejectRPC_settles:
  assumes "rejectRPC M E pid e s = Some (s1, None)"
  obtains g ptr t vs where "wasmAlloc M (length (reject_payload e)) (guest s) = (g, Inr ptr)"
    and "callExport M E (settlePromise M (Some e) (memWrite M g ptr (reject_payload e)) pid ptr (length (reject_payload e)))
      (s\<lparr>guest := memWrite M g ptr (reject_payload e)\<rparr>) = Some (t, Inr vs)"
    and "s1 = t\<lparr>guest := wasmDealloc M ptr (length (reject_payload e)) (guest t)\<rparr>"
  using assms by (auto simp: rejectRPC_def wrapCallError_def settlePromise_def wasmWrite_def Let_def
      elim!: bind_SomeE split: prod.splits sum.splits)

lemma loopBody_services:
  assumes h: "handlerStep E c s = (s1, res)" and b: "loopBody M E res s1 = Some (s2, GoOn batch)"
    and rest: "services M E s2 (Q + mset batch) s'"
  shows "services M E s (add_mset c Q) s'"
proof -
  from h obtain w where r: "runRPC (isPrint E) (router s) (world s) c = (w, res)"
    and s1: "s1 = s\<lparr>world := w\<rparr>" by (auto simp: handlerStep_def split: prod.splits)
  have id: "ResPromiseID res = PromiseID c" using r runRPC_id [of "isPrint E" "router s" "world s" c] by simp
  from b obtain u where f: "feedBack M E res s1 = Some (u, None)" and e: "\<not> hasError u"
    and s2: "s2 = u\<lparr>pendingRPCs := []\<rparr>" and batch: "batch = pendingRPCs u"
    unfolding loopBody_def loopVerdict_def launchPendingRPCs_def
    by (auto elim!: bind_SomeE split: option.splits if_splits)
  show ?thesis
  proof (cases "Err res")
    case None
    with f have "resolveRPC M E (PromiseID c) (Value res) s1 = Some (u, None)"
      by (auto simp: feedBack_def id elim!: bind_SomeE)
    then show ?thesis
      by (rule resolveRPC_settles) (rule services.answer [OF r refl], insert rest e,
        simp_all add: None s1 s2 batch)
  next
    case (Some x)
    with f have "rejectRPC M E (PromiseID c) x s1 = Some (u, None)"
      by (auto simp: feedBack_def id elim!: bind_SomeE)
    then show ?thesis
      by (rule rejectRPC_settles) (rule services.answer [OF r refl], insert rest e,
        simp_all add: Some s1 s2 batch)
  qed
qed

lemma receiveResult_picks:
  assumes "receiveResult E rs s = Some (s1, rs1, res)"
  obtains i where "i < length rs" and "handlerStep E (rs ! i) s = (s1, res)" and "rs1 = remove_nth i rs"
proof -
  from assms obtain k where "rs \<noteq> []" "handlerStep E (rs ! (k mod length rs)) s = (s1, res)"
    "rs1 = remove_nth (k mod length rs) rs"
    by (auto simp: receiveResult_def Let_def split: option.splits if_splits prod.splits)
  then show thesis by (intro that [of "k mod length rs"]) simp_all
qed

lemma rpcLoop_services:
  assumes ret: "rpcLoop M E rs n s = Some r"
  shows "inst_wf s \<longrightarrow> length rs = n \<longrightarrow> snd r = None \<longrightarrow> services M E s (mset rs) (fst r)"
proof (rule rpcLoop.raw_induct [where P = "\<lambda>M E rs n s r. inst_wf s \<longrightarrow> length rs = n \<longrightarrow>
      snd r = None \<longrightarrow> services M E s (mset rs) (fst r)", OF _ ret])
  fix f M E rs n s r
  assume IH: "\<And>M E rs n s r. f M E rs n s = Some r \<Longrightarrow> inst_wf s \<longrightarrow> length rs = n \<longrightarrow>
      snd r = None \<longrightarrow> services M E s (mset rs) (fst r)"
    and eq: "(if n > 0 then do {
          (s1, rs1, res) \<leftarrow> receiveResult E rs s;
          (s2, v) \<leftarrow> loopBody M E res s1;
          (case v of Stop e \<Rightarrow> Some (abandon E rs1 s2, e)
           | GoOn batch \<Rightarrow> f M E (rs1 @ batch) (n - 1 + length batch) s2) }
        else Some (s, None)) = Some r"
  show "inst_wf s \<longrightarrow> length rs = n \<longrightarrow> snd r = None \<longrightarrow> services M E s (mset rs) (fst r)"
    using eq
  proof (cases rule: rpcLoop_unfold_cases)
    case empty
    then show ?thesis by (auto intro: services.over)
  next
    case (stop s1 rs1 res s2 e)
    have "inst_wf s \<longrightarrow> inst_wf s1" using stop(2) wf_loop.loop.receiveResult_keeps by blast
    then show ?thesis using stop(3,4) loopBody_stops_with by fastforce
  next
    case (go s1 rs1 res s2 batch)
    from receiveResult_picks [OF go(2)]
    obtain i where i: "i < length rs" "handlerStep E (rs ! i) s = (s1, res)" "rs1 = remove_nth i rs" .
    have wf: "inst_wf s \<longrightarrow> inst_wf s2"
      using wf_loop.loop.receiveResult_keeps [OF go(2)] wf_loop.loopBody_keeps [OF go(3)] by blast
    have "length rs = n \<longrightarrow> length (rs1 @ batch) = n - 1 + length batch"
      using i by (simp add: length_remove_nth)
    then have "inst_wf s \<longrightarrow> length rs = n \<longrightarrow> snd r = None \<longrightarrow> services M E s2 (mset rs1 + mset batch) (fst r)"
      using IH [OF go(4)] wf by simp
    then show ?thesis
      using loopBody_services [OF i(2) go(3)] mset_remove_nth [OF i(1)] i(3) by metis
  qed
qed

text \<open>
  C1. When the service loop of an asynchronous execution returns without an error, every call was
  serviced: one after the other, each outstanding call was answered by its handler and the guest
  settled the promise of that call, with the handler's value or error as payload in its memory;
  the calls the script queued while settling became outstanding in turn; and none was left.
\<close>

theorem service_settles_all:
  assumes "inst_wf s" and "serviceRPCLoop M E s = Some (s', None)"
  shows "services M E (s\<lparr>pendingRPCs := []\<rparr>) (mset (pendingRPCs s)) s'"
proof (cases "pendingRPCs s = []")
  case True
  with assms(2) have "s' = s\<lparr>pendingRPCs := []\<rparr>" by (simp add: serviceRPCLoop_def)
  with True show ?thesis by (simp add: services.over)
next
  case False
  have "inst_wf (s\<lparr>pendingRPCs := []\<rparr>)" using assms(1) by (simp add: inst_wf_def)
  with assms(2) False show ?thesis
    using rpcLoop_services [of M E "pendingRPCs s" "length (pendingRPCs s)" "s\<lparr>pendingRPCs := []\<rparr>" "(s', None)"]
    by (simp add: serviceRPCLoop_def launchPendingRPCs_def)
qed

theorem service_settles_all_witness:
  "services sample_wasm sample_env (sample_pending\<lparr>pendingRPCs := []\<rparr>) {#sample_call#} sample_done"
  using service_settles_all [OF _ sample_service]
  by (simp add: inst_wf_def sample_pending_def sample_inst_def)

subsection \<open>Every interleaving\<close>

text \<open>
  A guest that records what the loop does to it: \<open>log\<close> reads off its state the promises it was
  asked to settle, in order, and \<open>made\<close> the promises of the calls it queued while settling.
\<close>

definition records :: "'g wasm \<Rightarrow> 'w host_env \<Rightarrow> ('g \<Rightarrow> u64 list) \<Rightarrow> ('g \<Rightarrow> u32 list) \<Rightarrow> bool" where
  "records M E log made =
     ((\<forall>g n. log (fst (fnAlloc M g n)) = log g \<and> made (fst (fnAlloc M g n)) = made g) \<and>
      (\<forall>g p n. log (fnDealloc M g p n) = log g \<and> made (fnDealloc M g p n) = made g) \<and>
      (\<forall>g p d. log (memWrite M g p d) = log g \<and> made (memWrite M g p d) = made g) \<and>
      (\<forall>g pid p n (s :: ('g, 'w) inst) s' r.
         callExport M E (fnResolveRpc M g pid p n) (s\<lparr>guest := g\<rparr>) = Some (s', r) \<or>
         callExport M E (fnRejectRpc M g pid p n) (s\<lparr>guest := g\<rparr>) = Some (s', r) \<longrightarrow>
         log (guest s') = log g @ [pid] \<and>
         made (guest s') = made g @ map PromiseID (drop (length (pendingRPCs s)) (pendingRPCs s'))))"

lemma records_alloc: "records M E log made \<Longrightarrow> wasmAlloc M n g = (g', r) \<Longrightarrow> log g' = log g \<and> made g' = made g"
  using wasmAlloc_guest [of M n g] by (simp add: records_def)

lemma records_settle:
  assumes "records M E log made" and "pendingRPCs s = []"
    and "callExport M E (settlePromise M failed g pid p n) (s\<lparr>guest := g\<rparr>) = Some (s', r)"
  shows "log (guest s') = log g @ [ucast pid] \<and> made (guest s') = made g @ map PromiseID (pendingRPCs s')"
proof -
  from assms(1) have c: "callExport M E (fnResolveRpc M g pid p n) (s\<lparr>guest := g\<rparr>) = Some (s', r) \<or>
      callExport M E (fnRejectRpc M g pid p n) (s\<lparr>guest := g\<rparr>) = Some (s', r) \<Longrightarrow>
      log (guest s') = log g @ [pid] \<and>
      made (guest s') = made g @ map PromiseID (drop (length (pendingRPCs s)) (pendingRPCs s'))" for pid p n
    unfolding records_def by blast
  show ?thesis
    using c [of "ucast pid" "ucast p" "of_nat n"] assms(2,3) by (simp add: settlePromise_def split: option.splits)
qed

text \<open>What one settlement adds to the two records.\<close>

definition settled_one :: "('g \<Rightarrow> u64 list) \<Rightarrow> ('g \<Rightarrow> u32 list) \<Rightarrow> u32 \<Rightarrow> ('g, 'w) inst \<Rightarrow> ('g, 'w) inst \<Rightarrow>
    go_error option \<Rightarrow> bool" where
  "settled_one log made pid s s' failed =
     ((failed = None \<longrightarrow> log (guest s') = log (guest s) @ [ucast pid]) \<and>
      (log (guest s') = log (guest s) \<or> log (guest s') = log (guest s) @ [ucast pid]) \<and>
      made (guest s') = made (guest s) @ map PromiseID (pendingRPCs s'))"

lemma resolveRPC_records:
  assumes "records M E log made" and "pendingRPCs s = []" and "resolveRPC M E pid v s = Some (s', failed)"
  shows "settled_one log made pid s s' failed"
proof (cases "wasmAlloc M (length (or_null v)) (guest s)")
  case (Pair g r)
  note g = records_alloc [OF assms(1) Pair]
  show ?thesis
  proof (cases r)
    case (Inl e)
    with assms(2,3) Pair g show ?thesis by (auto simp: resolveRPC_def Let_def settled_one_def)
  next
    case (Inr ptr)
    let ?g = "memWrite M g ptr (or_null v)"
    from assms(3) Pair Inr obtain t r' where
      c: "callExport M E (settlePromise M None ?g pid ptr (length (or_null v))) (s\<lparr>guest := ?g\<rparr>) = Some (t, r')"
      and s': "s' = t\<lparr>guest := wasmDealloc M ptr (length (or_null v)) (guest t)\<rparr>"
      by (auto simp: resolveRPC_def settlePromise_def wasmWrite_def Let_def elim!: bind_SomeE)
    from records_settle [OF assms(1,2) c] show ?thesis
      using assms(1) g by (simp add: records_def settled_one_def s' wasmDealloc_def Let_def)
  qed
qed

lemma rejectRPC_records:
  assumes "records M E log made" and "pendingRPCs s = []" and "rejectRPC M E pid e s = Some (s', failed)"
  shows "settled_one log made pid s s' failed"
proof (cases "wasmAlloc M (length (reject_payload e)) (guest s)")
  case (Pair g r)
  note g = records_alloc [OF assms(1) Pair]
  show ?thesis
  proof (cases r)
    case (Inl e')
    with assms(2,3) Pair g show ?thesis by (auto simp: rejectRPC_def Let_def settled_one_def)
  next
    case (Inr ptr)
    let ?g = "memWrite M g ptr (reject_payload e)"
    from assms(3) Pair Inr obtain t r' where
      c: "callExport M E (settlePromise M (Some e) ?g pid ptr (length (reject_payload e))) (s\<lparr>guest := ?g\<rparr>) = Some (t, r')"
      and s': "s' = t\<lparr>guest := wasmDealloc M ptr (length (reject_payload e)) (guest t)\<rparr>"
      by (auto simp: rejectRPC_def settlePromise_def wasmWrite_def Let_def elim!: bind_SomeE)
    from records_settle [OF assms(1,2) c] show ?thesis
      using assms(1) g by (simp add: records_def settled_one_def s' wasmDealloc_def Let_def)
  qed
qed

lemma feedBack_records:
  assumes "records M E log made" and "pendingRPCs s = []" and "feedBack M E res s = Some (s', failed)"
  shows "settled_one log made (ResPromiseID res) s s' failed"
proof (cases "Err res")
  case None
  with assms(3) obtain f where "resolveRPC M E (ResPromiseID res) (Value res) s = Some (s', f)" "failed = None \<longleftrightarrow> f = None"
    by (auto simp: feedBack_def elim!: bind_SomeE)
  with resolveRPC_records [OF assms(1,2)] show ?thesis by (metis settled_one_def)
next
  case (Some e)
  with assms(3) obtain f where "rejectRPC M E (ResPromiseID res) e s = Some (s', f)" "failed = None \<longleftrightarrow> f = None"
    by (auto simp: feedBack_def elim!: bind_SomeE)
  with rejectRPC_records [OF assms(1,2)] show ?thesis by (metis settled_one_def)
qed

lemma loopBody_records:
  assumes "records M E log made" and "pendingRPCs s = []" and "loopBody M E res s = Some (s', v)"
  shows "(case v of
      GoOn batch \<Rightarrow> log (guest s') = log (guest s) @ [ucast (ResPromiseID res)] \<and>
        made (guest s') = made (guest s) @ map PromiseID batch \<and> pendingRPCs s' = []
    | Stop e \<Rightarrow> (log (guest s') = log (guest s) \<or> log (guest s') = log (guest s) @ [ucast (ResPromiseID res)]) \<and>
        (\<exists>new. made (guest s') = made (guest s) @ new))"
proof -
  from assms(3) obtain s1 failed where f: "feedBack M E res s = Some (s1, failed)"
    and v: "loopVerdict s1 failed = (s', v)"
    unfolding loopBody_def by (auto elim!: bind_SomeE)
  from feedBack_records [OF assms(1,2) f] v show ?thesis
    by (auto simp: settled_one_def loopVerdict_def launchPendingRPCs_def split: option.splits if_splits)
qed

text \<open>Along a run the records grow by what was received and launched.\<close>

definition grown_by :: "('g \<Rightarrow> u64 list) \<Rightarrow> ('g \<Rightarrow> u32 list) \<Rightarrow> (('g, 'w) inst, rpcCall, rpcResult, go_error) svc \<Rightarrow>
    (rpcCall, rpcResult) svc_label list \<Rightarrow> (('g, 'w) inst, rpcCall, rpcResult, go_error) svc \<Rightarrow>
    u32 list \<Rightarrow> u32 list \<Rightarrow> bool" where
  "grown_by log made x ls y settled new =
     (log (guest (core y)) = log (guest (core x)) @ map ucast settled \<and>
      made (guest (core y)) = made (guest (core x)) @ new \<and>
      mset settled \<subseteq># mset (map ResPromiseID (received ls)) \<and>
      mset (map PromiseID (launched ls)) \<subseteq># mset new \<and>
      (finished y = None \<longrightarrow> settled = map ResPromiseID (received ls) \<and>
        new = map PromiseID (launched ls) \<and> pendingRPCs (core y) = []))"

lemma grown_step:
  assumes "records M E log made" and "svc_step (loopBody M E) (handlerStep E) x l y"
    and "finished x = None \<longrightarrow> pendingRPCs (core x) = []"
  shows "\<exists>a m. grown_by log made x [l] y a m"
  using assms(2)
proof (cases rule: svc_step.cases)
  case (handle xs c ys s' r)
  then have "guest s' = guest (core x)" "pendingRPCs s' = pendingRPCs (core x)"
    by (auto simp: handlerStep_def split: prod.splits)
  with handle assms(3) show ?thesis by (intro exI [of _ "[]"]) (simp add: grown_by_def)
next
  case (receive_go r rs s' batch)
  with loopBody_records [OF assms(1) _ receive_go(6)] assms(3) show ?thesis
    by (intro exI [of _ "[ResPromiseID r]"] exI [of _ "map PromiseID batch"]) (simp add: grown_by_def)
next
  case (receive_stop r rs s' e)
  with loopBody_records [OF assms(1) _ receive_stop(6)] assms(3) obtain new where
    l: "log (guest s') = log (guest (core x)) \<or> log (guest s') = log (guest (core x)) @ [ucast (ResPromiseID r)]"
    and n: "made (guest s') = made (guest (core x)) @ new" by auto
  from l show ?thesis
  proof
    assume "log (guest s') = log (guest (core x))"
    with n receive_stop show ?thesis
      by (intro exI [of _ "[]"] exI [of _ new]) (simp add: grown_by_def)
  next
    assume "log (guest s') = log (guest (core x)) @ [ucast (ResPromiseID r)]"
    with n receive_stop show ?thesis
      by (intro exI [of _ "[ResPromiseID r]"] exI [of _ new]) (simp add: grown_by_def)
  qed
qed (use assms(3) in \<open>intro exI [of _ "[]"]; simp add: grown_by_def\<close>)+

lemma grown_trans:
  assumes "grown_by log made x [l] y a m" and "grown_by log made y ls z b n"
    and "finished z = None \<Longrightarrow> finished y = None"
  shows "grown_by log made x (l # ls) z (a @ b) (m @ n)"
proof -
  have L: "launched (l # ls) = launched [l] @ launched ls" and R: "received (l # ls) = received [l] @ received ls"
    by (cases l; simp)+
  have "mset (a @ b) \<subseteq># mset (map ResPromiseID (received (l # ls)))"
    and "mset (map PromiseID (launched (l # ls))) \<subseteq># mset (m @ n)"
    using assms(1,2) unfolding L R grown_by_def by (simp_all add: subset_mset.add_mono)
  then show ?thesis
    using assms unfolding grown_by_def by (simp add: L R)
qed

lemma grown_trace:
  assumes "records M E log made"
  shows "svc_trace (loopBody M E) (handlerStep E) x ls y \<Longrightarrow> finished x = None \<longrightarrow> pendingRPCs (core x) = [] \<Longrightarrow>
    \<exists>a m. grown_by log made x ls y a m"
proof (induction rule: svc_trace.induct)
  case (Nil x)
  then show ?case by (intro exI [of _ "[]"]) (simp add: grown_by_def)
next
  case (Cons x l y ls z)
  obtain a m where g: "grown_by log made x [l] y a m"
    using grown_step [OF assms Cons.hyps(1) Cons.prems] by blast
  then have "finished y = None \<longrightarrow> pendingRPCs (core y) = []" by (simp add: grown_by_def)
  with Cons.IH obtain b n where h: "grown_by log made y ls z b n" by blast
  have "finished z = None \<Longrightarrow> finished y = None"
    using svc_trace_finished [OF Cons.hyps(2)] by (cases "finished y") auto
  from grown_trans [OF g h this] show ?case by blast
qed

text \<open>
  C5. In every interleaving of the handler goroutines, and whenever the context is cancelled, the
  guest is asked to settle a promise only for a call of the first batch or a call it made while
  settling, and never twice for one call; in an interleaving without cancellation nothing is lost:
  when the loop's count is down to zero, the promises settled are exactly those of the first batch
  and of all calls made since. The guest is any module that records the two on its state.
\<close>

theorem service_interleavings:
  assumes "records M E log made" and "pendingRPCs s = []"
    and "svc_trace (loopBody M E) (handlerStep E) (svc_start s batch) ls y"
  shows "\<exists>settled new. log (guest (core y)) = log (guest s) @ map ucast settled \<and>
    made (guest (core y)) = made (guest s) @ new \<and>
    mset settled \<subseteq># mset (map PromiseID batch) + mset new \<and>
    (Cancel \<notin> set ls \<longrightarrow> finished y = None \<longrightarrow> inflight y = 0 \<longrightarrow>
      mset settled = mset (map PromiseID batch) + mset new)"
proof -
  obtain settled new where "grown_by log made (svc_start s batch) ls y settled new"
    using grown_trace [OF assms(1,3)] assms(2) by (auto simp: svc_start_def)
  then have
    g: "log (guest (core y)) = log (guest s) @ map ucast settled" "made (guest (core y)) = made (guest s) @ new"
      "mset settled \<subseteq># mset (map ResPromiseID (received ls))" "mset (map PromiseID (launched ls)) \<subseteq># mset new"
      "finished y = None \<longrightarrow> settled = map ResPromiseID (received ls) \<and> new = map PromiseID (launched ls)"
    by (simp_all add: grown_by_def svc_start_def)
  have "mset settled \<subseteq># mset (map PromiseID batch) + mset (map PromiseID (launched ls))"
    using g(3) go_service.settled_subset [OF assms(3)] by (auto intro: subset_mset.order_trans)
  also have "\<dots> \<subseteq># mset (map PromiseID batch) + mset new" using g(4) by simp
  finally have sub: "mset settled \<subseteq># mset (map PromiseID batch) + mset new" .
  have "mset settled = mset (map PromiseID batch) + mset new"
    if "Cancel \<notin> set ls" "finished y = None" "inflight y = 0"
    using go_service.all_settled [OF assms(3) that] g(5) that(2) by simp
  with g(1,2) sub show ?thesis by (intro exI [of _ settled] exI [of _ new]) blast
qed

text \<open>
  A recording guest: its state is the two records, and settling promise 7 makes the script call
  \<open>ping\<close> again, for promise 8.
\<close>

definition recorder_settle :: "u64 list \<times> u32 list \<Rightarrow> u64 \<Rightarrow> (u64 list \<times> u32 list) run" where
  "recorder_settle g pid =
     (if pid = 7
      then CallsHost (fst g @ [pid], snd g @ [8]) (CallRPC 0 0 0 0 8) (\<lambda>g' _. Returned g' [0])
      else Returned (fst g @ [pid], snd g) [0])"

definition recorder_wasm :: "(u64 list \<times> u32 list) wasm" where
  "recorder_wasm = \<lparr>fnAlloc = (\<lambda>g n. (g, Inr 16)), fnDealloc = (\<lambda>g p n. g),
     fnEval = (\<lambda>g p n a. Returned g [0]), fnEvalCompiled = (\<lambda>g p n a. Returned g [0]),
     fnDispatchEvent = (\<lambda>g np nl pp pl a. Returned g [0]),
     fnResolveRpc = (\<lambda>g pid p n. recorder_settle g pid),
     fnRejectRpc = (\<lambda>g pid p n. recorder_settle g pid),
     fnGetOpcodeCount = (\<lambda>g. (g, Inr 42)), fnGetCPUTimeUs = (\<lambda>g. (g, Inr 7)),
     fnResetExecutionStats = (\<lambda>g. (g, None)), fnSetMemoryLimit = (\<lambda>g n. (g, None)),
     closeModule = (\<lambda>g. (g, None)), memRead = (\<lambda>g p n. Some ''ping''), memWrite = (\<lambda>g p d. g)\<rparr>"

definition recorder_inst :: "u64 list \<times> u32 list \<Rightarrow> nat \<Rightarrow> (u64 list \<times> u32 list, nat) inst" where
  "recorder_inst g w = \<lparr>guest = g, world = w, router = sample_router, interruptCallback = None,
     promiseRejectionHandler = None, interrupted = False, pendingRPCs = [], scriptError = None,
     hasError = False, resultValue = None, hasResult = False\<rparr>"

lemmas recorder_simps = recorder_settle_def recorder_wasm_def recorder_inst_def

lemma recorder_records: "records recorder_wasm E fst snd"
  unfolding records_def
  by (intro conjI allI impI) (auto simp: recorder_simps hostRPC_def wasmReadString_def
      wasmReadCopy_def asyncSignals_def Interrupt_def split: if_splits prod.splits)

definition ping_call :: "u32 \<Rightarrow> string \<Rightarrow> rpcCall" where
  "ping_call pid v = \<lparr>PromiseID = pid, Method = ''ping'', Params = Some v\<rparr>"

definition ping_answer :: "u32 \<Rightarrow> string \<Rightarrow> rpcResult" where
  "ping_answer pid v = \<lparr>ResPromiseID = pid, Value = Some v, Err = None\<rparr>"

text \<open>A run in which one call is handled, sent and received.\<close>

lemma ping_round:
  assumes "loopBody recorder_wasm sample_env (ping_answer pid v) (recorder_inst g (Suc w)) =
      Some (recorder_inst g' (Suc w), GoOn batch)"
  shows "svc_trace (loopBody recorder_wasm sample_env) (handlerStep sample_env)
    (svc_start (recorder_inst g w) [ping_call pid v])
    [Handle (ping_call pid v), Send (ping_answer pid v), Receive (ping_answer pid v) batch]
    (svc_start (recorder_inst g' (Suc w)) batch)"
proof -
  let ?step = "svc_step (loopBody recorder_wasm sample_env) (handlerStep sample_env)"
  let ?x = "svc_start (recorder_inst g w) [ping_call pid v] :: ((u64 list \<times> u32 list, nat) inst, rpcCall, rpcResult, go_error) svc"
  let ?y = "?x\<lparr>core := recorder_inst g (Suc w), running := [] @ [], sending := sending ?x @ [ping_answer pid v]\<rparr>"
  let ?z = "?y\<lparr>sending := [] @ [], chan := chan ?y @ [ping_answer pid v]\<rparr>"
  let ?u = "?z\<lparr>core := recorder_inst g' (Suc w), chan := [], inflight := inflight ?z - 1 + length batch,
      running := running ?z @ batch\<rparr>"
  have 1: "?step ?x (Handle (ping_call pid v)) ?y"
    by (rule svc_step.handle)
      (simp_all add: svc_start_def ping_call_def ping_answer_def handlerStep_def runRPC_def sample_env_def
        recorder_inst_def sample_router_def call_handler_def callWithRecover_def NewRPCRouter_def WithAsync_def Let_def)
  have 2: "?step ?y (Send (ping_answer pid v)) ?z"
    by (rule svc_step.send) (simp_all add: svc_start_def chanCapacity_def)
  have 3: "?step ?z (Receive (ping_answer pid v) batch) ?u"
    by (rule svc_step.receive_go) (simp_all add: svc_start_def assms)
  have "svc_trace (loopBody recorder_wasm sample_env) (handlerStep sample_env) ?x
      [Handle (ping_call pid v), Send (ping_answer pid v), Receive (ping_answer pid v) batch] ?u"
    by (intro svc_trace.Cons [OF 1] svc_trace.Cons [OF 2] svc_trace.Cons [OF 3] svc_trace.Nil)
  moreover have "?u = svc_start (recorder_inst g' (Suc w)) batch" by (simp add: svc_start_def)
  ultimately show ?thesis by simp
qed

lemmas recorder_body = loopBody_def feedBack_def loopVerdict_def resolveRPC_def ping_answer_def
  wrapCallError_def or_null_def wasmAlloc_def wasmDealloc_def wasmWrite_def wasmReadCopy_def
  wasmReadString_def hostRPC_def launchPendingRPCs_def asyncSignals_def sample_env_def
  recorder_simps Let_def

lemma recorder_first: "loopBody recorder_wasm sample_env (ping_answer 7 v) (recorder_inst ([], []) w) =
    Some (recorder_inst ([7], [8]) w, GoOn [ping_call 8 ''ping''])"
  by (simp add: recorder_body ping_call_def)

lemma recorder_second: "loopBody recorder_wasm sample_env (ping_answer 8 v) (recorder_inst ([7], [8]) w) =
    Some (recorder_inst ([7, 8], [8]) w, GoOn [])"
  by (simp add: recorder_body)

theorem service_interleavings_witness:
  "\<exists>settled new. [7 :: u64, 8] = map ucast settled \<and> [8] = new \<and>
     mset settled = mset (map PromiseID [ping_call 7 ''x'']) + mset new"
proof -
  let ?run = "[Handle (ping_call 7 ''x''), Send (ping_answer 7 ''x''), Receive (ping_answer 7 ''x'') [ping_call 8 ''ping'']]
    @ [Handle (ping_call 8 ''ping''), Send (ping_answer 8 ''ping''), Receive (ping_answer 8 ''ping'') []]"
  let ?s = "recorder_inst ([], []) 0" 
    and ?y = "svc_start (recorder_inst ([7, 8], [8]) 2) [] :: ((u64 list \<times> u32 list, nat) inst, rpcCall, rpcResult, go_error) svc"
  have t: "svc_trace (loopBody recorder_wasm sample_env) (handlerStep sample_env)
      (svc_start ?s [ping_call 7 ''x'']) ?run ?y"
    using svc_trace_append [OF ping_round [OF recorder_first] ping_round [OF recorder_second]]
    by (simp add: numeral_2_eq_2)
  have p: "pendingRPCs ?s = []" by (simp add: recorder_inst_def)
  obtain settled new where "fst (guest (core ?y)) = fst (guest ?s) @ map ucast settled"
    "snd (guest (core ?y)) = snd (guest ?s) @ new"
    "Cancel \<notin> set ?run \<longrightarrow> finished ?y = None \<longrightarrow> inflight ?y = 0 \<longrightarrow>
      mset settled = mset (map PromiseID [ping_call 7 ''x'']) + mset new"
    using service_interleavings [OF recorder_records p t] by (elim exE conjE) (rule that)
  then have "[7 :: u64, 8] = map ucast settled" "[8] = new"
    "mset settled = mset (map PromiseID [ping_call 7 ''x'']) + mset new"
    by (simp_all add: svc_start_def recorder_inst_def)
  then show ?thesis by (intro exI [of _ settled] exI [of _ new] conjI)
qed

subsection \<open>Progress and termination\<close>

text \<open>
  C7. No deadlock without cancellation: at any point of any interleaving in which the loop still
  waits, the context is not cancelled and the guest's exports return, some goroutine or the loop
  can take a step.
\<close>

theorem service_progress:
  assumes "svc_trace (loopBody M E) (handlerStep E) (svc_start s batch) ls y"
    and "finished y = None" and "\<not> cancelled y" and "rpc_live M E"
  shows "\<exists>l z. l \<noteq> Cancel \<and> svc_step (loopBody M E) (handlerStep E) y l z"
  by (rule go_service.progress [OF svc_inv_trace [OF assms(1) svc_inv_start] assms(2,3)])
    (rule loopBody_returns [OF assms(4)])

lemma sample_live: "rpc_live sample_wasm sample_env"
  by (simp add: rpc_live_def sample_simps split_beta)

theorem service_progress_witness:
  "\<exists>l z. l \<noteq> Cancel \<and> svc_step (loopBody sample_wasm sample_env) (handlerStep sample_env)
     (svc_start sample_inst [sample_call] :: ((sample, nat) inst, rpcCall, rpcResult, go_error) svc) l z"
  by (rule service_progress [OF svc_trace.Nil]) (simp_all add: svc_start_def sample_live)

text \<open>
  Every interleaving is finite: a guest whose settled promises have a budget for new calls
  bounds the number of steps of every run, with cancellation at any point.
\<close>

lemma service_bounded:
  assumes "rpc_budget M E pot" and "svc_trace (loopBody M E) (handlerStep E) (svc_start s batch) ls y"
  shows "length ls \<le> 3 * (owed pot s + length batch) + 2"
proof -
  have "length ls + go_service.svc_measure (owed pot) y \<le> go_service.svc_measure (owed pot) (svc_start s batch)"
  proof (rule go_service.trace_bounded [OF _ _ _ assms(2)])
    show "owed pot s' + length batch \<le> owed pot s" if "loopBody M E r s = Some (s', GoOn batch)" for r s s' batch
      using loopBody_owed [OF assms(1) that] by simp
    show "owed pot s' \<le> owed pot s" if "loopBody M E r s = Some (s', Stop e)" for r s s' e
      using loopBody_owed [OF assms(1) that] by simp
    show "owed pot (fst (handlerStep E c s)) \<le> owed pot s" for c s
      by (simp add: handlerStep_def split_beta owed_def)
  qed
  then show ?thesis by (simp add: go_service.svc_measure_def svc_start_def)
qed

lemma sample_budget: "rpc_budget sample_wasm sample_env (\<lambda>_. 0)"
  by (auto simp: rpc_budget_def sample_simps asyncSignals_def hostSetResult_def
      split: sum.splits if_splits prod.splits)

text \<open>
  The service loop returns, with an error or without, on every instance and for every router,
  when the exports return, some goroutine always delivers and the guest has a budget of calls.
\<close>

lemma service_returns:
  assumes "rpc_budget M E pot" and "rpc_live M E"
  shows "\<exists>s' err. serviceRPCLoop M E s = Some (s', err)"
  using rpcLoop_returns [OF assms refl, of "pendingRPCs s" "s\<lparr>pendingRPCs := []\<rparr>"]
  by (auto simp: serviceRPCLoop_def launchPendingRPCs_def)

text \<open>
  C13. A cancelled context can hang the loop: whatever the guest and the handlers do, once a call
  is in flight there is a run in which every goroutine takes the \<open>ctx.Done()\<close> branch of its
  \<open>select\<close> and the loop is left in its receive, with no step possible any more.
\<close>

theorem service_cancel_hangs:
  "\<exists>ls y. svc_trace (loopBody M E) (handlerStep E) (svc_start s (c # batch)) ls y \<and>
     finished y = None \<and> (\<forall>l z. \<not> svc_step (loopBody M E) (handlerStep E) y l z)"
  by (rule cancel_can_hang) simp

subsection \<open>The payload of a rejection\<close>

lemma lex_reject_payload:
  "lex LNone (reject_payload e) = Some
     [TPunct CHR ''{'', TStr ''message'', TPunct CHR '':'', TStr (json_esc (error_text e)), TPunct CHR ''}'']"
  using lex_quoted [OF str_body_json_esc, of "error_text e" "[CHR ''}'']"]
  by (simp add: reject_payload_def json_quote_def lex_char_simps bslash_def)

text \<open>
  The payload of a rejected call is valid JSON, an object with the one member \<open>message\<close>, whose
  value is the text of the handler's error with ill-formed bytes replaced: a handler cannot inject
  JSON through its error text.
\<close>

lemma reject_payload_decodes:
  "parse_json (reject_payload e) = Some (JObj [(''message'', json_quote (error_text e),
     JStr (to_valid_utf8 (error_text e)))], reject_payload e)"
  by (simp add: parse_simps lex_reject_payload unquote_literals unquote_json_esc)
    (simp add: reject_payload_def json_quote_def dquote_def)

end
