(* ===== verification/Options.thy ===== *)
theory Options
  imports Router
begin

text \<open>
  \<open>kafig-go/options.go\<close>: the option records of a runtime, an instance and a call, and the functional
  options that set their fields. An option is a function on the record; options are applied in the
  order they are given. A logger is a handle, as nothing the program computes depends on what it
  does. \<open>'c\<close> is the type of compilation caches.
\<close>

subsection \<open>Runtime options\<close>

type_synonym logger = nat

definition defaultLogger :: logger where
  \<comment> \<open>The handle of \<open>slog.Default()\<close>.\<close>
  "defaultLogger = 0"

record 'c runtimeOptions =
  optModule :: raw
  prelude :: string
  rtPreludeBytecode :: raw
  rtLogger :: logger
  closeOnContextDone :: bool
  compilationCache :: "'c option"
  wasmMemoryLimitPages :: u32

type_synonym 'c RuntimeOption = "'c runtimeOptions \<Rightarrow> 'c runtimeOptions"

definition WithModule :: "raw \<Rightarrow> 'c RuntimeOption" where
  "WithModule data = (\<lambda>o'. o'\<lparr>optModule := data\<rparr>)"

definition WithPrelude :: "string \<Rightarrow> 'c RuntimeOption" where
  "WithPrelude source = (\<lambda>o'. o'\<lparr>prelude := source\<rparr>)"

definition WithLogger :: "logger \<Rightarrow> 'c RuntimeOption" where
  "WithLogger lg = (\<lambda>o'. o'\<lparr>rtLogger := lg\<rparr>)"

definition WithCloseOnContextDone :: "bool \<Rightarrow> 'c RuntimeOption" where
  "WithCloseOnContextDone b = (\<lambda>o'. o'\<lparr>closeOnContextDone := b\<rparr>)"

definition WithCompilationCache :: "'c option \<Rightarrow> 'c RuntimeOption" where
  "WithCompilationCache cache = (\<lambda>o'. o'\<lparr>compilationCache := cache\<rparr>)"

definition WithWASMMemoryLimitPages :: "u32 \<Rightarrow> 'c RuntimeOption" where
  "WithWASMMemoryLimitPages pages = (\<lambda>o'. o'\<lparr>wasmMemoryLimitPages := pages\<rparr>)"

text \<open>The record \<open>New\<close> starts from.\<close>

definition runtimeDefaults :: "'c runtimeOptions" where
  "runtimeDefaults = \<lparr>optModule = None, prelude = '''', rtPreludeBytecode = None, rtLogger = defaultLogger,
     closeOnContextDone = False, compilationCache = None, wasmMemoryLimitPages = 0\<rparr>"

subsection \<open>Instance options\<close>

record 'w instanceOptions =
  optRouter :: "'w RPCRouter option"
  optLogger :: logger
  preludeBytecode :: raw
  optInterruptCallback :: "('w \<Rightarrow> u64 \<Rightarrow> u64 \<Rightarrow> 'w \<times> bool) option"
  optPromiseRejectionHandler :: "('w \<Rightarrow> JsError \<Rightarrow> 'w \<times> bool) option"
  jsMemoryLimit :: u32

type_synonym 'w InstanceOption = "'w instanceOptions \<Rightarrow> 'w instanceOptions"

definition WithRouter :: "'w RPCRouter option \<Rightarrow> 'w InstanceOption" where
  "WithRouter rt = (\<lambda>o'. o'\<lparr>optRouter := rt\<rparr>)"

definition WithInterruptCallback :: "('w \<Rightarrow> u64 \<Rightarrow> u64 \<Rightarrow> 'w \<times> bool) option \<Rightarrow> 'w InstanceOption" where
  "WithInterruptCallback fn = (\<lambda>o'. o'\<lparr>optInterruptCallback := fn\<rparr>)"

definition WithPromiseRejectionHandler :: "('w \<Rightarrow> JsError \<Rightarrow> 'w \<times> bool) option \<Rightarrow> 'w InstanceOption" where
  "WithPromiseRejectionHandler fn = (\<lambda>o'. o'\<lparr>optPromiseRejectionHandler := fn\<rparr>)"

definition WithJSMemoryLimit :: "u32 \<Rightarrow> 'w InstanceOption" where
  "WithJSMemoryLimit bytes = (\<lambda>o'. o'\<lparr>jsMemoryLimit := bytes\<rparr>)"

text \<open>The record \<open>Runtime.Instance\<close> starts from.\<close>

definition instanceDefaults :: "'c runtimeOptions \<Rightarrow> 'w instanceOptions" where
  "instanceDefaults ropts = \<lparr>optRouter = None, optLogger = rtLogger ropts, preludeBytecode = rtPreludeBytecode ropts,
     optInterruptCallback = None, optPromiseRejectionHandler = None, jsMemoryLimit = 0\<rparr>"

lemmas instance_option_defs = WithRouter_def WithInterruptCallback_def
  WithPromiseRejectionHandler_def WithJSMemoryLimit_def

subsection \<open>Call options\<close>

record evalOptions =
  async_opt :: bool

type_synonym EvalOption = "evalOptions \<Rightarrow> evalOptions"

definition WithAsyncOption :: EvalOption where
  "WithAsyncOption o' = o'\<lparr>async_opt := True\<rparr>"

subsection \<open>Applying options\<close>

text \<open>\<open>for _, o := range options { o(&opts) }\<close>\<close>

definition applyOptions :: "('o \<Rightarrow> 'o) list \<Rightarrow> 'o \<Rightarrow> 'o" where
  "applyOptions options opts = fold (\<lambda>opt o'. opt o') options opts"

definition evalOpts :: "EvalOption list \<Rightarrow> evalOptions" where
  "evalOpts options = applyOptions options \<lparr>async_opt = False\<rparr>"

lemma applyOptions_simps [simp]:
  "applyOptions [] opts = opts"
  "applyOptions (opt # options) opts = applyOptions options (opt opts)"
  "applyOptions (xs @ ys) opts = applyOptions ys (applyOptions xs opts)"
  by (simp_all add: applyOptions_def)

text \<open>The only option of a call is \<open>WithAsync\<close>: a call is asynchronous when it is given at all.\<close>

lemma async_iff: "set options \<subseteq> {WithAsyncOption} \<Longrightarrow> async_opt (evalOpts options) = (options \<noteq> [])"
proof -
  assume s: "set options \<subseteq> {WithAsyncOption}"
  have "async_opt (applyOptions options opts) = (async_opt opts \<or> options \<noteq> [])" for opts
    using s by (induction options arbitrary: opts) (auto simp: WithAsyncOption_def)
  then show ?thesis by (simp add: evalOpts_def)
qed

end
