(* ===== verification/Execution.thy ===== *)
theory Execution
  imports Service_Loop Options
begin

text \<open>
  The API of an instance in \<open>kafig-go/instance.go\<close>: \<open>newInstance\<close> with the prelude, \<open>Eval\<close>,
  \<open>EvalCompiled\<close>, \<open>DispatchEvent\<close>, \<open>Interrupt\<close> (theory \<open>Instance\<close>), the execution statistics and
  \<open>Close\<close>. An operation gives the instance afterwards and the pair of results of the Go
  function, a nil error being \<^const>\<open>None\<close>; \<^const>\<open>None\<close> in the place of the whole is a call that
  never returns.
\<close>

subsection \<open>Arguments and results\<close>

definition isAsyncArg :: "evalOptions \<Rightarrow> u64" where
  "isAsyncArg opts = (if async_opt opts then 1 else 0)"

text \<open>The bytes of a slice: none for nil.\<close>

definition raw_bytes :: "raw \<Rightarrow> string" where
  "raw_bytes r = (case r of None \<Rightarrow> [] | Some b \<Rightarrow> b)"

type_synonym ('g, 'w) call_result = "(('g, 'w) inst \<times> raw \<times> go_error option) option"

subsection \<open>The common start and end of the three calls\<close>

text \<open>\<open>inst.interrupted.Store(false); inst.resetState()\<close>\<close>

definition beginCall :: "('g, 'w) inst \<Rightarrow> ('g, 'w) inst" where
  "beginCall s = resetState (s\<lparr>interrupted := False\<rparr>)"

text \<open>What is returned once no call is pending any more: the error, else the result, else nothing.\<close>

definition callOutcome :: "('g, 'w) inst \<Rightarrow> raw \<times> go_error option" where
  "callOutcome s = (if hasError s then (None, scriptError s)
     else if hasResult s then (resultValue s, None) else (None, None))"

definition endCall :: "'g wasm \<Rightarrow> 'w host_env \<Rightarrow> evalOptions \<Rightarrow> ('g, 'w) inst \<Rightarrow> ('g, 'w) call_result" where
  "endCall M E opts s =
     (if async_opt opts then do {
        (s1, err) \<leftarrow> serviceRPCLoop M E s;
        (case err of
           Some e \<Rightarrow> Some (s1, None, Some e)
         | None \<Rightarrow> Some (s1, callOutcome s1))
      }
      else Some (s, callOutcome s))"

text \<open>What follows the export, its buffers given back: its own failure ends the call.\<close>

definition afterExport :: "'g wasm \<Rightarrow> 'w host_env \<Rightarrow> evalOptions \<Rightarrow> string \<Rightarrow> ('g, 'w) inst \<Rightarrow>
    go_error + u64 list \<Rightarrow> ('g, 'w) call_result" where
  "afterExport M E opts context s r =
     (case r of
        Inl e \<Rightarrow> Some (s, None, Some (ErrWrap context e))
      | Inr _ \<Rightarrow> endCall M E opts s)"

subsection \<open>The calls\<close>

definition Eval :: "'g wasm \<Rightarrow> 'w host_env \<Rightarrow> string \<Rightarrow> EvalOption list \<Rightarrow> ('g, 'w) inst \<Rightarrow>
    ('g, 'w) call_result" where
  "Eval M E source options s0 =
     (let opts = evalOpts options; s = beginCall s0 in
      case wasmAlloc M (length source) (guest s) of
        (g, Inl e) \<Rightarrow> Some (s\<lparr>guest := g\<rparr>, None, Some (ErrWrap ''kafig: alloc for eval source: '' e))
      | (g, Inr ptr) \<Rightarrow> do {
          let g1 = wasmWrite M ptr source g;
          (s1, r) \<leftarrow> callExport M E
            (fnEval M g1 (ucast ptr) (of_nat (length source)) (isAsyncArg opts)) (s\<lparr>guest := g1\<rparr>);
          let s2 = s1\<lparr>guest := wasmDealloc M ptr (length source) (guest s1)\<rparr>;
          afterExport M E opts ''kafig: eval: '' s2 r
        })"

definition EvalCompiled :: "'g wasm \<Rightarrow> 'w host_env \<Rightarrow> string \<Rightarrow> EvalOption list \<Rightarrow> ('g, 'w) inst \<Rightarrow>
    ('g, 'w) call_result" where
  "EvalCompiled M E bytecode options s0 =
     (let opts = evalOpts options; s = beginCall s0 in
      case wasmAlloc M (length bytecode) (guest s) of
        (g, Inl e) \<Rightarrow> Some (s\<lparr>guest := g\<rparr>, None, Some (ErrWrap ''kafig: alloc for eval_compiled: '' e))
      | (g, Inr ptr) \<Rightarrow> do {
          let g1 = wasmWrite M ptr bytecode g;
          (s1, r) \<leftarrow> callExport M E
            (fnEvalCompiled M g1 (ucast ptr) (of_nat (length bytecode)) (isAsyncArg opts)) (s\<lparr>guest := g1\<rparr>);
          let s2 = s1\<lparr>guest := wasmDealloc M ptr (length bytecode) (guest s1)\<rparr>;
          afterExport M E opts ''kafig: eval_compiled: '' s2 r
        })"

definition DispatchEvent :: "'g wasm \<Rightarrow> 'w host_env \<Rightarrow> string \<Rightarrow> raw \<Rightarrow> EvalOption list \<Rightarrow>
    ('g, 'w) inst \<Rightarrow> ('g, 'w) call_result" where
  "DispatchEvent M E name paramsJSON options s0 =
     (let opts = evalOpts options; s = beginCall s0; paramsBytes = raw_bytes paramsJSON in
      case wasmAlloc M (length name) (guest s) of
        (g, Inl e) \<Rightarrow> Some (s\<lparr>guest := g\<rparr>, None, Some (ErrWrap ''kafig: alloc for event name: '' e))
      | (g, Inr namePtr) \<Rightarrow>
     (let g1 = wasmWrite M namePtr name g in
      case wasmAlloc M (length paramsBytes) g1 of
        (g2, Inl e) \<Rightarrow> Some (s\<lparr>guest := wasmDealloc M namePtr (length name) g2\<rparr>, None,
          Some (ErrWrap ''kafig: alloc for event params: '' e))
      | (g2, Inr paramsPtr) \<Rightarrow> do {
          let g3 = wasmWrite M paramsPtr paramsBytes g2;
          (s1, r) \<leftarrow> callExport M E
            (fnDispatchEvent M g3 (ucast namePtr) (of_nat (length name))
               (ucast paramsPtr) (of_nat (length paramsBytes)) (isAsyncArg opts)) (s\<lparr>guest := g3\<rparr>);
          let s2 = s1\<lparr>guest := wasmDealloc M paramsPtr (length paramsBytes)
                                (wasmDealloc M namePtr (length name) (guest s1))\<rparr>;
          afterExport M E opts ''kafig: dispatch_event: '' s2 r
        }))"

subsection \<open>Creating an instance\<close>

text \<open>
  The prelude's bytecode is evaluated synchronously. On success the state of the call (a result, a
  queue of calls) is left behind; an error is cleared and returned as a text.
\<close>

definition evalPrelude :: "'g wasm \<Rightarrow> 'w host_env \<Rightarrow> string \<Rightarrow> ('g, 'w) inst \<Rightarrow>
    (('g, 'w) inst \<times> go_error option) option" where
  "evalPrelude M E bytecode s =
     (case wasmAlloc M (length bytecode) (guest s) of
        (g, Inl e) \<Rightarrow> Some (s\<lparr>guest := g\<rparr>, Some (ErrWrap ''kafig: alloc for prelude: '' e))
      | (g, Inr ptr) \<Rightarrow> do {
          let g1 = wasmWrite M ptr bytecode g;
          (s1, r) \<leftarrow> callExport M E
            (fnEvalCompiled M g1 (ucast ptr) (of_nat (length bytecode)) 0) (s\<lparr>guest := g1\<rparr>);
          let s2 = s1\<lparr>guest := wasmDealloc M ptr (length bytecode) (guest s1)\<rparr>;
          (case r of
             Inl e \<Rightarrow> Some (s2, Some (ErrWrap ''kafig: eval_compiled (prelude): '' e))
           | Inr _ \<Rightarrow>
               if hasError s2
               then Some (resetState s2, Some (ErrMsg (''kafig: prelude error: ''
                      @ (case scriptError s2 of Some e \<Rightarrow> error_text e | None \<Rightarrow> ''''))))
               else Some (s2, None))
        })"

text \<open>
  The module to instantiate is a parameter: what \<open>InstantiateModule\<close> answers (an error, or the new
  guest) and the names the module exports; \<open>fnCompile\<close> is the one export an instance does not use.
\<close>

record 'g compiled_module =
  instantiateModule :: "go_error + 'g"
  exportedFunction :: "string \<Rightarrow> bool"
  wasmOps :: "'g wasm"
  fnCompile :: "'g \<Rightarrow> u64 \<Rightarrow> u64 \<Rightarrow> u64 \<Rightarrow> 'g run"

definition required_exports :: "string list" where
  "required_exports = [''alloc'', ''dealloc'', ''eval'', ''eval_compiled'', ''dispatch_event'',
     ''resolve_rpc'', ''reject_rpc'', ''get_opcode_count'', ''get_cpu_time_us'',
     ''reset_execution_stats'', ''set_memory_limit'']"

definition freshInstance :: "'w instanceOptions \<Rightarrow> 'w RPCRouter \<Rightarrow> 'g \<Rightarrow> 'w \<Rightarrow> ('g, 'w) inst" where
  "freshInstance opts rt g w = \<lparr>guest = g, world = w, router = rt,
     interruptCallback = optInterruptCallback opts,
     promiseRejectionHandler = optPromiseRejectionHandler opts, interrupted = False,
     pendingRPCs = [], scriptError = None, hasError = False, resultValue = None, hasResult = False\<rparr>"

text \<open>
  The third component is the guest state of a module that was closed on the way out; the router is
  the one \<open>Instance\<close> has checked not to be nil.
\<close>

definition newInstance :: "'g compiled_module \<Rightarrow> 'w host_env \<Rightarrow> 'w instanceOptions \<Rightarrow> 'w RPCRouter \<Rightarrow>
    'w \<Rightarrow> ('w \<times> 'g option \<times> (go_error + ('g, 'w) inst)) option" where
  "newInstance C E opts rt w =
     (case instantiateModule C of
        Inl e \<Rightarrow> Some (w, None, Inl (ErrWrap ''kafig: instantiate module: '' e))
      | Inr g \<Rightarrow>
     (let M = wasmOps C; inst = freshInstance opts rt g w in
      case List.find (\<lambda>name. \<not> exportedFunction C name) required_exports of
        Some name \<Rightarrow> Some (w, Some (fst (closeModule M g)), Inl (ErrMsg
          (''kafig: WASM module missing required export '' @ go_quote (isPrint E) name)))
      | None \<Rightarrow>
     (let limited = (if jsMemoryLimit opts > 0 then fnSetMemoryLimit M g (ucast (jsMemoryLimit opts))
                     else (g, None)) in
      case limited of
        (g1, Some e) \<Rightarrow> Some (w, Some (fst (closeModule M g1)), Inl (ErrWrap ''kafig: set_memory_limit: '' e))
      | (g1, None) \<Rightarrow>
          if raw_bytes (preludeBytecode opts) \<noteq> [] then do {
            (s, err) \<leftarrow> evalPrelude M E (raw_bytes (preludeBytecode opts)) (inst\<lparr>guest := g1\<rparr>);
            (case err of
               Some e \<Rightarrow> Some (world s, Some (fst (closeModule M (guest s))), Inl e)
             | None \<Rightarrow> Some (world s, None, Inr s))
          }
          else Some (w, None, Inr (inst\<lparr>guest := g1\<rparr>)))))"

subsection \<open>Statistics and closing\<close>

record ExecutionStats =
  Opcodes :: u64
  CPUTimeUs :: u64

definition zeroStats :: ExecutionStats where
  "zeroStats = \<lparr>Opcodes = 0, CPUTimeUs = 0\<rparr>"

definition GetExecutionStats :: "'g wasm \<Rightarrow> ('g, 'w) inst \<Rightarrow>
    ('g, 'w) inst \<times> ExecutionStats \<times> go_error option" where
  "GetExecutionStats M s =
     (case fnGetOpcodeCount M (guest s) of
        (g1, Inl e) \<Rightarrow> (s\<lparr>guest := g1\<rparr>, zeroStats, Some (ErrWrap ''kafig: get_opcode_count: '' e))
      | (g1, Inr instr) \<Rightarrow>
          (case fnGetCPUTimeUs M g1 of
             (g2, Inl e) \<Rightarrow> (s\<lparr>guest := g2\<rparr>, zeroStats, Some (ErrWrap ''kafig: get_cpu_time_us: '' e))
           | (g2, Inr time) \<Rightarrow> (s\<lparr>guest := g2\<rparr>, \<lparr>Opcodes = instr, CPUTimeUs = time\<rparr>, None)))"

definition ResetExecutionStats :: "'g wasm \<Rightarrow> ('g, 'w) inst \<Rightarrow> ('g, 'w) inst \<times> go_error option" where
  "ResetExecutionStats M s = (case fnResetExecutionStats M (guest s) of (g, e) \<Rightarrow> (s\<lparr>guest := g\<rparr>, e))"

definition closeInstance :: "'g wasm \<Rightarrow> ('g, 'w) inst \<Rightarrow> ('g, 'w) inst \<times> go_error option" where
  "closeInstance M s = (case closeModule M (guest s) of (g, e) \<Rightarrow> (s\<lparr>guest := g\<rparr>, e))"

end
