(* ===== verification/Execution_Spec.thy ===== *)
theory Execution_Spec
  imports Execution Service_Spec
begin

text \<open>
  What a call of the API guarantees: it starts from a clean slate, keeps the instance well formed
  and its configuration as it was, returns either a value or an error, and returns at all; what it
  returns is decided by what the script reported; what \<open>newInstance\<close> gives back.
\<close>

subsection \<open>The three calls as one operation\<close>

datatype api_call = CallEval string | CallEvalCompiled string | CallDispatchEvent string raw

fun perform :: "'g wasm \<Rightarrow> 'w host_env \<Rightarrow> api_call \<Rightarrow> EvalOption list \<Rightarrow> ('g, 'w) inst \<Rightarrow>
    ('g, 'w) call_result" where
  "perform M E (CallEval source) options s = Eval M E source options s"
| "perform M E (CallEvalCompiled bytecode) options s = EvalCompiled M E bytecode options s"
| "perform M E (CallDispatchEvent name params) options s = DispatchEvent M E name params options s"

text \<open>
  Each call prepares the guest, fails on the way or runs one export, and then ends the call. The
  relation \<open>ran\<close> says which of these happened; the lemmas below need no more about the calls.
\<close>

inductive ran :: "'g wasm \<Rightarrow> 'w host_env \<Rightarrow> evalOptions \<Rightarrow> ('g, 'w) inst \<Rightarrow>
    ('g, 'w) inst \<times> raw \<times> go_error option \<Rightarrow> bool" for M :: "'g wasm" and E :: "'w host_env" where
  failed: "evolves M E (beginCall s) s' \<Longrightarrow> ran M E opts s (s', None, Some e)"
| ended: "evolves M E (beginCall s) s' \<Longrightarrow> endCall M E opts s' = Some res \<Longrightarrow> ran M E opts s res"

lemma ran_export:
  "callExport M E x ((beginCall s)\<lparr>guest := g\<rparr>) = Some (t, r) \<Longrightarrow>
    afterExport M E opts context (t\<lparr>guest := g'\<rparr>) r = Some res \<Longrightarrow> ran M E opts s res"
  by (cases r) (auto simp: afterExport_def intro: ran.intros evolves_call)

lemma Eval_ran: "Eval M E source options s = Some res \<Longrightarrow> ran M E (evalOpts options) s res"
  by (auto simp: Eval_def Let_def intro: ran.failed evolves_guest ran_export elim!: bind_SomeE
      split: prod.splits sum.splits)

lemma EvalCompiled_ran: "EvalCompiled M E bytecode options s = Some res \<Longrightarrow> ran M E (evalOpts options) s res"
  by (auto simp: EvalCompiled_def Let_def intro: ran.failed evolves_guest ran_export elim!: bind_SomeE
      split: prod.splits sum.splits)

lemma DispatchEvent_ran:
  "DispatchEvent M E name params options s = Some res \<Longrightarrow> ran M E (evalOpts options) s res"
  by (auto simp: DispatchEvent_def Let_def intro: ran.failed evolves_guest ran_export elim!: bind_SomeE
      split: prod.splits sum.splits)

lemma perform_ran: "perform M E c options s = Some res \<Longrightarrow> ran M E (evalOpts options) s res"
  by (cases c) (simp_all add: Eval_ran EvalCompiled_ran DispatchEvent_ran)

context loop_invariant
begin

lemma endCall_keeps: "endCall M E opts s = Some (s', v, e) \<Longrightarrow> P s \<Longrightarrow> P s'"
  by (auto simp: endCall_def elim!: bind_SomeE dest: loop.serviceRPCLoop_keeps split: if_splits option.splits)

lemma ran_keeps: "ran M E opts s (s', v, e) \<Longrightarrow> P (beginCall s) \<Longrightarrow> P s'"
  by (erule ran.cases) (auto intro: evolves_keeps endCall_keeps)

end

subsection \<open>A clean slate\<close>

text \<open>
  C28. A call does not depend on what an earlier call, the prelude or an \<open>Interrupt\<close> between two
  calls left in the instance: the queue, the error, the result and the interrupt flag are all
  reset before the guest is entered.
\<close>

theorem call_independent_of_leftovers:
  "perform M E c options (s\<lparr>interrupted := i, pendingRPCs := q, scriptError := e, hasError := he,
     resultValue := v, hasResult := hr\<rparr>) = perform M E c options s"
  by (cases c) (simp_all add: Eval_def EvalCompiled_def DispatchEvent_def beginCall_def resetState_def)

subsection \<open>Values and errors\<close>

lemma callOutcome_shape: "inst_wf s \<Longrightarrow> callOutcome s = (v, e) \<Longrightarrow>
    (e \<noteq> None \<longrightarrow> v = None) \<and> (e = None \<longrightarrow> \<not> hasError s \<and> v = (if hasResult s then resultValue s else None))"
  by (auto simp: callOutcome_def inst_wf_def split: if_splits)

lemma endCall_shape:
  assumes "endCall M E opts s = Some (s', v, e)" and "inst_wf s"
  shows "(e \<noteq> None \<longrightarrow> v = None) \<and> (e = None \<longrightarrow> \<not> hasError s' \<and> v = (if hasResult s' then resultValue s' else None))"
proof -
  have wf: "inst_wf s'" by (rule wf_loop.endCall_keeps [OF assms])
  from assms(1) consider "e \<noteq> None" "v = None" | "callOutcome s' = (v, e)"
    by (auto simp: endCall_def elim!: bind_SomeE split: if_splits option.splits)
  then show ?thesis
    by cases (use callOutcome_shape [OF wf] in auto)
qed

lemma beginCall_wf [wf_intro]: "inst_wf (beginCall s)"
  by (simp add: beginCall_def inst_wf_reset)

lemma beginCall_config [frame]: "inst_config (beginCall s) = inst_config s"
  by (simp add: beginCall_def resetState_def inst_config_def)

lemma perform_shape:
  assumes "perform M E c options s = Some (s', v, e)"
  shows "(e \<noteq> None \<longrightarrow> v = None) \<and> (e = None \<longrightarrow> \<not> hasError s' \<and> v = (if hasResult s' then resultValue s' else None))"
  using perform_ran [OF assms]
proof (cases rule: ran.cases)
  case (ended s1)
  have "inst_wf s1" using ended(1) by (rule wf_run.evolves_keeps) (rule wf_intro)
  with endCall_shape [OF ended(2)] show ?thesis by blast
qed simp

text \<open>
  C4. Every call that returns leaves the instance well formed and its router and callbacks as they
  were. With an error it returns no value. Without one the script reported no error, and the value
  is exactly the one the instance holds as reported by the script, nil if it reported none.
\<close>

theorem call_contract:
  assumes "perform M E c options s = Some (s', v, e)"
  shows "inst_wf s' \<and> inst_config s' = inst_config s \<and> (e \<noteq> None \<longrightarrow> v = None) \<and>
    (e = None \<longrightarrow> \<not> hasError s' \<and> v = (if hasResult s' then resultValue s' else None))"
proof -
  note r = perform_ran [OF assms]
  have 1: "inst_wf s'" by (rule wf_loop.ran_keeps [OF r]) (rule wf_intro)
  have 2: "inst_config s' = inst_config s" by (rule config_loop.ran_keeps [OF r]) (rule frame)
  from 1 2 perform_shape [OF assms] show ?thesis by simp
qed

lemmas call_simps = Eval_def DispatchEvent_def beginCall_def resetState_def evalOpts_def
  isAsyncArg_def afterExport_def endCall_def callOutcome_def WithAsyncOption_def raw_bytes_def

lemma sample_eval_sync:
  "\<exists>s'. perform sample_wasm sample_env (CallEval ''42'') [] sample_inst = Some (s', Some ''42'', None)"
  by (simp add: call_simps loop_simps sample_simps)

theorem call_contract_witness:
  "\<exists>s'. perform sample_wasm sample_env (CallEval ''42'') [] sample_inst = Some (s', Some ''42'', None) \<and>
     inst_wf s' \<and> inst_config s' = inst_config sample_inst \<and> \<not> hasError s' \<and> hasResult s' \<and>
     resultValue s' = Some ''42''"
proof -
  obtain s' where "perform sample_wasm sample_env (CallEval ''42'') [] sample_inst = Some (s', Some ''42'', None)"
    using sample_eval_sync by blast
  with call_contract [OF this] show ?thesis by (auto split: if_splits)
qed

subsection \<open>Drained queues\<close>

lemma feedBack_wf: "feedBack M E res s = Some (s', f) \<Longrightarrow> inst_wf s \<Longrightarrow> inst_wf s'"
  by (blast dest: feedBack_evolves wf_run.evolves_keeps)

lemma receiveResult_pending: "receiveResult E rs s = Some (s1, rs1, res) \<Longrightarrow>
    pendingRPCs s1 = pendingRPCs s \<and> (inst_wf s \<longrightarrow> inst_wf s1)"
  by (auto simp: receiveResult_def handlerStep_def Let_def inst_wf_def
      split: prod.splits option.splits if_splits)

lemma loopBody_go: "loopBody M E res s = Some (s', GoOn batch) \<Longrightarrow> pendingRPCs s' = []"
  by (auto simp: loopBody_def loopVerdict_def launchPendingRPCs_def elim!: bind_SomeE
      split: option.splits if_splits)

lemma rpcLoop_drained:
  assumes ret: "rpcLoop M E rs n s = Some r"
  shows "inst_wf s \<longrightarrow> pendingRPCs s = [] \<longrightarrow> snd r = None \<longrightarrow> pendingRPCs (fst r) = []"
proof (rule rpcLoop.raw_induct [where P = "\<lambda>M E rs n s r. inst_wf s \<longrightarrow> pendingRPCs s = [] \<longrightarrow>
      snd r = None \<longrightarrow> pendingRPCs (fst r) = []", OF _ ret])
  fix f M E rs n s r
  assume IH: "\<And>M E rs n s r. f M E rs n s = Some r \<Longrightarrow> inst_wf s \<longrightarrow> pendingRPCs s = [] \<longrightarrow>
      snd r = None \<longrightarrow> pendingRPCs (fst r) = []"
    and eq: "(if n > 0 then do {
          (s1, rs1, res) \<leftarrow> receiveResult E rs s;
          (s2, v) \<leftarrow> loopBody M E res s1;
          (case v of Stop e \<Rightarrow> Some (abandon E rs1 s2, e)
           | GoOn batch \<Rightarrow> f M E (rs1 @ batch) (n - 1 + length batch) s2) }
        else Some (s, None)) = Some r"
  show "inst_wf s \<longrightarrow> pendingRPCs s = [] \<longrightarrow> snd r = None \<longrightarrow> pendingRPCs (fst r) = []"
    using eq
  proof (cases rule: rpcLoop_unfold_cases)
    case (stop s1 rs1 res s2 e)
    then show ?thesis using loopBody_stops_with receiveResult_pending by fastforce
  next
    case (go s1 rs1 res s2 batch)
    have "inst_wf s \<longrightarrow> inst_wf s2"
      using receiveResult_pending [OF go(2)] wf_loop.loopBody_keeps [OF go(3)] by blast
    with IH [OF go(4)] loopBody_go [OF go(3)] show ?thesis by blast
  qed simp
qed

lemma serviceRPCLoop_drained:
  "serviceRPCLoop M E s = Some (s', None) \<Longrightarrow> inst_wf s \<Longrightarrow> pendingRPCs s' = []"
  using rpcLoop_drained [of M E "pendingRPCs s" "length (pendingRPCs s)" "s\<lparr>pendingRPCs := []\<rparr>" "(s', None)"]
  by (auto simp: serviceRPCLoop_def launchPendingRPCs_def inst_wf_def split: if_splits)

text \<open>
  C27. An asynchronous call that returns without an error has serviced every call its script made,
  directly or from a promise it settled: none is left in the queue.
\<close>

theorem async_call_drains:
  assumes "perform M E c options s = Some (s', v, None)" and "async_opt (evalOpts options)"
  shows "pendingRPCs s' = []"
  using perform_ran [OF assms(1)]
proof (cases rule: ran.cases)
  case (ended s1)
  have wf: "inst_wf s1" using ended(1) by (rule wf_run.evolves_keeps) (rule wf_intro)
  from ended(2) assms(2) have "serviceRPCLoop M E s1 = Some (s', None)"
    by (auto simp: endCall_def elim!: bind_SomeE split: option.splits)
  then show ?thesis using wf by (rule serviceRPCLoop_drained)
qed

lemma sample_eval_async:
  "\<exists>s'. perform sample_wasm sample_env (CallEval ''ping'') [WithAsyncOption] sample_inst
     = Some (s', Some ''ping'', None)"
  by (simp add: call_simps loop_simps sample_simps rpcLoop.simps)

theorem async_call_drains_witness:
  "\<exists>s'. perform sample_wasm sample_env (CallEval ''ping'') [WithAsyncOption] sample_inst
     = Some (s', Some ''ping'', None) \<and> pendingRPCs s' = []"
proof -
  obtain s' where p: "perform sample_wasm sample_env (CallEval ''ping'') [WithAsyncOption] sample_inst
     = Some (s', Some ''ping'', None)"
    using sample_eval_async by blast
  moreover have "pendingRPCs s' = []"
    by (rule async_call_drains [OF p]) (simp add: evalOpts_def WithAsyncOption_def)
  ultimately show ?thesis by blast
qed

subsection \<open>What is returned\<close>

text \<open>
  The reports of an execution: what the script told the host through \<open>host_set_result\<close>, in order.
  A payload outside the memory counts as an error.
\<close>

datatype report = ReportValue string | ReportError go_error

definition report_of :: "'g wasm \<Rightarrow> host_call \<Rightarrow> 'g \<Rightarrow> report list" where
  "report_of M hc g = (case hc of
     CallSetResult p n isError \<Rightarrow>
       (case wasmReadCopy M p n g of
          Inl e \<Rightarrow> [ReportError (ErrRuntime \<lparr>Code = ErrorCodeRuntimeError, RtMessage = error_text e\<rparr>)]
        | Inr d \<Rightarrow> [if isError \<noteq> 0 then ReportError (parseErrorJSON d) else ReportValue d])
   | _ \<Rightarrow> [])"

primrec reports :: "'g wasm \<Rightarrow> 'w host_env \<Rightarrow> 'g run \<Rightarrow> ('g, 'w) inst \<Rightarrow> report list" where
  "reports M E (Returned g rs) s = []"
| "reports M E (Trapped g e) s = []"
| "reports M E NeverReturns s = []"
| "reports M E (CallsHost g hc k) s =
     (case host_import M E hc (asyncSignals E (s\<lparr>guest := g\<rparr>)) of
        (s', r) \<Rightarrow> report_of M hc g @ reports M E (k (guest s') r) s')"

fun report_errors :: "report list \<Rightarrow> go_error list" where
  "report_errors [] = []"
| "report_errors (ReportError e # rs) = e # report_errors rs"
| "report_errors (ReportValue d # rs) = report_errors rs"

fun report_values :: "report list \<Rightarrow> string list" where
  "report_values [] = []"
| "report_values (ReportError e # rs) = report_values rs"
| "report_values (ReportValue d # rs) = d # report_values rs"

text \<open>The specification: the last error, or else the last value, or else nothing.\<close>

definition outcome_of :: "report list \<Rightarrow> raw \<times> go_error option" where
  "outcome_of rs =
     (if report_errors rs \<noteq> [] then (None, Some (last (report_errors rs)))
      else if report_values rs \<noteq> [] then (Some (last (report_values rs)), None) else (None, None))"

lemma report_append: "report_errors (xs @ ys) = report_errors xs @ report_errors ys"
  "report_values (xs @ ys) = report_values xs @ report_values ys"
  by (induction xs rule: report_errors.induct) simp_all

text \<open>The error and the value an instance holds after some reports.\<close>

definition reported :: "('g, 'w) inst \<Rightarrow> report list \<Rightarrow> ('g, 'w) inst \<Rightarrow> bool" where
  "reported s rs s' \<longleftrightarrow>
     hasError s' = (hasError s \<or> report_errors rs \<noteq> []) \<and>
     scriptError s' = (if report_errors rs = [] then scriptError s else Some (last (report_errors rs))) \<and>
     hasResult s' = (hasResult s \<or> report_values rs \<noteq> []) \<and>
     resultValue s' = (if report_values rs = [] then resultValue s else Some (last (report_values rs)))"

lemma reported_trans: "reported s xs t \<Longrightarrow> reported t ys u \<Longrightarrow> reported s (xs @ ys) u"
  by (auto simp: reported_def report_append)

lemma reported_import: "reported s (report_of M hc (guest s)) (fst (host_import M E hc s))"
  by (cases hc)
    (auto simp: reported_def report_of_def host_imports Let_def split: sum.splits option.splits prod.splits go_error.splits)

lemma reported_signals: "reported s [] (asyncSignals E (s\<lparr>guest := g\<rparr>))"
  by (auto simp: reported_def asyncSignals_def Interrupt_def split: prod.splits)

lemma guest_signals: "guest (asyncSignals E s) = guest s"
  by (simp add: asyncSignals_def Interrupt_def split: prod.splits)

lemma callExport_reported: "callExport M E r s = Some (s', res) \<Longrightarrow> reported s (reports M E r s) s'"
proof (induction r arbitrary: s)
  case (CallsHost g hc k)
  let ?t = "asyncSignals E (s\<lparr>guest := g\<rparr>)"
  let ?i = "host_import M E hc ?t"
  have "callExport M E (k (guest (fst ?i)) (snd ?i)) (fst ?i) = Some (s', res)"
    using CallsHost.prems by (simp split: prod.splits)
  then have 1: "reported (fst ?i) (reports M E (k (guest (fst ?i)) (snd ?i)) (fst ?i)) s'"
    using CallsHost.IH [OF rangeI rangeI] by blast
  have 2: "reported s (report_of M hc g) (fst ?i)"
    using reported_trans [OF reported_signals [of s E g] reported_import [of ?t M hc E]] by (simp add: guest_signals)
  show ?case using reported_trans [OF 2 1] by (simp add: split_beta)
qed (auto simp: reported_def)

lemma reported_outcome:
  assumes "reported (s0\<lparr>guest := g\<rparr>) rs s1" and "s0 = beginCall s"
  shows "callOutcome (s1\<lparr>guest := g'\<rparr>) = outcome_of rs"
  using assms by (auto simp: reported_def callOutcome_def outcome_of_def beginCall_def resetState_def)

text \<open>
  C16. The result of a synchronous evaluation whose export returns is the specification applied to
  the reports of that execution: the last error reported, or else the last value reported, or else
  neither a value nor an error.
\<close>

theorem Eval_outcome:
  assumes "\<not> async_opt (evalOpts options)"
    and "wasmAlloc M (length source) (guest s) = (g, Inr ptr)"
    and "r = fnEval M (wasmWrite M ptr source g) (ucast ptr) (of_nat (length source)) 0"
    and "callExport M E r ((beginCall s)\<lparr>guest := wasmWrite M ptr source g\<rparr>) = Some (s1, Inr rs)"
  shows "\<exists>s'. Eval M E source options s =
    Some (s', outcome_of (reports M E r ((beginCall s)\<lparr>guest := wasmWrite M ptr source g\<rparr>)))"
proof -
  have "guest (beginCall s) = guest s" by (simp add: beginCall_def resetState_def)
  with assms callExport_reported [OF assms(4)] show ?thesis
    by (simp add: Eval_def Let_def isAsyncArg_def afterExport_def endCall_def reported_outcome)
qed

theorem Eval_outcome_witness:
  "\<exists>s'. Eval sample_wasm sample_env ''42'' [] sample_inst = Some (s', Some ''42'', None)"
proof -
  let ?g = "sample0\<lparr>brk := 18, live := [(16, 2)]\<rparr>"
  let ?g1 = "wasmWrite sample_wasm 16 ''42'' ?g"
  have "wasmAlloc sample_wasm (length ''42'') (guest sample_inst) = (?g, Inr 16)"
    by (simp add: wasmAlloc_def sample_simps Let_def)
  from Eval_outcome [OF _ this refl, of "[]" sample_env] show ?thesis
    by (simp add: evalOpts_def sample_simps wasmWrite_def loop_simps beginCall_def resetState_def
        report_of_def outcome_of_def)
qed

subsection \<open>Calls return\<close>

text \<open>The exports that start a call return or trap, for every guest state and every instance.\<close>

definition calls_live :: "'g wasm \<Rightarrow> 'w host_env \<Rightarrow> bool" where
  "calls_live M E =
     ((\<forall>g p n a (s :: ('g, 'w) inst). callExport M E (fnEval M g p n a) (s\<lparr>guest := g\<rparr>) \<noteq> None) \<and>
      (\<forall>g p n a (s :: ('g, 'w) inst). callExport M E (fnEvalCompiled M g p n a) (s\<lparr>guest := g\<rparr>) \<noteq> None) \<and>
      (\<forall>g p n q m a (s :: ('g, 'w) inst).
         callExport M E (fnDispatchEvent M g p n q m a) (s\<lparr>guest := g\<rparr>) \<noteq> None))"

lemma serviceRPCLoop_returns:
  assumes "rpc_budget M E pot" and "rpc_live M E"
  shows "serviceRPCLoop M E s \<noteq> None"
  using rpcLoop_returns [OF assms refl, of "pendingRPCs s" "s\<lparr>pendingRPCs := []\<rparr>"]
  by (auto simp: serviceRPCLoop_def launchPendingRPCs_def)

lemma afterExport_returns:
  assumes "rpc_budget M E pot" and "rpc_live M E"
  shows "\<exists>s' v e. afterExport M E opts context s r = Some (s', v, e)"
proof -
  obtain s1 err where "serviceRPCLoop M E s = Some (s1, err)"
    using serviceRPCLoop_returns [OF assms, of s] by auto
  then show ?thesis
    by (cases r; cases err; cases "callOutcome s"; cases "callOutcome s1")
      (auto simp: afterExport_def endCall_def)
qed

text \<open>
  C15. Every call returns, with a value or an error, when the exports return, the scheduler delivers
  and the script's calls are bounded; so a call that does not return has a script, a handler or a
  cancellation to blame.
\<close>

theorem call_returns:
  assumes "calls_live M E" and "rpc_budget M E pot" and "rpc_live M E"
  shows "\<exists>s' v e. perform M E c options s = Some (s', v, e)"
proof -
  note after = afterExport_returns [OF assms(2,3), of "evalOpts options"]
  have 1: "\<exists>t r. callExport M E (fnEval M g p n a) (u\<lparr>guest := g\<rparr>) = Some (t, r)"
    "\<exists>t r. callExport M E (fnEvalCompiled M g p n a) (u\<lparr>guest := g\<rparr>) = Some (t, r)"
    "\<exists>t r. callExport M E (fnDispatchEvent M g p n q m a) (u\<lparr>guest := g\<rparr>) = Some (t, r)"
    for g p n q m a u
    using assms(1) unfolding calls_live_def by fastforce+
  show ?thesis
  proof (cases c)
    case (CallEval source)
    obtain g r where a: "wasmAlloc M (length source) (guest (beginCall s)) = (g, r)" by fastforce
    show ?thesis
    proof (cases r)
      case (Inr ptr)
      let ?g = "wasmWrite M ptr source g"
      obtain t r' where "callExport M E (fnEval M ?g (ucast ptr) (of_nat (length source))
          (isAsyncArg (evalOpts options))) ((beginCall s)\<lparr>guest := ?g\<rparr>) = Some (t, r')"
        using 1(1) by blast
      with CallEval a Inr after show ?thesis by (simp add: Eval_def Let_def)
    qed (use CallEval a in \<open>simp add: Eval_def Let_def\<close>)
  next
    case (CallEvalCompiled source)
    obtain g r where a: "wasmAlloc M (length source) (guest (beginCall s)) = (g, r)" by fastforce
    show ?thesis
    proof (cases r)
      case (Inr ptr)
      let ?g = "wasmWrite M ptr source g"
      obtain t r' where "callExport M E (fnEvalCompiled M ?g (ucast ptr) (of_nat (length source))
          (isAsyncArg (evalOpts options))) ((beginCall s)\<lparr>guest := ?g\<rparr>) = Some (t, r')"
        using 1(2) by blast
      with CallEvalCompiled a Inr after show ?thesis by (simp add: EvalCompiled_def Let_def)
    qed (use CallEvalCompiled a in \<open>simp add: EvalCompiled_def Let_def\<close>)
  next
    case (CallDispatchEvent name params)
    obtain g r where a: "wasmAlloc M (length name) (guest (beginCall s)) = (g, r)" by fastforce
    show ?thesis
    proof (cases r)
      case (Inr ptr)
      obtain g2 r2 where b: "wasmAlloc M (length (raw_bytes params)) (wasmWrite M ptr name g) = (g2, r2)"
        by fastforce
      show ?thesis
      proof (cases r2)
        case (Inr ptr2)
        let ?g = "wasmWrite M ptr2 (raw_bytes params) g2"
        obtain t r' where "callExport M E (fnDispatchEvent M ?g (ucast ptr) (of_nat (length name))
            (ucast ptr2) (of_nat (length (raw_bytes params)))
            (isAsyncArg (evalOpts options))) ((beginCall s)\<lparr>guest := ?g\<rparr>) = Some (t, r')"
          using 1(3) by blast
        with CallDispatchEvent a b \<open>r = Inr ptr\<close> Inr after show ?thesis
          by (simp add: DispatchEvent_def Let_def)
      qed (use CallDispatchEvent a b Inr in \<open>simp add: DispatchEvent_def Let_def\<close>)
    qed (use CallDispatchEvent a in \<open>simp add: DispatchEvent_def Let_def\<close>)
  qed
qed

lemma sample_calls_live: "calls_live sample_wasm sample_env"
  by (simp add: calls_live_def sample_simps split_beta)

theorem call_returns_witness:
  "\<exists>s' v e. perform sample_wasm sample_env (CallDispatchEvent ''tick'' None) [WithAsyncOption] sample_inst
     = Some (s', v, e)"
  by (rule call_returns [OF sample_calls_live sample_budget sample_live])

subsection \<open>Interruption\<close>

text \<open>
  C29. An \<open>Interrupt\<close> that arrives while a call is running is not lost: the flag is still set when
  the export and the service loop after it return, and from then on every \<open>host_should_interrupt\<close>
  of the guest is answered with 1, whatever the configured callback says.
\<close>

theorem interrupt_sticks:
  assumes "callExport M E r (Interrupt s) = Some (s1, res)"
    and "serviceRPCLoop M E (s1\<lparr>guest := g\<rparr>) = Some (s2, err)"
  shows "hostShouldInterrupt i t s1 = (s1, 1) \<and> hostShouldInterrupt i t s2 = (s2, 1)"
proof -
  have 1: "interrupted s1"
    by (rule interrupt_run.callExport_keeps [OF assms(1)]) (simp add: Interrupt_def)
  have "interrupted s2"
    by (rule interrupt_loop.loop.serviceRPCLoop_keeps [OF assms(2)]) (simp add: 1)
  with 1 show ?thesis by (simp add: hostShouldInterrupt_def)
qed

theorem interrupt_sticks_witness:
  "\<exists>s1 res s2 err. callExport sample_wasm sample_env (sample_eval sample0 16 1 1) (Interrupt sample_inst) = Some (s1, res) \<and>
     serviceRPCLoop sample_wasm sample_env (s1\<lparr>guest := sample0\<rparr>) = Some (s2, err) \<and>
     hostShouldInterrupt 10000 5 s2 = (s2, 1)"
proof -
  obtain s1 res where 1: "callExport sample_wasm sample_env (sample_eval sample0 16 1 1) (Interrupt sample_inst) = Some (s1, res)"
    by (simp add: sample_simps split_beta)
  obtain s2 err where 2: "serviceRPCLoop sample_wasm sample_env (s1\<lparr>guest := sample0\<rparr>) = Some (s2, err)"
    using serviceRPCLoop_returns [OF sample_budget sample_live, of "s1\<lparr>guest := sample0\<rparr>"] by auto
  from interrupt_sticks [OF 1 2] 1 2 show ?thesis by blast
qed

end
