(* ===== verification/Creation_Spec.thy ===== *)
theory Creation_Spec
  imports Execution_Spec
begin

text \<open>
  What \<open>newInstance\<close> of \<open>kafig-go/instance.go\<close> guarantees to its caller \<open>Runtime.Instance\<close>: on
  which paths the module it instantiated is closed again, and in what state an instance starts.
\<close>

subsection \<open>New instances\<close>

lemma evalPrelude_evolves:
  "evalPrelude M E bc s = Some (s', err) \<Longrightarrow> \<exists>t. evolves M E s t \<and>
     (err = None \<and> s' = t \<and> \<not> hasError t \<or> err \<noteq> None \<and> (s' = t \<or> s' = resetState t))"
  by (auto simp: evalPrelude_def Let_def intro: evolves_guest evolves_call elim!: bind_SomeE
      split: prod.splits sum.splits if_splits)

lemma newInstance_aux:
  assumes "newInstance C E opts rt w = Some (w', closed, res)"
  shows "(case res of
      Inl e \<Rightarrow> (closed = None) = (\<exists>e'. instantiateModule C = Inl e')
    | Inr s \<Rightarrow> closed = None \<and> list_all (exportedFunction C) required_exports \<and> inst_wf s \<and>
        \<not> hasError s \<and> world s = w' \<and>
        inst_config s = (rt, optInterruptCallback opts, optPromiseRejectionHandler opts))"
proof (cases "instantiateModule C")
  case (Inl e)
  with assms show ?thesis by (auto simp: newInstance_def)
next
  case (Inr g)
  let ?M = "wasmOps C"
  let ?s = "freshInstance opts rt g w"
  have wf: "inst_wf (?s\<lparr>guest := g'\<rparr>)" "inst_config (?s\<lparr>guest := g'\<rparr>) =
      (rt, optInterruptCallback opts, optPromiseRejectionHandler opts)" "\<not> hasError (?s\<lparr>guest := g'\<rparr>)" for g'
    by (simp_all add: freshInstance_def inst_wf_def inst_config_def)
  show ?thesis
  proof (cases "List.find (\<lambda>name. \<not> exportedFunction C name) required_exports")
    case (Some name)
    with assms Inr show ?thesis by (auto simp: newInstance_def)
  next
    case None
    then have all: "list_all (exportedFunction C) required_exports"
      by (simp add: find_None_iff list_all_iff)
    obtain g1 lim where l: "(if jsMemoryLimit opts > 0 then fnSetMemoryLimit ?M g (ucast (jsMemoryLimit opts))
        else (g, None)) = (g1, lim)" by fastforce
    show ?thesis
    proof (cases "lim = None \<and> raw_bytes (preludeBytecode opts) \<noteq> []")
      case False
      with assms Inr None l all wf [of g1] show ?thesis
        by (cases lim) (auto simp: newInstance_def Let_def freshInstance_def)
    next
      case True
      with assms Inr None l obtain s err where
        p: "evalPrelude ?M E (raw_bytes (preludeBytecode opts)) (?s\<lparr>guest := g1\<rparr>) = Some (s, err)"
        and r: "(w', closed, res) = (case err of
              Some e \<Rightarrow> (world s, Some (fst (closeModule ?M (guest s))), Inl e) | None \<Rightarrow> (world s, None, Inr s))"
        by (auto simp: newInstance_def Let_def elim!: bind_SomeE split: option.splits)
      from evalPrelude_evolves [OF p] obtain t where ev: "evolves ?M E (?s\<lparr>guest := g1\<rparr>) t"
        and e: "err = None \<Longrightarrow> s = t \<and> \<not> hasError t" by blast
      have "inst_wf t" "inst_config t = (rt, optInterruptCallback opts, optPromiseRejectionHandler opts)"
        using wf_run.evolves_keeps [OF ev] config_run.evolves_keeps [OF ev] wf by blast+
      with r e all Inr show ?thesis by (cases err) auto
    qed
  qed
qed

text \<open>
  C30. \<open>newInstance\<close> gives an error or an instance. With an error, a module that was instantiated
  has been closed, so nothing leaks; an instance is well formed, carries the configured router and
  callbacks, reports no error of its prelude, and its module exports every function the code calls.
\<close>

theorem newInstance_contract:
  assumes "newInstance C E opts rt w = Some (w', closed, res)"
  shows "(case res of
      Inl e \<Rightarrow> (closed = None) = (\<exists>e'. instantiateModule C = Inl e')
    | Inr s \<Rightarrow> closed = None \<and> list_all (exportedFunction C) required_exports \<and> inst_wf s \<and>
        \<not> hasError s \<and> world s = w' \<and>
        inst_config s = (rt, optInterruptCallback opts, optPromiseRejectionHandler opts))"
  by (rule newInstance_aux [OF assms])

definition sample_module :: "sample compiled_module" where
  "sample_module = \<lparr>instantiateModule = Inr sample0, exportedFunction = (\<lambda>n. n \<noteq> ''reject_rpc''),
     wasmOps = sample_wasm,
     fnCompile = (\<lambda>g p n a. Returned g [push_bit 32 p OR n])\<rparr>"

definition sample_options :: "nat instanceOptions" where
  "sample_options = \<lparr>optRouter = Some sample_router, optLogger = defaultLogger, preludeBytecode = Some ''x'',
     optInterruptCallback = None, optPromiseRejectionHandler = None, jsMemoryLimit = 0\<rparr>"

theorem newInstance_contract_witness:
  "(\<exists>s. newInstance (sample_module\<lparr>exportedFunction := (\<lambda>_. True)\<rparr>) sample_env sample_options sample_router 3
      = Some (3, None, Inr s) \<and> inst_wf s \<and> \<not> hasError s) \<and>
   (\<exists>g e. newInstance sample_module sample_env sample_options sample_router 3 = Some (3, Some g, Inl e))"
proof
  let ?C = "sample_module\<lparr>exportedFunction := (\<lambda>_. True)\<rparr>"
  have "\<exists>s. newInstance ?C sample_env sample_options sample_router 3 = Some (3, None, Inr s)"
    by (simp add: newInstance_def sample_module_def sample_options_def required_exports_def
        raw_bytes_def freshInstance_def evalPrelude_def sample_simps loop_simps)
  then obtain s where s: "newInstance ?C sample_env sample_options sample_router 3 = Some (3, None, Inr s)" by blast
  from newInstance_contract [OF s] s
  show "\<exists>s. newInstance ?C sample_env sample_options sample_router 3 = Some (3, None, Inr s) \<and> inst_wf s \<and> \<not> hasError s"
    by auto
  show "\<exists>g e. newInstance sample_module sample_env sample_options sample_router 3 = Some (3, Some g, Inl e)"
    by (simp add: newInstance_def sample_module_def required_exports_def)
qed

end
