(* ===== verification/Boundary.thy ===== *)
theory Boundary
  imports Execution_Spec
begin

text \<open>
  Bytes across the WASM boundary: under the documented laws of linear memory, what the host writes
  is what the guest reads.
\<close>

subsection \<open>Bytes across the boundary\<close>

text \<open>
  Linear memory as the engine documents it: what was written inside a readable range is read back,
  the rest of the range unchanged, and a non-null pointer \<open>alloc\<close> returned starts a readable range
  of the requested size.
\<close>

definition memory_laws :: "'g wasm \<Rightarrow> bool" where
  "memory_laws M =
     ((\<forall>g p n old k d. memRead M g p n = Some old \<longrightarrow> k + length d \<le> unat n \<longrightarrow>
         memRead M (memWrite M g (p + of_nat k) d) p n = Some (take k old @ d @ drop (k + length d) old)) \<and>
      (\<forall>g g' p n. fnAlloc M g n = (g', Inr p) \<longrightarrow> ucast p \<noteq> (0 :: u32) \<longrightarrow> n < 2 ^ 32 \<longrightarrow>
         (\<exists>old. length old = unat n \<and> memRead M g' (ucast p) (ucast n) = Some old)))"

lemma alloc_readable:
  assumes "memory_laws M" and "wasmAlloc M n g = (g', Inr ptr)" and "0 < n" and "n < 2 ^ 32"
  shows "\<exists>old. length old = n \<and> memRead M g' ptr (of_nat n) = Some old"
proof -
  from assms(2,3) obtain p where p: "fnAlloc M g (of_nat n) = (g', Inr p)" "ptr = ucast p" "ptr \<noteq> 0"
    by (auto simp: wasmAlloc_def Let_def split: prod.splits sum.splits if_splits)
  have u: "unat (of_nat n :: u64) = n"
    using assms(4) by (simp add: unat_of_nat take_bit_nat_eq_self_iff)
  then have "(of_nat n :: u64) < 2 ^ 32" using assms(4) by (simp add: word_less_nat_alt)
  moreover have "ucast (of_nat n :: u64) = (of_nat n :: u32)"
    by (rule bit_word_eqI) (simp add: bit_simps)
  ultimately show ?thesis using assms(1) p u unfolding memory_laws_def by metis
qed

text \<open>
  A reply to a synchronous RPC reaches the guest whole: unless it is 0, the packed word the import
  returns unpacks, the way the guest does it, to the address and length of a buffer that holds the
  tag followed by the payload.
\<close>

lemma sync_reply_readable:
  assumes "memory_laws M" and "writeSyncRPCResult M tag payload g = (g', packed)" and "packed \<noteq> 0"
    and "Suc (length payload) < 2 ^ 32"
  shows "memRead M g' (packed_ptr packed) (of_nat (packed_len packed)) = Some (char_of tag # payload)"
proof -
  let ?n = "Suc (length payload)"
  from assms(2,3) obtain g1 ptr where a: "wasmAlloc M ?n g = (g1, Inr ptr)"
    and g': "g' = memWrite M (memWrite M g1 ptr [char_of tag]) (ptr + 1) payload"
    and pk: "packed = push_bit 32 (ucast ptr) OR of_nat ?n"
    by (auto simp: writeSyncRPCResult_def Let_def split: prod.splits sum.splits)
  have l: "(if k + length d \<le> ?n then True else False) \<Longrightarrow> memRead M h ptr (of_nat ?n) = Some old \<Longrightarrow>
      memRead M (memWrite M h (ptr + of_nat k) d) ptr (of_nat ?n) = Some (take k old @ d @ drop (k + length d) old)"
    for h old k d
    using assms(1,4) unfolding memory_laws_def
    by (simp add: unat_of_nat take_bit_nat_eq_self_iff del: of_nat_Suc split: if_splits)
  obtain old where o: "length old = ?n" "memRead M g1 ptr (of_nat ?n) = Some old"
    using alloc_readable [OF assms(1) a] assms(4) by auto
  obtain x xs where old: "old = x # xs" and xs: "length xs = length payload"
    using o(1) by (cases old) auto
  have "memRead M (memWrite M g1 ptr [char_of tag]) ptr (of_nat ?n) = Some (char_of tag # xs)"
    using l [of 0 "[char_of tag]" g1 old] o(2) old by simp
  then have "memRead M g' ptr (of_nat ?n) = Some (char_of tag # payload)"
    using l [of "Suc 0" payload "memWrite M g1 ptr [char_of tag]" "char_of tag # xs"] xs
    by (simp add: g' del: of_nat_Suc) (simp add: of_nat_Suc)
  moreover have "packed_ptr packed = ptr" "packed_len packed = ?n"
    using packed_parts [OF assms(4), of ptr] by (simp_all add: pk del: of_nat_Suc)
  ultimately show ?thesis by (simp del: of_nat_Suc)
qed

lemma poke_nth: "poke a d m i = (if a \<le> i \<and> i < a + length d then d ! (i - a) else m i)"
  by (induction a d m rule: poke.induct) (simp_all add: nth_Cons' fun_upd_def, auto)

lemma sample_memory_laws: "memory_laws sample_wasm"
  unfolding memory_laws_def
proof (intro conjI allI impI)
  fix g p n old k and d :: string
  assume r: "memRead sample_wasm g p n = Some old" and k: "k + length d \<le> unat n"
  from r have b: "unat p + unat n \<le> page" and old: "old = map (mem g) [unat p..<unat p + unat n]"
    by (auto simp: sample_wasm_def sample_read_def split: if_splits)
  have u: "unat (p + of_nat k :: u32) = unat p + k"
  proof -
    have "unat p + k < 2 ^ 32" using b k by (simp add: page_def)
    then show ?thesis by (simp add: unat_word_ariths unat_of_nat take_bit_nat_eq_self_iff)
  qed
  have "map (poke (unat p + k) d (mem g)) [unat p..<unat p + unat n]
      = take k old @ d @ drop (k + length d) old"
    by (rule nth_equalityI) (use k in \<open>auto simp: old poke_nth nth_append min_def\<close>)
  then show "memRead sample_wasm (memWrite sample_wasm g (p + of_nat k) d) p n
      = Some (take k old @ d @ drop (k + length d) old)"
    using b k u by (simp add: sample_wasm_def sample_read_def sample_write_def)
next
  fix g g' :: sample and p n :: u64
  assume a: "fnAlloc sample_wasm g n = (g', Inr p)" and z: "ucast p \<noteq> (0 :: u32)" and n: "n < 2 ^ 32"
  from a z have b: "brk g + unat n \<le> page" and p: "p = of_nat (brk g)"
    by (auto simp: sample_wasm_def sample_alloc_def split: if_splits)
  have "unat p = brk g"
    using b by (simp add: p page_def unat_of_nat take_bit_nat_eq_self_iff)
  then have "unat (ucast p :: u32) = brk g"
    using b by (simp add: page_def unsigned_ucast_eq unsigned_take_bit_eq take_bit_nat_eq_self_iff)
  moreover have "unat (ucast n :: u32) = unat n"
    using b by (simp add: page_def unsigned_ucast_eq unsigned_take_bit_eq take_bit_nat_eq_self_iff)
  ultimately show "\<exists>old. length old = unat n \<and> memRead sample_wasm g' (ucast p) (ucast n) = Some old"
    using b by (simp add: sample_wasm_def sample_read_def)
qed

end
