(* ===== verification/Buffers.thy ===== *)
theory Buffers
  imports Execution_Spec
begin

text \<open>
  The buffers the host allocates in guest memory for a call. The module is instrumented: beside the
  guest state there is a record of the buffers the host itself obtained from \<open>alloc\<close> and gave back
  with \<open>dealloc\<close>, outside the exports that run JavaScript (the buffer of a synchronous RPC reply is
  the guest's to free). The instrumentation changes nothing else.
\<close>

subsection \<open>The instrumented module\<close>

record ghost =
  inside :: bool
  got :: "(u64 \<times> u64) list"
  gave :: "(u64 \<times> u64) list"

type_synonym 'g traced = "'g \<times> ghost"

definition note_alloc :: "u64 \<Rightarrow> go_error + u64 \<Rightarrow> ghost \<Rightarrow> ghost" where
  "note_alloc n r gh = (case r of
     Inl e \<Rightarrow> gh
   | Inr p \<Rightarrow> if inside gh \<or> ucast p = (0 :: u32) then gh
             else gh\<lparr>got := got gh @ [(ucast (ucast p :: u32), n)]\<rparr>)"

definition note_dealloc :: "u64 \<Rightarrow> u64 \<Rightarrow> ghost \<Rightarrow> ghost" where
  "note_dealloc p n gh = (if inside gh then gh else gh\<lparr>gave := gave gh @ [(p, n)]\<rparr>)"

text \<open>The ghost state travels through an export that may call the host.\<close>

primrec trace_run :: "'g run \<Rightarrow> ghost \<Rightarrow> 'g traced run" where
  "trace_run (Returned g rs) gh = Returned (g, gh\<lparr>inside := False\<rparr>) rs"
| "trace_run (Trapped g e) gh = Trapped (g, gh\<lparr>inside := False\<rparr>) e"
| "trace_run NeverReturns gh = NeverReturns"
| "trace_run (CallsHost g hc k) gh =
     CallsHost (g, gh) hc (\<lambda>g' r. trace_run (k (fst g') r) (snd g'))"

definition enter :: "ghost \<Rightarrow> ghost" where
  "enter gh = gh\<lparr>inside := True\<rparr>"

definition traced :: "'g wasm \<Rightarrow> 'g traced wasm" where
  "traced M = \<lparr>
     fnAlloc = (\<lambda>(g, gh) n. case fnAlloc M g n of (g', r) \<Rightarrow> ((g', note_alloc n r gh), r)),
     fnDealloc = (\<lambda>(g, gh) p n. (fnDealloc M g p n, note_dealloc p n gh)),
     fnEval = (\<lambda>(g, gh) p n a. trace_run (fnEval M g p n a) (enter gh)),
     fnEvalCompiled = (\<lambda>(g, gh) p n a. trace_run (fnEvalCompiled M g p n a) (enter gh)),
     fnDispatchEvent = (\<lambda>(g, gh) p n q m a. trace_run (fnDispatchEvent M g p n q m a) (enter gh)),
     fnResolveRpc = (\<lambda>(g, gh) i p n. trace_run (fnResolveRpc M g i p n) (enter gh)),
     fnRejectRpc = (\<lambda>(g, gh) i p n. trace_run (fnRejectRpc M g i p n) (enter gh)),
     fnGetOpcodeCount = (\<lambda>(g, gh). case fnGetOpcodeCount M g of (g', r) \<Rightarrow> ((g', gh), r)),
     fnGetCPUTimeUs = (\<lambda>(g, gh). case fnGetCPUTimeUs M g of (g', r) \<Rightarrow> ((g', gh), r)),
     fnResetExecutionStats = (\<lambda>(g, gh). case fnResetExecutionStats M g of (g', r) \<Rightarrow> ((g', gh), r)),
     fnSetMemoryLimit = (\<lambda>(g, gh) n. case fnSetMemoryLimit M g n of (g', r) \<Rightarrow> ((g', gh), r)),
     closeModule = (\<lambda>(g, gh). case closeModule M g of (g', r) \<Rightarrow> ((g', gh), r)),
     memRead = (\<lambda>(g, gh). memRead M g),
     memWrite = (\<lambda>(g, gh) p d. (memWrite M g p d, gh))\<rparr>"

text \<open>\<open>holds X g\<close>: outside an export, the buffers obtained and not given back are those of \<open>X\<close>.\<close>

definition holds :: "(u64 \<times> u64) multiset \<Rightarrow> 'g traced \<Rightarrow> bool" where
  "holds X g = (\<not> inside (snd g) \<and> mset (got (snd g)) = mset (gave (snd g)) + X)"

definition buffer :: "u32 \<Rightarrow> nat \<Rightarrow> u64 \<times> u64" where
  "buffer ptr n = (ucast ptr, of_nat (if n = 0 then 1 else n))"

lemma holds_alloc:
  assumes "wasmAlloc (traced M) n g = (g', r)" and "holds X g"
  shows "case r of Inl e \<Rightarrow> holds X g' | Inr ptr \<Rightarrow> holds (add_mset (buffer ptr n) X) g'"
  using assms
  by (cases g)
    (auto simp: wasmAlloc_def traced_def holds_def note_alloc_def buffer_def Let_def
      split: prod.splits sum.splits if_splits)

lemma holds_write: "holds X g \<Longrightarrow> holds X (wasmWrite (traced M) ptr d g)"
  by (cases g) (simp add: wasmWrite_def traced_def holds_def)

lemma holds_dealloc: "holds (add_mset (buffer ptr n) X) g \<Longrightarrow> holds X (wasmDealloc (traced M) ptr n g)"
  by (cases g) (simp add: wasmDealloc_def traced_def holds_def note_dealloc_def buffer_def Let_def)

text \<open>The imports run inside an export and leave the ghost state alone.\<close>

lemma ghost_sync_result:
  "inside (snd g) \<Longrightarrow> snd (fst (writeSyncRPCResult (traced M) tag payload g)) = snd g"
  by (cases g)
    (auto simp: writeSyncRPCResult_def wasmAlloc_def traced_def note_alloc_def Let_def
      split: prod.splits sum.splits)

lemma ghost_import:
  assumes "inside (snd (guest s))"
  shows "snd (guest (fst (host_import (traced M) E hc s))) = snd (guest s)"
proof (cases hc)
  case (CallRPCSync mp ml pp pl)
  then show ?thesis
    using ghost_sync_result [OF assms, of M]
    by (auto simp: hostRPCSync_def Let_def split_beta split: sum.splits option.splits)
qed (auto simp: host_imports Let_def split: sum.splits option.splits prod.splits go_error.splits)

lemma ghost_export:
  "callExport (traced M) E (trace_run r gh) s = Some (s', res) \<Longrightarrow> inside gh \<Longrightarrow>
    snd (guest s') = gh\<lparr>inside := False\<rparr>"
proof (induction r arbitrary: s)
  case (CallsHost g hc k)
  let ?i = "host_import (traced M) E hc (asyncSignals E (s\<lparr>guest := (g, gh)\<rparr>))"
  have "snd (guest (fst ?i)) = gh"
    using CallsHost.prems(2) by (simp add: ghost_import guest_signals)
  moreover have "callExport (traced M) E
      (trace_run (k (fst (guest (fst ?i))) (snd ?i)) (snd (guest (fst ?i)))) (fst ?i) = Some (s', res)"
    using CallsHost.prems(1) by (simp add: split_beta)
  ultimately show ?case using CallsHost.IH [OF rangeI rangeI] CallsHost.prems(2) by metis
qed auto

lemma holds_export:
  "callExport (traced M) E (trace_run r (enter (snd g))) s = Some (s', res) \<Longrightarrow> holds X g \<Longrightarrow>
    holds X (guest s')"
  by (drule ghost_export) (simp_all add: enter_def holds_def)

lemma traced_exports:
  "fnResolveRpc (traced M) g i p n = trace_run (fnResolveRpc M (fst g) i p n) (enter (snd g))"
  "fnRejectRpc (traced M) g i p n = trace_run (fnRejectRpc M (fst g) i p n) (enter (snd g))"
  "fnEval (traced M) g p n a = trace_run (fnEval M (fst g) p n a) (enter (snd g))"
  "fnEvalCompiled (traced M) g p n a = trace_run (fnEvalCompiled M (fst g) p n a) (enter (snd g))"
  "fnDispatchEvent (traced M) g p n q m a = trace_run (fnDispatchEvent M (fst g) p n q m a) (enter (snd g))"
  by (simp_all add: traced_def split_beta)

text \<open>One buffer around one export: obtained, filled, given back.\<close>

lemma holds_buffered:
  assumes "wasmAlloc (traced M) n g0 = (g, Inr ptr)" and "holds X g0"
    and "callExport (traced M) E (trace_run r (enter (snd (wasmWrite (traced M) ptr d g)))) s = Some (s', res)"
  shows "holds X (wasmDealloc (traced M) ptr n (guest s'))"
proof -
  have "holds (add_mset (buffer ptr n) X) g" using holds_alloc [OF assms(1,2)] by simp
  then have "holds (add_mset (buffer ptr n) X) (guest s')"
    by (intro holds_export [OF assms(3)] holds_write)
  then show ?thesis by (rule holds_dealloc)
qed

lemma holds_resolveRPC:
  assumes "resolveRPC (traced M) E pid v s = Some (s', err)" and "holds X (guest s)"
  shows "holds X (guest s')"
proof (cases "wasmAlloc (traced M) (length (or_null v)) (guest s)")
  case (Pair g r)
  then show ?thesis
    using assms holds_alloc [OF Pair assms(2)]
    by (cases r) (auto simp: resolveRPC_def Let_def traced_exports elim!: bind_SomeE
        intro: holds_buffered [OF _ assms(2)])
qed

lemma holds_rejectRPC:
  assumes "rejectRPC (traced M) E pid e s = Some (s', err)" and "holds X (guest s)"
  shows "holds X (guest s')"
proof (cases "wasmAlloc (traced M) (length (reject_payload e)) (guest s)")
  case (Pair g r)
  then show ?thesis
    using assms holds_alloc [OF Pair assms(2)]
    by (cases r) (auto simp: rejectRPC_def Let_def traced_exports elim!: bind_SomeE
        intro: holds_buffered [OF _ assms(2)])
qed

lemma holds_feedBack: "feedBack (traced M) E res s = Some (s', f) \<Longrightarrow> holds X (guest s) \<Longrightarrow> holds X (guest s')"
  by (erule feedBack_cases) (auto intro: holds_resolveRPC holds_rejectRPC)

lemma holds_loopBody:
  "loopBody (traced M) E res s = Some (s', v) \<Longrightarrow> holds X (guest s) \<Longrightarrow> holds X (guest s')"
  by (auto simp: loopBody_def loopVerdict_def launchPendingRPCs_def elim!: bind_SomeE
      dest!: holds_feedBack split: option.splits if_splits)

interpretation buffers: body_invariant "traced M" E "\<lambda>s. holds X (guest s)"
  for M :: "'g wasm" and E :: "'w host_env" and X
  by unfold_locales (auto intro: holds_loopBody)

lemma holds_afterExport:
  "afterExport (traced M) E opts context s r = Some (s', v, e) \<Longrightarrow> holds X (guest s) \<Longrightarrow> holds X (guest s')"
  by (auto simp: afterExport_def endCall_def elim!: bind_SomeE dest: buffers.serviceRPCLoop_keeps
      split: sum.splits if_splits option.splits)

lemma holds_call:
  assumes "wasmAlloc (traced M) n g0 = (g, Inr ptr)" and "holds X g0"
    and "callExport (traced M) E (trace_run r (enter (snd (wasmWrite (traced M) ptr d g)))) s = Some (t, q)"
    and "afterExport (traced M) E opts context (t\<lparr>guest := wasmDealloc (traced M) ptr n (guest t)\<rparr>) q
      = Some (s', v, e)"
  shows "holds X (guest s')"
  by (rule holds_afterExport [OF assms(4)]) (simp add: holds_buffered [OF assms(1-3)])

lemma guest_beginCall [simp]: "guest (beginCall s) = guest s"
  by (simp add: beginCall_def resetState_def)

lemma holds_Eval:
  assumes "Eval (traced M) E source options s = Some (s', v, e)" and "holds X (guest s)"
  shows "holds X (guest s')"
proof (cases "wasmAlloc (traced M) (length source) (guest s)")
  case (Pair g r)
  then show ?thesis
    using assms holds_alloc [OF Pair assms(2)]
    by (cases r) (auto simp: Eval_def Let_def traced_exports elim!: bind_SomeE
        intro: holds_call [OF _ assms(2)])
qed

lemma holds_EvalCompiled:
  assumes "EvalCompiled (traced M) E source options s = Some (s', v, e)" and "holds X (guest s)"
  shows "holds X (guest s')"
proof (cases "wasmAlloc (traced M) (length source) (guest s)")
  case (Pair g r)
  then show ?thesis
    using assms holds_alloc [OF Pair assms(2)]
    by (cases r) (auto simp: EvalCompiled_def Let_def traced_exports elim!: bind_SomeE
        intro: holds_call [OF _ assms(2)])
qed

lemma holds_DispatchEvent:
  assumes "DispatchEvent (traced M) E name params options s = Some (s', v, e)" and "holds X (guest s)"
  shows "holds X (guest s')"
proof (cases "wasmAlloc (traced M) (length name) (guest s)")
  case (Pair g r)
  show ?thesis
  proof (cases r)
    case (Inl e)
    with Pair assms holds_alloc [OF Pair assms(2)] show ?thesis by (auto simp: DispatchEvent_def Let_def)
  next
    case (Inr ptr)
    let ?b = "buffer ptr (length name)"
    let ?g1 = "wasmWrite (traced M) ptr name g"
    have h: "holds (add_mset ?b X) ?g1"
      using holds_alloc [OF Pair assms(2)] Inr by (auto intro: holds_write)
    show ?thesis
    proof (cases "wasmAlloc (traced M) (length (raw_bytes params)) ?g1")
      case p2: (Pair g2 r2)
      show ?thesis
      proof (cases r2)
        case (Inl e)
        with Pair Inr p2 assms holds_alloc [OF p2 h] show ?thesis
          by (auto simp: DispatchEvent_def Let_def intro: holds_dealloc)
      next
        case r2: (Inr ptr2)
        let ?n = "length (raw_bytes params)"
        let ?g3 = "wasmWrite (traced M) ptr2 (raw_bytes params) g2"
        from Pair Inr p2 r2 assms(1) obtain t q where
          c: "callExport (traced M) E (trace_run (fnDispatchEvent M (fst ?g3) (ucast ptr) (of_nat (length name))
             (ucast ptr2) (of_nat ?n) (isAsyncArg (evalOpts options))) (enter (snd ?g3)))
             ((beginCall s)\<lparr>guest := ?g3\<rparr>) = Some (t, q)"
          and a: "afterExport (traced M) E (evalOpts options) ''kafig: dispatch_event: ''
             (t\<lparr>guest := wasmDealloc (traced M) ptr2 ?n (wasmDealloc (traced M) ptr (length name) (guest t))\<rparr>) q
             = Some (s', v, e)"
          by (auto simp: DispatchEvent_def Let_def traced_exports elim!: bind_SomeE)
        have "holds (add_mset (buffer ptr2 ?n) (add_mset ?b X)) ?g3"
          using holds_alloc [OF p2 h] r2 by (auto intro: holds_write)
        then have "holds (add_mset ?b (add_mset (buffer ptr2 ?n) X)) (guest t)"
          by (subst add_mset_commute) (rule holds_export [OF c])
        then have "holds X (guest (t\<lparr>guest := wasmDealloc (traced M) ptr2 ?n
            (wasmDealloc (traced M) ptr (length name) (guest t))\<rparr>))"
          by (simp add: holds_dealloc)
        with a show ?thesis by (rule holds_afterExport)
      qed
    qed
  qed
qed

subsection \<open>The instrumentation changes nothing else\<close>

definition erase :: "('g traced, 'w) inst \<Rightarrow> ('g, 'w) inst" where
  "erase s = \<lparr>guest = fst (guest s), world = world s, router = router s,
     interruptCallback = interruptCallback s, promiseRejectionHandler = promiseRejectionHandler s,
     interrupted = interrupted s, pendingRPCs = pendingRPCs s, scriptError = scriptError s,
     hasError = hasError s, resultValue = resultValue s, hasResult = hasResult s\<rparr>"

lemma erase_simps [simp]:
  "guest (erase s) = fst (guest s)" "world (erase s) = world s" "router (erase s) = router s"
  "interruptCallback (erase s) = interruptCallback s"
  "promiseRejectionHandler (erase s) = promiseRejectionHandler s" "interrupted (erase s) = interrupted s"
  "pendingRPCs (erase s) = pendingRPCs s" "scriptError (erase s) = scriptError s"
  "hasError (erase s) = hasError s" "resultValue (erase s) = resultValue s" "hasResult (erase s) = hasResult s"
  "erase (s\<lparr>guest := g\<rparr>) = (erase s)\<lparr>guest := fst g\<rparr>"
  "erase (s\<lparr>world := w\<rparr>) = (erase s)\<lparr>world := w\<rparr>"
  "erase (s\<lparr>pendingRPCs := q\<rparr>) = (erase s)\<lparr>pendingRPCs := q\<rparr>"
  "erase (s\<lparr>interrupted := i\<rparr>) = (erase s)\<lparr>interrupted := i\<rparr>"
  "erase (s\<lparr>scriptError := e, hasError := he\<rparr>) = (erase s)\<lparr>scriptError := e, hasError := he\<rparr>"
  "erase (s\<lparr>resultValue := v, hasResult := hr\<rparr>) = (erase s)\<lparr>resultValue := v, hasResult := hr\<rparr>"
  by (simp_all add: erase_def)

lemma erase_alloc: "wasmAlloc M n (fst g) = map_prod fst id (wasmAlloc (traced M) n g)"
  by (cases g) (auto simp: wasmAlloc_def traced_def Let_def split: prod.splits sum.splits)

lemma erase_memory [simp]:
  "wasmReadCopy (traced M) p n g = wasmReadCopy M p n (fst g)"
  "wasmReadString (traced M) p n g = wasmReadString M p n (fst g)"
  "fst (wasmWrite (traced M) p d g) = wasmWrite M p d (fst g)"
  "fst (wasmDealloc (traced M) p k g) = wasmDealloc M p k (fst g)"
  by (cases g; simp add: wasmReadCopy_def wasmReadString_def wasmWrite_def wasmDealloc_def traced_def Let_def)+

lemma erase_sync_result:
  "writeSyncRPCResult M tag payload (fst g) = map_prod fst id (writeSyncRPCResult (traced M) tag payload g)"
  by (simp add: writeSyncRPCResult_def erase_alloc Let_def traced_def split_beta split: sum.splits)

lemma erase_import: "host_import M E hc (erase s) = map_prod erase id (host_import (traced M) E hc s)"
proof (cases hc)
  case (CallRPCSync mp ml pp pl)
  then show ?thesis
    by (simp add: hostRPCSync_def Let_def erase_sync_result split_beta split: sum.splits option.splits)
qed (auto simp: host_imports Let_def split: sum.splits option.splits prod.splits go_error.splits)

lemma erase_signals: "asyncSignals E (erase s) = erase (asyncSignals E s)"
  by (simp add: asyncSignals_def Interrupt_def split: prod.splits)

lemma erase_callExport:
  "callExport M E r (erase s) = map_option (map_prod erase id) (callExport (traced M) E (trace_run r gh) s)"
proof (induction r arbitrary: s gh)
  case (CallsHost g hc k)
  have s: "(erase s)\<lparr>guest := g\<rparr> = erase (s\<lparr>guest := (g, gh)\<rparr>)" by simp
  show ?case
    using CallsHost.IH [OF rangeI rangeI]
    by (simp add: s erase_signals erase_import split_beta del: erase_simps(12))
qed simp_all

lemma erase_call:
  "callExport M E r ((erase s)\<lparr>guest := fst g\<rparr>)
     = map_option (map_prod erase id) (callExport (traced M) E (trace_run r gh) (s\<lparr>guest := g\<rparr>))"
  using erase_callExport [of M E r "s\<lparr>guest := g\<rparr>" gh] by simp

lemma erase_bind:
  assumes "x' = map_option (map_prod f id) x" and "\<And>t q. x = Some (t, q) \<Longrightarrow> k' (f t, q) = map_option h (k (t, q))"
  shows "Option.bind x' k' = map_option h (Option.bind x k)"
  using assms by (cases x) auto

lemma erase_resolveRPC:
  "resolveRPC M E pid v (erase s) = map_option (map_prod erase id) (resolveRPC (traced M) E pid v s)"
proof (cases "wasmAlloc (traced M) (length (or_null v)) (guest s)")
  case (Pair g r)
  then show ?thesis
    using erase_call [where g = "wasmWrite (traced M) (projr r) (or_null v) g" and M = M and E = E and s = s]
    by (cases r) (auto simp: resolveRPC_def erase_alloc Let_def traced_exports intro!: erase_bind)
qed

lemma erase_rejectRPC:
  "rejectRPC M E pid e (erase s) = map_option (map_prod erase id) (rejectRPC (traced M) E pid e s)"
proof (cases "wasmAlloc (traced M) (length (reject_payload e)) (guest s)")
  case (Pair g r)
  then show ?thesis
    using erase_call [where g = "wasmWrite (traced M) (projr r) (reject_payload e) g" and M = M and E = E and s = s]
    by (cases r) (auto simp: rejectRPC_def erase_alloc Let_def traced_exports intro!: erase_bind)
qed

lemma erase_feedBack:
  "feedBack M E res (erase s) = map_option (map_prod erase id) (feedBack (traced M) E res s)"
  by (auto simp: feedBack_def split: option.splits
      intro!: erase_bind erase_resolveRPC erase_rejectRPC)

lemma erase_loopBody:
  "loopBody M E res (erase s) = map_option (map_prod erase id) (loopBody (traced M) E res s)"
  by (auto simp: loopBody_def loopVerdict_def launchPendingRPCs_def split: option.splits
      intro!: erase_bind erase_feedBack)

lemma erase_receiveResult:
  "receiveResult E rs (erase s) = map_option (map_prod erase id) (receiveResult E rs s)"
  by (auto simp: receiveResult_def handlerStep_def Let_def split: option.splits prod.splits)

lemma erase_abandon: "erase (abandon E rs s) = abandon E rs (erase s)"
  unfolding abandon_def
  by (induction rs arbitrary: s) (simp_all add: handlerStep_def split_beta)

lemma erase_rpcLoop:
  fixes t :: "('g, 'w) inst"
  assumes ret: "rpcLoop M E rs n t = Some r"
  shows "t = erase s \<Longrightarrow> \<exists>s'. rpcLoop (traced M) E rs n s = Some (s', snd r) \<and> erase s' = fst r"
proof -
  have "\<forall>s. t = erase s \<longrightarrow> (\<exists>s'. rpcLoop (traced M) E rs n s = Some (s', snd r) \<and> erase s' = fst r)"
  proof (rule rpcLoop.raw_induct [where P = "\<lambda>M E rs n t r. \<forall>s. t = erase s \<longrightarrow>
        (\<exists>s'. rpcLoop (traced M) E rs n s = Some (s', snd r) \<and> erase s' = fst r)", OF _ ret])
    fix f M E rs n and t :: "('g, 'w) inst" and r
    assume IH: "\<And>M E rs n t r. f M E rs n t = Some r \<Longrightarrow> \<forall>s. t = erase s \<longrightarrow>
        (\<exists>s'. rpcLoop (traced M) E rs n s = Some (s', snd r) \<and> erase s' = fst r)"
      and eq: "(if n > 0 then do {
          (s1, rs1, res) \<leftarrow> receiveResult E rs t;
          (s2, v) \<leftarrow> loopBody M E res s1;
          (case v of Stop e \<Rightarrow> Some (abandon E rs1 s2, e)
           | GoOn batch \<Rightarrow> f M E (rs1 @ batch) (n - 1 + length batch) s2) }
        else Some (t, None)) = Some r"
    show "\<forall>s. t = erase s \<longrightarrow> (\<exists>s'. rpcLoop (traced M) E rs n s = Some (s', snd r) \<and> erase s' = fst r)"
    proof (intro allI impI)
      fix s :: "('g traced, 'w) inst"
      assume t: "t = erase s"
      show "\<exists>s'. rpcLoop (traced M) E rs n s = Some (s', snd r) \<and> erase s' = fst r"
        using eq
      proof (cases rule: rpcLoop_unfold_cases)
        case empty
        with t show ?thesis by (simp add: rpcLoop.simps)
      next
        case (stop s1 rs1 res s2 e)
        from stop(2) t obtain u1 where u1: "receiveResult E rs s = Some (u1, rs1, res)" "s1 = erase u1"
          by (auto simp: erase_receiveResult)
        with stop(3) obtain u2 where "loopBody (traced M) E res u1 = Some (u2, Stop e)" "s2 = erase u2"
          by (auto simp: erase_loopBody)
        with u1 stop show ?thesis by (simp add: rpcLoop.simps [of "traced M"] erase_abandon)
      next
        case (go s1 rs1 res s2 batch)
        from go(2) t obtain u1 where u1: "receiveResult E rs s = Some (u1, rs1, res)" "s1 = erase u1"
          by (auto simp: erase_receiveResult)
        with go(3) obtain u2 where "loopBody (traced M) E res u1 = Some (u2, GoOn batch)" "s2 = erase u2"
          by (auto simp: erase_loopBody)
        with u1 go(1) IH [OF go(4)] show ?thesis by (simp add: rpcLoop.simps [of "traced M" E rs n])
      qed
    qed
  qed
  then show "t = erase s \<Longrightarrow> \<exists>s'. rpcLoop (traced M) E rs n s = Some (s', snd r) \<and> erase s' = fst r"
    by blast
qed

lemma erase_serviceRPCLoop:
  "serviceRPCLoop M E (erase s) = Some (t, err) \<Longrightarrow>
    \<exists>s'. serviceRPCLoop (traced M) E s = Some (s', err) \<and> erase s' = t"
  using erase_rpcLoop [of M E "pendingRPCs s" "length (pendingRPCs s)" _ "(t, err)" "s\<lparr>pendingRPCs := []\<rparr>"]
  by (auto simp: serviceRPCLoop_def launchPendingRPCs_def split: if_splits)

lemma erase_endCall:
  assumes "endCall M E opts (erase s) = Some (t, v, e)"
  shows "\<exists>s'. endCall (traced M) E opts s = Some (s', v, e) \<and> erase s' = t"
proof (cases "async_opt opts")
  case True
  with assms obtain t1 err where l: "serviceRPCLoop M E (erase s) = Some (t1, err)"
    and r: "(case err of Some e \<Rightarrow> Some (t1, None, Some e) | None \<Rightarrow> Some (t1, callOutcome t1)) = Some (t, v, e)"
    by (auto simp: endCall_def elim!: bind_SomeE)
  from erase_serviceRPCLoop [OF l] obtain s' where
    "serviceRPCLoop (traced M) E s = Some (s', err)" "erase s' = t1" by blast
  with True r show ?thesis by (auto simp: endCall_def callOutcome_def split: option.splits if_splits)
next
  case False
  with assms show ?thesis by (auto simp: endCall_def callOutcome_def split: if_splits)
qed

lemma erase_afterExport:
  assumes "afterExport M E opts context (erase s) r = Some (t, v, e)"
  shows "\<exists>s'. afterExport (traced M) E opts context s r = Some (s', v, e) \<and> erase s' = t"
  using assms erase_endCall [of M E opts s t v e] by (cases r) (auto simp: afterExport_def)

lemma erase_export_after:
  assumes "Option.bind (callExport M E r ((erase s)\<lparr>guest := fst g\<rparr>))
      (\<lambda>(s1, q). afterExport M E opts context (s1\<lparr>guest := F (guest s1)\<rparr>) q) = Some (t, v, e)"
    and F: "\<And>g. fst (F' g) = F (fst g)"
  shows "\<exists>s'. Option.bind (callExport (traced M) E (trace_run r gh) (s\<lparr>guest := g\<rparr>))
      (\<lambda>(s1, q). afterExport (traced M) E opts context (s1\<lparr>guest := F' (guest s1)\<rparr>) q) = Some (s', v, e)
    \<and> erase s' = t"
proof -
  from assms(1) obtain u q where c: "callExport M E r ((erase s)\<lparr>guest := fst g\<rparr>) = Some (u, q)"
    and a: "afterExport M E opts context (u\<lparr>guest := F (guest u)\<rparr>) q = Some (t, v, e)"
    by (auto elim!: bind_SomeE)
  from c obtain u' where u': "callExport (traced M) E (trace_run r gh) (s\<lparr>guest := g\<rparr>) = Some (u', q)" "u = erase u'"
    by (auto simp: erase_call [where gh = gh])
  have "afterExport M E opts context (erase (u'\<lparr>guest := F' (guest u')\<rparr>)) q = Some (t, v, e)"
    using a u'(2) F by simp
  from erase_afterExport [OF this] u'(1) show ?thesis by simp
qed

lemma erase_beginCall: "beginCall (erase s) = erase (beginCall s)"
  by (simp add: beginCall_def resetState_def erase_def)

lemma erase_Eval:
  assumes "Eval M E source options (erase s) = Some (t, v, e)"
  shows "\<exists>s'. Eval (traced M) E source options s = Some (s', v, e) \<and> erase s' = t"
proof (cases "wasmAlloc (traced M) (length source) (guest s)")
  case (Pair g r)
  show ?thesis
  proof (cases r)
    case (Inl x)
    with Pair assms show ?thesis by (auto simp: Eval_def erase_beginCall erase_alloc)
  next
    case (Inr ptr)
    let ?g = "wasmWrite (traced M) ptr source g"
    show ?thesis
      using Pair Inr assms erase_export_after [where g = ?g and gh = "enter (snd ?g)"
          and F' = "wasmDealloc (traced M) ptr (length source)" and F = "wasmDealloc M ptr (length source)"]
      by (auto simp: Eval_def erase_beginCall erase_alloc traced_exports Let_def)
  qed
qed

lemma erase_EvalCompiled:
  assumes "EvalCompiled M E source options (erase s) = Some (t, v, e)"
  shows "\<exists>s'. EvalCompiled (traced M) E source options s = Some (s', v, e) \<and> erase s' = t"
proof (cases "wasmAlloc (traced M) (length source) (guest s)")
  case (Pair g r)
  show ?thesis
  proof (cases r)
    case (Inl x)
    with Pair assms show ?thesis by (auto simp: EvalCompiled_def erase_beginCall erase_alloc)
  next
    case (Inr ptr)
    let ?g = "wasmWrite (traced M) ptr source g"
    show ?thesis
      using Pair Inr assms erase_export_after [where g = ?g and gh = "enter (snd ?g)"
          and F' = "wasmDealloc (traced M) ptr (length source)" and F = "wasmDealloc M ptr (length source)"]
      by (auto simp: EvalCompiled_def erase_beginCall erase_alloc traced_exports Let_def)
  qed
qed

lemma erase_DispatchEvent:
  assumes "DispatchEvent M E name params options (erase s) = Some (t, v, e)"
  shows "\<exists>s'. DispatchEvent (traced M) E name params options s = Some (s', v, e) \<and> erase s' = t"
proof (cases "wasmAlloc (traced M) (length name) (guest s)")
  case (Pair g r)
  show ?thesis
  proof (cases r)
    case (Inl x)
    with Pair assms show ?thesis by (auto simp: DispatchEvent_def erase_beginCall erase_alloc)
  next
    case (Inr ptr)
    let ?g1 = "wasmWrite (traced M) ptr name g"
    let ?n = "length (raw_bytes params)"
    have e1: "wasmAlloc M ?n (wasmWrite M ptr name (fst g)) = map_prod fst id (wasmAlloc (traced M) ?n ?g1)"
      using erase_alloc [of M ?n ?g1] by simp
    show ?thesis
    proof (cases "wasmAlloc (traced M) ?n ?g1")
      case p2: (Pair g2 r2)
      show ?thesis
      proof (cases r2)
        case (Inl x)
        with Pair \<open>r = Inr ptr\<close> p2 assms show ?thesis
          by (auto simp: DispatchEvent_def erase_beginCall erase_alloc [of M _ "guest s"] e1 Let_def)
      next
        case r2: (Inr ptr2)
        let ?g = "wasmWrite (traced M) ptr2 (raw_bytes params) g2"
        show ?thesis
          using Pair Inr p2 r2 assms erase_export_after [where g = ?g and gh = "enter (snd ?g)"
              and F' = "\<lambda>g. wasmDealloc (traced M) ptr2 ?n (wasmDealloc (traced M) ptr (length name) g)"
              and F = "\<lambda>g. wasmDealloc M ptr2 ?n (wasmDealloc M ptr (length name) g)"]
          by (auto simp: DispatchEvent_def erase_beginCall erase_alloc [of M _ "guest s"] e1 traced_exports Let_def)
      qed
    qed
  qed
qed

lemma erase_perform:
  "perform M E c options (erase s) = Some (t, v, e) \<Longrightarrow>
    \<exists>s'. perform (traced M) E c options s = Some (s', v, e) \<and> erase s' = t"
  by (cases c) (simp_all add: erase_Eval erase_EvalCompiled erase_DispatchEvent)

subsection \<open>No leaks\<close>

text \<open>An instance with an empty record of buffers.\<close>

definition attach :: "('g, 'w) inst \<Rightarrow> ('g traced, 'w) inst" where
  "attach s = \<lparr>guest = (guest s, \<lparr>inside = False, got = [], gave = []\<rparr>), world = world s, router = router s,
     interruptCallback = interruptCallback s, promiseRejectionHandler = promiseRejectionHandler s,
     interrupted = interrupted s, pendingRPCs = pendingRPCs s, scriptError = scriptError s,
     hasError = hasError s, resultValue = resultValue s, hasResult = hasResult s\<rparr>"

lemma erase_attach: "erase (attach s) = s"
  by (simp add: erase_def attach_def)

text \<open>
  C2. No call leaks a buffer: for every call that returns, on whatever path (errors and traps of the
  guest included), the same call on the instrumented module does the same and shows that the buffers
  the host obtained from the guest's allocator (for the source, bytecode, event name and parameters,
  and for the value or error of each RPC it settled) have been given back, each with the address and
  the size it was obtained with, and none twice.
\<close>

theorem calls_free_buffers:
  assumes "perform M E c options s = Some (s', v, e)"
  shows "\<exists>t. perform (traced M) E c options (attach s) = Some (t, v, e) \<and> erase t = s' \<and>
    mset (gave (snd (guest t))) = mset (got (snd (guest t)))"
proof -
  from assms have "perform M E c options (erase (attach s)) = Some (s', v, e)"
    by (simp only: erase_attach)
  from erase_perform [OF this] obtain t where
    t: "perform (traced M) E c options (attach s) = Some (t, v, e)" "erase t = s'" by blast
  have "holds {#} (guest (attach s))" by (simp add: holds_def attach_def)
  with t(1) have "holds {#} (guest t)"
    by (cases c) (auto intro: holds_Eval holds_EvalCompiled holds_DispatchEvent)
  with t show ?thesis by (simp add: holds_def)
qed

theorem calls_free_buffers_witness:
  "\<exists>t. perform (traced sample_wasm) sample_env (CallEval ''ping'') [WithAsyncOption] (attach sample_inst)
      = Some (t, Some ''ping'', None) \<and> mset (gave (snd (guest t))) = mset (got (snd (guest t)))"
proof -
  obtain s' where p: "perform sample_wasm sample_env (CallEval ''ping'') [WithAsyncOption] sample_inst
     = Some (s', Some ''ping'', None)"
    using sample_eval_async by blast
  from calls_free_buffers [OF p] show ?thesis by blast
qed

end
