(* ===== verification/Go_Runtime.thy ===== *)
theory Go_Runtime
  imports Execution
begin

text \<open>
  \<open>kafig-go/runtime.go\<close>: \<open>New\<close>, \<open>Runtime.Instance\<close>, \<open>Runtime.Compile\<close> with \<open>compileBytecode\<close>, and
  \<open>Runtime.Close\<close>. The WASM engine is a parameter; what the code does to its resources is kept in the
  state \<open>host\<close>: the engine runtimes and the compilation caches that are open, by handle.
\<close>

subsection \<open>Engine and resources\<close>

record runtimeConfig =
  cfgCache :: nat
  cfgCloseOnContextDone :: bool
  cfgMemoryLimitPages :: "u32 option"

record host =
  nextHandle :: nat
  openRuntimes :: "(nat \<times> runtimeConfig) list"
  openCaches :: "nat list"

definition newWazeroRuntime :: "runtimeConfig \<Rightarrow> host \<Rightarrow> host \<times> nat" where
  "newWazeroRuntime cfg h =
     (h\<lparr>nextHandle := Suc (nextHandle h), openRuntimes := (nextHandle h, cfg) # openRuntimes h\<rparr>,
      nextHandle h)"

definition closeWazeroRuntime :: "nat \<Rightarrow> host \<Rightarrow> host" where
  "closeWazeroRuntime r h = h\<lparr>openRuntimes := filter (\<lambda>(r', cfg). r' \<noteq> r) (openRuntimes h)\<rparr>"

definition newCompilationCache :: "host \<Rightarrow> host \<times> nat" where
  "newCompilationCache h = (h\<lparr>nextHandle := Suc (nextHandle h), openCaches := nextHandle h # openCaches h\<rparr>,
     nextHandle h)"

definition closeCache :: "nat \<Rightarrow> host \<Rightarrow> host" where
  "closeCache c h = h\<lparr>openCaches := remove1 c (openCaches h)\<rparr>"

text \<open>
  What the engine answers, by the configuration of the runtime: to registering the five host functions in a runtime, to compiling a
  binary (the compiled module's later instantiation is part of it), and to closing. The default
  binary embedded in the library is \<open>embedded\<close>.
\<close>

record 'g engine =
  embedded :: string
  registerEnv :: "runtimeConfig \<Rightarrow> go_error option"
  compileModule :: "runtimeConfig \<Rightarrow> string \<Rightarrow> go_error + 'g compiled_module"
  closeRuntimeError :: "nat \<Rightarrow> go_error option"
  closeCacheError :: "nat \<Rightarrow> go_error option"

record 'g Runtime =
  wazeroRuntime :: nat
  compiled :: "'g compiled_module"
  rtModule :: string
  cache :: nat
  ownCache :: bool
  opts :: "nat runtimeOptions"

subsection \<open>Compiling to bytecode\<close>

text \<open>
  The temporary module runs with stub imports that do nothing and answer 0, so an execution is a
  function of the guest alone; \<^const>\<open>None\<close> when the export does not return.
\<close>

fun stub_import :: "host_call \<Rightarrow> host_ret" where
  "stub_import (CallRPC mp ml pp pl pid) = RetNone"
| "stub_import (CallSetResult rp rl e) = RetNone"
| "stub_import (CallRPCSync mp ml pp pl) = RetI64 0"
| "stub_import (CallShouldInterrupt n t) = RetI32 0"
| "stub_import (CallPromiseRejection ep el) = RetI32 0"

primrec stubRun :: "'g run \<Rightarrow> ('g \<times> (go_error + u64 list)) option" where
  "stubRun (Returned g rs) = Some (g, Inr rs)"
| "stubRun (Trapped g e) = Some (g, Inl e)"
| "stubRun NeverReturns = None"
| "stubRun (CallsHost g hc k) = stubRun (k g (stub_import hc))"

text \<open>
  From the instantiated module on: the source is written to a buffer, compiled, and the bytecode is
  copied out of the buffer the packed result points to. An export that gives no result makes
  \<open>results[0]\<close> panic, and the call does not return.
\<close>

definition runCompile :: "'g compiled_module \<Rightarrow> 'g \<Rightarrow> string \<Rightarrow> bool \<Rightarrow> ('g \<times> (go_error + string)) option" where
  "runCompile C g source isAsync =
     (let M = wasmOps C; n = of_nat (length source) :: u64 in
      case fnAlloc M g n of
        (g1, Inl e) \<Rightarrow> Some (g1, Inl (ErrWrap ''alloc: '' e))
      | (g1, Inr p) \<Rightarrow>
     (let ptr = ucast p :: u32 in
      if ptr = 0 then Some (g1, Inl (ErrMsg ''alloc returned null''))
      else do {
        (g2, r) \<leftarrow> stubRun (fnCompile C (memWrite M g1 ptr source) (ucast ptr) n (if isAsync then 1 else 0));
        (case r of
           Inl e \<Rightarrow> Some (g2, Inl (ErrWrap ''compile call: '' e))
         | Inr [] \<Rightarrow> None
         | Inr (packed # _) \<Rightarrow>
        (let g3 = fnDealloc M g2 (ucast ptr) n in
         if packed = 0 then Some (g3, Inl (ErrMsg ''compilation failed (syntax error or invalid source)''))
         else
        (let bcPtr = ucast (drop_bit 32 packed) :: u32; bcLen = ucast (packed AND 0xFFFFFFFF) :: u32 in
         case memRead M g3 bcPtr bcLen of
           None \<Rightarrow> Some (g3, Inl (ErrMsg ''failed to read bytecode from WASM memory''))
         | Some bcData \<Rightarrow> Some (fnDealloc M g3 (ucast bcPtr) (ucast bcLen), Inr bcData))))
      }))"

text \<open>The deferred \<open>wzr.Close(ctx)\<close> runs on every path.\<close>

definition compileConfig :: "nat \<Rightarrow> nat runtimeOptions \<Rightarrow> runtimeConfig" where
  "compileConfig c o' = \<lparr>cfgCache = c, cfgCloseOnContextDone = closeOnContextDone o',
     cfgMemoryLimitPages = None\<rparr>"

definition compileBytecode :: "'g engine \<Rightarrow> 'g Runtime \<Rightarrow> string \<Rightarrow> bool \<Rightarrow> host \<Rightarrow>
    (host \<times> (go_error + string)) option" where
  "compileBytecode W rt source isAsync h =
     (let cfg = compileConfig (cache rt) (opts rt) in
      case newWazeroRuntime cfg h of (h1, wzr) \<Rightarrow>
      let finish = (\<lambda>res. Some (closeWazeroRuntime wzr h1, res)) in
      case registerEnv W cfg of
        Some e \<Rightarrow> finish (Inl (ErrWrap ''register host module: '' e))
      | None \<Rightarrow>
     (case compileModule W cfg (rtModule rt) of
        Inl e \<Rightarrow> finish (Inl (ErrWrap ''compile module: '' e))
      | Inr C \<Rightarrow>
     (case instantiateModule C of
        Inl e \<Rightarrow> finish (Inl (ErrWrap ''instantiate module: '' e))
      | Inr g \<Rightarrow>
          if \<not> (exportedFunction C ''compile'' \<and> exportedFunction C ''alloc'' \<and> exportedFunction C ''dealloc'')
          then finish (Inl (ErrMsg ''WASM module missing required export (compile, alloc, or dealloc)''))
          else do { (g', res) \<leftarrow> runCompile C g source isAsync; finish res })))"

definition Compile :: "'g engine \<Rightarrow> 'g Runtime \<Rightarrow> string \<Rightarrow> EvalOption list \<Rightarrow> host \<Rightarrow>
    (host \<times> (go_error + string)) option" where
  "Compile W rt source options h = compileBytecode W rt source (async_opt (evalOpts options)) h"

subsection \<open>Creating and closing a runtime\<close>

definition New :: "'g engine \<Rightarrow> nat RuntimeOption list \<Rightarrow> host \<Rightarrow> (host \<times> (go_error + 'g Runtime)) option" where
  "New W options h0 =
     (let o' = applyOptions options runtimeDefaults;
          binary = (case optModule o' of None \<Rightarrow> embedded W | Some m \<Rightarrow> m);
          own = (compilationCache o' = None);
          (h1, c) = (case compilationCache o' of None \<Rightarrow> newCompilationCache h0 | Some c \<Rightarrow> (h0, c));
          cfg = \<lparr>cfgCache = c, cfgCloseOnContextDone = closeOnContextDone o',
                 cfgMemoryLimitPages = (if wasmMemoryLimitPages o' > 0 then Some (wasmMemoryLimitPages o') else None)\<rparr>;
          (h2, r) = newWazeroRuntime cfg h1
      in case registerEnv W cfg of
           Some e \<Rightarrow> Some (closeWazeroRuntime r h2, Inl (ErrWrap ''kafig: register host module: '' e))
         | None \<Rightarrow>
        (case compileModule W cfg binary of
           Inl e \<Rightarrow> Some (closeWazeroRuntime r h2, Inl (ErrWrap ''kafig: compile module: '' e))
         | Inr C \<Rightarrow>
        (let rt = \<lparr>wazeroRuntime = r, compiled = C, rtModule = binary, cache = c, ownCache = own, opts = o'\<rparr>
         in if prelude o' \<noteq> '''' then do {
              (h3, res) \<leftarrow> compileBytecode W rt (prelude o') False h2;
              (case res of
                 Inl e \<Rightarrow> Some ((if own then closeCache c else id) (closeWazeroRuntime r h3),
                                Inl (ErrWrap ''kafig: compile prelude: '' e))
               | Inr bytecode \<Rightarrow> Some (h3, Inr (rt\<lparr>opts := o'\<lparr>rtPreludeBytecode := Some bytecode\<rparr>\<rparr>)))
            }
            else Some (h2, Inr rt))))"

definition InstanceOf :: "'g Runtime \<Rightarrow> 'w host_env \<Rightarrow> 'w InstanceOption list \<Rightarrow> 'w \<Rightarrow>
    ('w \<times> 'g option \<times> (go_error + ('g, 'w) inst)) option" where
  "InstanceOf rt E options w =
     (let o' = applyOptions options (instanceDefaults (opts rt)) in
      case optRouter o' of
        None \<Rightarrow> Some (w, None, Inl (ErrMsg ''kafig: RPCRouter is required (use WithRouter)''))
      | Some r \<Rightarrow> newInstance (compiled rt) E o' r w)"

text \<open>The error of closing the runtime comes first, that of closing an own cache second.\<close>

definition closeRuntime :: "'g engine \<Rightarrow> 'g Runtime \<Rightarrow> host \<Rightarrow> host \<times> go_error option" where
  "closeRuntime W rt h =
     (let err = closeRuntimeError W (wazeroRuntime rt);
          h1 = closeWazeroRuntime (wazeroRuntime rt) h
      in if ownCache rt
         then (closeCache (cache rt) h1,
               case err of Some e \<Rightarrow> Some e | None \<Rightarrow> closeCacheError W (cache rt))
         else (h1, err))"

subsection \<open>Facts\<close>

text \<open>Handles are fresh: those in use are below the next one.\<close>

definition host_wf :: "host \<Rightarrow> bool" where
  "host_wf h = (list_all (\<lambda>(r, cfg). r < nextHandle h) (openRuntimes h) \<and>
     list_all (\<lambda>c. c < nextHandle h) (openCaches h))"

lemma close_fresh: "host_wf h \<Longrightarrow> filter (\<lambda>(r', cfg). r' \<noteq> nextHandle h) (openRuntimes h) = openRuntimes h"
  by (rule filter_True) (auto simp: host_wf_def list_all_iff)

text \<open>Opening a runtime and closing it again leaves the open ones as they were.\<close>

lemma close_newWazeroRuntime:
  assumes "host_wf h" and "newWazeroRuntime cfg h = (h1, r)"
  shows "openRuntimes (closeWazeroRuntime r h1) = openRuntimes h" and "openCaches (closeWazeroRuntime r h1) = openCaches h"
    and "host_wf (closeWazeroRuntime r h1)"
  using assms close_fresh [OF assms(1)]
  by (auto simp: newWazeroRuntime_def closeWazeroRuntime_def host_wf_def list_all_iff less_Suc_eq)

lemma compileBytecode_host:
  assumes "compileBytecode W rt source a h = Some (h', res)"
  shows "h' = closeWazeroRuntime (snd (newWazeroRuntime (compileConfig (cache rt) (opts rt)) h))
    (fst (newWazeroRuntime (compileConfig (cache rt) (opts rt)) h))"
  using assms
  by (auto simp: compileBytecode_def Let_def elim!: bind_SomeE split: prod.splits option.splits sum.splits if_splits)

lemma compileBytecode_open:
  assumes "host_wf h" and "compileBytecode W rt source a h = Some (h', res)"
  shows "openRuntimes h' = openRuntimes h \<and> openCaches h' = openCaches h \<and> host_wf h'"
  using close_newWazeroRuntime [OF assms(1)] compileBytecode_host [OF assms(2)] by (metis prod.collapse)

end
