(* ===== verification/Guest_Alloc.thy ===== *)
theory Guest_Alloc
  imports Wasm_Module
begin

text \<open>
  \<open>kafig-runtime/src/alloc.rs\<close>: the allocator the guest exports. The global allocator of the Rust
  standard library is a parameter: \<open>std_alloc\<close> gives the address of a fresh buffer, 0 when it is
  out of memory, and \<open>std_dealloc\<close> takes a buffer back.
\<close>

text \<open>
  \<open>Layout::from_size_align(len, 1).unwrap()\<close> panics on a length past \<open>isize::MAX\<close>: the export traps,
  with the engine's error \<open>trap\<close>. The callers of \<open>dealloc\<close> drop that error, so there the trap is no
  change of state.
\<close>

definition layout_ok :: "u32 \<Rightarrow> bool" where
  "layout_ok n = (unat n < 2 ^ 31)"

definition rust_alloc :: "('g \<Rightarrow> u32 \<Rightarrow> 'g \<times> u32) \<Rightarrow> go_error \<Rightarrow> 'g \<Rightarrow> u64 \<Rightarrow> 'g \<times> (go_error + u64)" where
  "rust_alloc std_alloc trap g len =
     (let n = ucast len :: u32 in
      if n = 0 then (g, Inr 0)
      else if \<not> layout_ok n then (g, Inl trap)
      else (case std_alloc g n of (g', p) \<Rightarrow> (g', Inr (ucast p))))"

definition rust_dealloc :: "('g \<Rightarrow> u32 \<Rightarrow> u32 \<Rightarrow> 'g) \<Rightarrow> 'g \<Rightarrow> u64 \<Rightarrow> u64 \<Rightarrow> 'g" where
  "rust_dealloc std_dealloc g ptr len =
     (let p = ucast ptr :: u32; n = ucast len :: u32 in
      if p = 0 \<or> n = 0 then g
      else if \<not> layout_ok n then g
      else std_dealloc g p n)"

text \<open>A request of no bytes is answered with the null pointer and allocates nothing.\<close>

lemma rust_alloc_empty: "rust_alloc std_alloc trap g 0 = (g, Inr 0)"
  by (simp add: rust_alloc_def Let_def)

text \<open>The clamp of \<open>wasmAlloc\<close> keeps the host from asking for no bytes.\<close>

lemma wasmAlloc_clamp: "wasmAlloc M 0 g = wasmAlloc M 1 g"
  by (simp add: wasmAlloc_def)

text \<open>A request past that bound is an error of \<open>wasmAlloc\<close>, and nothing is allocated.\<close>

lemma rust_wasmAlloc_too_large:
  assumes "fnAlloc M = rust_alloc std_alloc trap" and "2 ^ 31 \<le> n" and "n < 2 ^ 32"
  shows "wasmAlloc M n g = (g, Inl trap)"
proof -
  have u: "(ucast (of_nat n :: u64) :: u32) = of_nat n"
    by (rule bit_word_eqI) (simp add: bit_simps)
  have n: "unat (of_nat n :: u32) = n"
    using assms(3) by (simp add: unat_of_nat take_bit_nat_eq_self_iff)
  then have "(of_nat n :: u32) \<noteq> 0" using assms(2) by auto
  moreover have "\<not> layout_ok (of_nat n)" using n assms(2) by (simp add: layout_ok_def)
  ultimately show ?thesis using assms u
    by (simp add: wasmAlloc_def rust_alloc_def Let_def)
qed

lemma rust_wasmAlloc:
  assumes "fnAlloc M = rust_alloc std_alloc trap" and "0 < n" and "n < 2 ^ 31"
  shows "wasmAlloc M n g = (case std_alloc g (of_nat n) of (g', p) \<Rightarrow>
     (g', if p = 0 then Inl (ErrMsg (''WASM alloc returned null (out of memory, requested '' @ show_nat n @ '' bytes)''))
          else Inr p))"
proof -
  have u: "(ucast (of_nat n :: u64) :: u32) = of_nat n"
    by (rule bit_word_eqI) (simp add: bit_simps)
  have n: "unat (of_nat n :: u32) = n"
    using assms(3) by (simp add: unat_of_nat take_bit_nat_eq_self_iff)
  have "(of_nat n :: u32) \<noteq> 0"
  proof
    assume "(of_nat n :: u32) = 0"
    then have "unat (of_nat n :: u32) = 0" by simp
    with n assms(2) show False by simp
  qed
  moreover have "layout_ok (of_nat n)" using n assms(3) by (simp add: layout_ok_def)
  moreover have "(ucast (ucast p :: u64) :: u32) = p" for p :: u32
    by (rule bit_word_eqI) (simp add: bit_simps)
  ultimately show ?thesis using assms(1,2) u
    by (auto simp: wasmAlloc_def rust_alloc_def Let_def split: prod.splits)
qed

end
