(* ===== verification/Runtime_Spec.thy ===== *)
theory Runtime_Spec
  imports Go_Runtime Creation_Spec Guest_Alloc
begin

text \<open>
  What \<open>New\<close>, \<open>Instance\<close>, \<open>Compile\<close> and \<open>Close\<close> of \<open>kafig-go/runtime.go\<close> do to the resources of the
  engine, on success and on every error path.
\<close>

subsection \<open>A sample engine\<close>

definition sample_engine :: "sample engine" where
  "sample_engine = \<lparr>embedded = ''wasm'', registerEnv = (\<lambda>_. None),
     compileModule = (\<lambda>cfg b. if b = ''wasm'' then Inr (sample_module\<lparr>exportedFunction := (\<lambda>_. True)\<rparr>)
                              else Inl (ErrMsg ''invalid magic number'')),
     closeRuntimeError = (\<lambda>_. None), closeCacheError = (\<lambda>_. None)\<rparr>"

definition sample_host :: host where
  "sample_host = \<lparr>nextHandle = 5, openRuntimes = [], openCaches = [2]\<rparr>"

lemma sample_host_wf: "host_wf sample_host"
  by (simp add: host_wf_def sample_host_def)

subsection \<open>Creating and closing\<close>

lemma New_open:
  assumes "host_wf h0" and "New W options h0 = Some (h, res)"
    and "o' = applyOptions options runtimeDefaults"
  shows "(case res of
      Inl e \<Rightarrow> openRuntimes h = openRuntimes h0 \<and> (compilationCache o' \<noteq> None \<longrightarrow> openCaches h = openCaches h0)
    | Inr rt \<Rightarrow> (\<exists>cfg. openRuntimes h = (wazeroRuntime rt, cfg) # openRuntimes h0 \<and>
          cfgMemoryLimitPages cfg = (if wasmMemoryLimitPages o' = 0 then None else Some (wasmMemoryLimitPages o'))) \<and>
        wazeroRuntime rt \<notin> fst ` set (openRuntimes h0) \<and>
        ownCache rt = (compilationCache o' = None) \<and>
        openCaches h = (if ownCache rt then cache rt # openCaches h0 else openCaches h0) \<and>
        (ownCache rt \<longrightarrow> cache rt \<notin> set (openCaches h0)) \<and>
        (prelude o' \<noteq> [] \<longrightarrow> rtPreludeBytecode (opts rt) \<noteq> None))"
proof -
  define h1c where "h1c = (case compilationCache o' of None \<Rightarrow> newCompilationCache h0 | Some c \<Rightarrow> (h0, c))"
  obtain h1 c where h1c': "h1c = (h1, c)" by (cases h1c)
  have wf1: "host_wf h1" and or1: "openRuntimes h1 = openRuntimes h0"
    and oc1: "openCaches h1 = (if compilationCache o' = None then c # openCaches h0 else openCaches h0)"
    and fresh: "compilationCache o' = None \<Longrightarrow> c \<notin> set (openCaches h0)"
    using assms(1) h1c'
    by (auto simp: h1c_def newCompilationCache_def host_wf_def list_all_iff less_Suc_eq split: option.splits)
  define cfg where "cfg = \<lparr>cfgCache = c, cfgCloseOnContextDone = closeOnContextDone o',
    cfgMemoryLimitPages = (if wasmMemoryLimitPages o' > 0 then Some (wasmMemoryLimitPages o') else None)\<rparr>"
  obtain h2 r where h2: "newWazeroRuntime cfg h1 = (h2, r)" by fastforce
  note cl = close_newWazeroRuntime [OF wf1 h2]
  have h2o: "openRuntimes h2 = (r, cfg) # openRuntimes h0" "openCaches h2 = openCaches h1"
    "r \<notin> fst ` set (openRuntimes h0)" and wf2: "host_wf h2"
    using h2 or1 wf1 by (auto simp: newWazeroRuntime_def host_wf_def list_all_iff less_Suc_eq)
  have m: "cfgMemoryLimitPages cfg = (if wasmMemoryLimitPages o' = 0 then None else Some (wasmMemoryLimitPages o'))"
    by (simp add: cfg_def word_gt_0)
  note defs = assms(2) [unfolded New_def Let_def assms(3) [symmetric], folded h1c_def, unfolded h1c' prod.case,
      folded cfg_def, unfolded h2 prod.case]
  show ?thesis
  proof (cases "registerEnv W cfg")
    case (Some e)
    with defs cl or1 oc1 show ?thesis by auto
  next
    case None
    show ?thesis
    proof (cases "compileModule W cfg (case optModule o' of None \<Rightarrow> embedded W | Some m \<Rightarrow> m)")
      case (Inl e)
      with None defs cl or1 oc1 show ?thesis by auto
    next
      case (Inr C)
      show ?thesis
      proof (cases "prelude o' = []")
        case True
        with None Inr defs h2o oc1 fresh m show ?thesis by auto
      next
        case False
        let ?rt = "\<lparr>wazeroRuntime = r, compiled = C,
            rtModule = (case optModule o' of None \<Rightarrow> embedded W | Some m \<Rightarrow> m), cache = c,
            ownCache = (compilationCache o' = None), opts = o'\<rparr>"
        from False None Inr defs obtain h3 res3 where
          b: "compileBytecode W ?rt (prelude o') False h2 = Some (h3, res3)"
          and k: "(case res3 of
              Inl e \<Rightarrow> Some ((if compilationCache o' = None then closeCache c else id) (closeWazeroRuntime r h3),
                         Inl (ErrWrap ''kafig: compile prelude: '' e))
            | Inr bytecode \<Rightarrow> Some (h3, Inr (\<lparr>wazeroRuntime = r, compiled = C,
                rtModule = (case optModule o' of None \<Rightarrow> embedded W | Some m \<Rightarrow> m), cache = c,
                ownCache = (compilationCache o' = None), opts = o'\<lparr>rtPreludeBytecode := Some bytecode\<rparr>\<rparr>)))
              = Some (h, res)"
          by (auto elim!: bind_SomeE)
        have h3: "openRuntimes h3 = openRuntimes h2" "openCaches h3 = openCaches h2"
          using compileBytecode_open [OF wf2 b] by auto
        show ?thesis
        proof (cases res3)
          case (Inl e)
          have "openRuntimes (closeWazeroRuntime r h3) = openRuntimes (closeWazeroRuntime r h2)"
            "openCaches (closeWazeroRuntime r h3) = openCaches (closeWazeroRuntime r h2)"
            by (simp_all add: closeWazeroRuntime_def h3)
          with Inl k cl or1 oc1 show ?thesis by (auto simp: closeCache_def split: if_splits)
        next
          case (Inr bytecode)
          with k h3 h2o oc1 fresh m show ?thesis by auto
        qed
      qed
    qed
  qed
qed

text \<open>
  C31. \<open>New\<close> leaves no engine runtime open when it fails, whether in registering the imports, in
  compiling the module or in compiling the prelude, and leaves exactly its own one open when it
  succeeds (the temporary runtime of the prelude's compilation is closed again), with the configured
  memory limit; it creates a cache only when none is given, and a configured prelude has been
  compiled.
\<close>

theorem New_resources:
  assumes "host_wf h0" and "New W options h0 = Some (h, res)"
  shows "(case res of
      Inl e \<Rightarrow> openRuntimes h = openRuntimes h0
    | Inr rt \<Rightarrow> (let o' = applyOptions options runtimeDefaults in
        (\<exists>cfg. openRuntimes h = (wazeroRuntime rt, cfg) # openRuntimes h0 \<and>
          cfgMemoryLimitPages cfg = (if wasmMemoryLimitPages o' = 0 then None else Some (wasmMemoryLimitPages o'))) \<and>
        ownCache rt = (compilationCache o' = None) \<and>
        openCaches h = (if ownCache rt then cache rt # openCaches h0 else openCaches h0) \<and>
        (prelude o' \<noteq> [] \<longrightarrow> rtPreludeBytecode (opts rt) \<noteq> None)))"
  using New_open [OF assms refl] by (cases res) (simp_all add: Let_def)

lemma sample_New:
  "\<exists>h rt. New sample_engine [WithPrelude ''1''] sample_host = Some (h, Inr rt) \<and> ownCache rt"
  by (simp add: New_def sample_engine_def sample_host_def sample_module_def WithPrelude_def runtimeDefaults_def
      newCompilationCache_def newWazeroRuntime_def closeWazeroRuntime_def compileBytecode_def
      runCompile_def compileConfig_def sample_simps Let_def)

theorem New_resources_witness:
  "\<exists>h rt. New sample_engine [WithPrelude ''1''] sample_host = Some (h, Inr rt) \<and>
     openCaches h = cache rt # openCaches sample_host \<and> rtPreludeBytecode (opts rt) \<noteq> None"
proof -
  obtain h rt where n: "New sample_engine [WithPrelude ''1''] sample_host = Some (h, Inr rt)" "ownCache rt"
    using sample_New by blast
  from New_resources [OF sample_host_wf n(1)] n show ?thesis
    by (simp add: Let_def WithPrelude_def runtimeDefaults_def)
qed

lemma New_Close_aux:
  assumes "host_wf h0" and "New W options h0 = Some (h, Inr rt)"
  shows "openRuntimes (fst (closeRuntime W rt h)) = openRuntimes h0 \<and>
    openCaches (fst (closeRuntime W rt h)) = openCaches h0"
proof -
  from New_open [OF assms refl] obtain cfg where
    h: "openRuntimes h = (wazeroRuntime rt, cfg) # openRuntimes h0"
      "wazeroRuntime rt \<notin> fst ` set (openRuntimes h0)"
      "openCaches h = (if ownCache rt then cache rt # openCaches h0 else openCaches h0)"
    by auto
  have "filter (\<lambda>(r', cfg). r' \<noteq> wazeroRuntime rt) (openRuntimes h0) = openRuntimes h0"
    by (rule filter_True) (use h(2) in force)
  with h show ?thesis
    by (simp add: closeRuntime_def closeWazeroRuntime_def closeCache_def Let_def)
qed

text \<open>
  Closing a runtime gives back what \<open>New\<close> opened and nothing else: its engine runtime, and the
  cache when it is its own; a cache the caller supplied stays open.
\<close>

theorem New_Close:
  assumes "host_wf h0" and "New W options h0 = Some (h, Inr rt)"
  shows "openRuntimes (fst (closeRuntime W rt h)) = openRuntimes h0 \<and>
    openCaches (fst (closeRuntime W rt h)) = openCaches h0"
  by (rule New_Close_aux [OF assms])

theorem New_Close_witness:
  "\<exists>h rt. New sample_engine [WithPrelude ''1''] sample_host = Some (h, Inr rt) \<and>
     openCaches (fst (closeRuntime sample_engine rt h)) = [2]"
proof -
  obtain h rt where n: "New sample_engine [WithPrelude ''1''] sample_host = Some (h, Inr rt)"
    using sample_New by blast
  from New_Close [OF sample_host_wf n] n show ?thesis by (auto simp: sample_host_def)
qed

text \<open>
  A binary that does not compile leaks the compilation cache \<open>New\<close> created for it: the error
  path closes the engine runtime only, and no reference to the cache is left to close it with.
\<close>

theorem New_leaks_cache:
  assumes "applyOptions options runtimeDefaults = o'" and "compilationCache o' = None"
    and "\<And>cfg. registerEnv W cfg = None"
    and "\<And>cfg. compileModule W cfg (case optModule o' of None \<Rightarrow> embedded W | Some m \<Rightarrow> m) = Inl e"
  shows "\<exists>h. New W options h0 = Some (h, Inl (ErrWrap ''kafig: compile module: '' e)) \<and>
    openCaches h = nextHandle h0 # openCaches h0"
  using assms
  by (simp add: New_def newCompilationCache_def newWazeroRuntime_def closeWazeroRuntime_def Let_def)

theorem New_leaks_cache_witness:
  "\<exists>h. New sample_engine [WithModule (Some ''text'')] sample_host
      = Some (h, Inl (ErrWrap ''kafig: compile module: '' (ErrMsg ''invalid magic number''))) \<and>
    openCaches h = [5, 2]"
proof -
  have "\<exists>h. New sample_engine [WithModule (Some ''text'')] sample_host
      = Some (h, Inl (ErrWrap ''kafig: compile module: '' (ErrMsg ''invalid magic number''))) \<and>
    openCaches h = nextHandle sample_host # openCaches sample_host"
    by (rule New_leaks_cache [OF refl])
      (simp_all add: WithModule_def runtimeDefaults_def sample_engine_def)
  then show ?thesis by (simp add: sample_host_def)
qed

subsection \<open>Instances of a runtime\<close>

text \<open>
  \<open>Runtime.Instance\<close> without a router fails and instantiates nothing; with one, the options
  decide the instance, the last of a kind winning: what is returned is an error or a well-formed
  instance with the last router given.
\<close>

theorem Instance_router:
  "InstanceOf rt E [] w = Some (w, None, Inl (ErrMsg ''kafig: RPCRouter is required (use WithRouter)'')) \<and>
   (case InstanceOf rt E (options @ [WithRouter (Some r)]) w of
      Some (w', closed, Inr s) \<Rightarrow> router s = r \<and> inst_wf s \<and> \<not> hasError s \<and> closed = None
    | _ \<Rightarrow> True)"
proof
  show "InstanceOf rt E [] w = Some (w, None, Inl (ErrMsg ''kafig: RPCRouter is required (use WithRouter)''))"
    by (simp add: InstanceOf_def instanceDefaults_def)
  let ?o = "applyOptions (options @ [WithRouter (Some r)]) (instanceDefaults (opts rt))"
  have r: "optRouter ?o = Some r" by (simp add: WithRouter_def)
  show "case InstanceOf rt E (options @ [WithRouter (Some r)]) w of
      Some (w', closed, Inr s) \<Rightarrow> router s = r \<and> inst_wf s \<and> \<not> hasError s \<and> closed = None
    | _ \<Rightarrow> True"
  proof (cases "newInstance (compiled rt) E ?o r w")
    case None
    then show ?thesis using r by (simp add: InstanceOf_def Let_def)
  next
    case (Some t)
    obtain w' closed res where t: "t = (w', closed, res)" by (cases t)
    show ?thesis
      using newInstance_aux [OF Some [unfolded t]] Some r t
      by (cases res) (auto simp: InstanceOf_def Let_def inst_config_def)
  qed
qed

subsection \<open>Compiling\<close>

text \<open>
  Compiling the empty program fails with an out-of-memory message although memory is not the
  matter: \<open>compileBytecode\<close> asks the guest's allocator for no bytes, which \<open>alloc\<close> of the runtime
  answers with the null pointer, where \<open>Eval\<close> asks for one byte (the clamp of \<open>wasmAlloc\<close>).
\<close>

theorem Compile_empty_program:
  assumes "fnAlloc (wasmOps C) = rust_alloc std_alloc trap"
  shows "runCompile C g [] isAsync = Some (g, Inl (ErrMsg ''alloc returned null'')) \<and>
    wasmAlloc (wasmOps C) (length []) g = wasmAlloc (wasmOps C) 1 g"
  using assms by (simp add: runCompile_def rust_alloc_empty wasmAlloc_clamp Let_def)

theorem Compile_empty_program_witness:
  "runCompile (sample_module\<lparr>wasmOps := sample_wasm\<lparr>fnAlloc := rust_alloc (\<lambda>g n. (g, 4096)) (ErrMsg ''unreachable'')\<rparr>\<rparr>)
     sample0 [] False = Some (sample0, Inl (ErrMsg ''alloc returned null''))"
  by (rule Compile_empty_program [THEN conjunct1]) simp

text \<open>
  \<open>Compile\<close> leaves the resources of the engine as it found them on every path on which it
  returns: the temporary runtime it compiles in is closed again, and the shared cache is not.
\<close>

lemma Compile_resources:
  assumes "host_wf h" and "Compile W rt source options h = Some (h', res)"
  shows "openRuntimes h' = openRuntimes h \<and> openCaches h' = openCaches h"
  using compileBytecode_open [OF assms(1) assms(2) [unfolded Compile_def]] by simp

definition sample_runtime :: "sample Runtime" where
  "sample_runtime = \<lparr>wazeroRuntime = 4, compiled = sample_module, rtModule = ''wasm'', cache = 2,
     ownCache = False, opts = runtimeDefaults\<rparr>"

end
