(* ===== verification/Cli_Session.thy ===== *)
theory Cli_Session
  imports Go_Runtime
begin

text \<open>
  \<open>kafig-cli/session.go\<close> and the limits of \<open>kafig-cli/main.go\<close>: the session of the command line
  client, which owns a runtime and its current instance and executes commands on it.
\<close>

subsection \<open>Commands and results\<close>

record command =
  cmdType :: string
  Source :: string
  CmdName :: string
  CmdParams :: raw

definition simple_command :: "string \<Rightarrow> command" where
  "simple_command ty = \<lparr>cmdType = ty, Source = '''', CmdName = '''', CmdParams = None\<rparr>"

record result =
  resValue :: raw
  resError :: "go_error option"
  resStats :: "ExecutionStats option"
  resText :: string

definition no_result :: result where
  "no_result = \<lparr>resValue = None, resError = None, resStats = None, resText = ''''\<rparr>"

definition error_result :: "go_error \<Rightarrow> result" where
  "error_result e = no_result\<lparr>resError := Some e\<rparr>"

definition text_result :: "string \<Rightarrow> result" where
  "text_result t = no_result\<lparr>resText := t\<rparr>"

text \<open>The limits of the command line flags, the CPU limit in microseconds.\<close>

record limits =
  maxOpcodes :: u64
  maxCPUTimeUs :: u64

definition flag_limits :: "u64 \<Rightarrow> u64 \<Rightarrow> limits" where
  "flag_limits maxOpc maxCPU = \<lparr>maxOpcodes = maxOpc, maxCPUTimeUs = maxCPU * 1000\<rparr>"

definition cliInterrupt :: "limits \<Rightarrow> 'w \<Rightarrow> u64 \<Rightarrow> u64 \<Rightarrow> 'w \<times> bool" where
  "cliInterrupt L w opcodes cpuTimeUs =
     (w, (maxOpcodes L > 0 \<and> opcodes > maxOpcodes L) \<or> (maxCPUTimeUs L > 0 \<and> cpuTimeUs > maxCPUTimeUs L))"

subsection \<open>The session\<close>

text \<open>
  \<open>sessInst\<close> is \<^const>\<open>None\<close> for a nil instance; \<open>sessWorld\<close> is the world outside while there is no
  instance to carry it. A call on a nil instance dereferences it: the process panics.
\<close>

record ('g, 'w) session =
  sessRt :: "'g Runtime"
  sessInst :: "('g, 'w) inst option"
  rpcFallback :: "'w RPCFallbackCallback option"
  sessCache :: "nat option"
  sessWorld :: 'w

datatype 'a outcome_of_run = Finished 'a | NilPanic | Diverges

text \<open>The part of the operating system that \<open>newFileCache\<close> asks; a parameter.\<close>

record os_env =
  userCacheDir :: "go_error + string"
  joinPath :: "string list \<Rightarrow> string"
  mkdirAll :: "string \<Rightarrow> go_error option"
  cacheWithDir :: "string \<Rightarrow> go_error option"

definition newFileCache :: "os_env \<Rightarrow> host \<Rightarrow> host \<times> (go_error + nat)" where
  "newFileCache OS h =
     (case userCacheDir OS of
        Inl e \<Rightarrow> (h, Inl (ErrWrap ''get user cache dir: '' e))
      | Inr base \<Rightarrow>
     (let dir = joinPath OS [base, ''kafig'', ''wasm-cache''] in
      case mkdirAll OS dir of
        Some e \<Rightarrow> (h, Inl (ErrWrap ''create cache dir: '' e))
      | None \<Rightarrow>
     (case cacheWithDir OS dir of
        Some e \<Rightarrow> (h, Inl e)
      | None \<Rightarrow> (case newCompilationCache h of (h1, c) \<Rightarrow> (h1, Inr c)))))"

definition session_ops :: "('g, 'w) session \<Rightarrow> 'g wasm" where
  "session_ops s = wasmOps (compiled (sessRt s))"

definition session_router :: "('g, 'w) session \<Rightarrow> 'w RPCRouter" where
  "session_router s = (case rpcFallback s of None \<Rightarrow> NewRPCRouter | Some f \<Rightarrow> WithFallback f NewRPCRouter)"

text \<open>
  The old instance is closed before the new one is created; when that fails, the assignment of both
  results leaves the session with a nil instance.
\<close>

definition reset :: "'w host_env \<Rightarrow> limits \<Rightarrow> ('g, 'w) session \<Rightarrow> (('g, 'w) session \<times> go_error option) option" where
  "reset E L s =
     (let w = (case sessInst s of None \<Rightarrow> sessWorld s | Some i \<Rightarrow> world (fst (closeInstance (session_ops s) i)))
      in do {
        (w', _, res) \<leftarrow> InstanceOf (sessRt s) E
          [WithRouter (Some (session_router s)), WithInterruptCallback (Some (cliInterrupt L))] w;
        Some (case res of
          Inl e \<Rightarrow> (s\<lparr>sessInst := None, sessWorld := w'\<rparr>, Some e)
        | Inr i \<Rightarrow> (s\<lparr>sessInst := Some i, sessWorld := w'\<rparr>, None))
      })"

definition close_cache_opt :: "nat option \<Rightarrow> host \<Rightarrow> host" where
  "close_cache_opt c h = (case c of None \<Rightarrow> h | Some c \<Rightarrow> closeCache c h)"

definition newSession :: "'g engine \<Rightarrow> os_env \<Rightarrow> 'w host_env \<Rightarrow> limits \<Rightarrow> 'w \<Rightarrow> host \<Rightarrow>
    (host \<times> (go_error + ('g, 'w) session)) option" where
  "newSession W OS E L w h =
     (let (h1, c) = (case newFileCache OS h of (h1, Inl e) \<Rightarrow> (h1, None) | (h1, Inr c) \<Rightarrow> (h1, Some c));
          options = (case c of None \<Rightarrow> [] | Some c' \<Rightarrow> [WithCompilationCache (Some c')])
      in do {
        (h2, res) \<leftarrow> New W options h1;
        (case res of
           Inl e \<Rightarrow> Some (close_cache_opt c h2, Inl (ErrWrap ''failed to create runtime: '' e))
         | Inr rt \<Rightarrow> do {
             (s, err) \<leftarrow> reset E L \<lparr>sessRt = rt, sessInst = None, rpcFallback = None, sessCache = c, sessWorld = w\<rparr>;
             (case err of
                Some e \<Rightarrow> Some (close_cache_opt c (fst (closeRuntime W rt h2)),
                                Inl (ErrWrap ''failed to create instance: '' e))
              | None \<Rightarrow> Some (h2, Inr s))
           })
      })"

text \<open>\<open>close\<close>: the instance, the runtime, then the cache; errors are ignored.\<close>

definition closeSession :: "'g engine \<Rightarrow> ('g, 'w) session \<Rightarrow> host \<Rightarrow> host" where
  "closeSession W s h = close_cache_opt (sessCache s) (fst (closeRuntime W (sessRt s) h))"

subsection \<open>Executing commands\<close>

text \<open>The result of a call with the statistics read after it, which are left out when reading fails.\<close>

definition call_outcome :: "'g wasm \<Rightarrow> ('g, 'w) inst \<times> raw \<times> go_error option \<Rightarrow> ('g, 'w) inst \<times> result" where
  "call_outcome M r = (case r of (i, value, evalErr) \<Rightarrow>
     (case GetExecutionStats M i of (i', stats, err) \<Rightarrow>
        (i', \<lparr>resValue = (if evalErr = None then value else None), resError = evalErr,
              resStats = (if err = None then Some stats else None), resText = ''''\<rparr>)))"

definition exec_call :: "(('g, 'w) inst \<Rightarrow> ('g, 'w) call_result) \<Rightarrow> ('g, 'w) session \<Rightarrow>
    (('g, 'w) session \<times> result) outcome_of_run" where
  "exec_call call s =
     (case sessInst s of
        None \<Rightarrow> NilPanic
      | Some i \<Rightarrow>
     (case ResetExecutionStats (session_ops s) i of
        (i1, Some e) \<Rightarrow> Finished (s\<lparr>sessInst := Some i1\<rparr>, error_result (ErrWrap ''failed to reset stats: '' e))
      | (i1, None) \<Rightarrow>
     (case call i1 of
        None \<Rightarrow> Diverges
      | Some r \<Rightarrow> (case call_outcome (session_ops s) r of (i2, res) \<Rightarrow> Finished (s\<lparr>sessInst := Some i2\<rparr>, res)))))"

definition execEval :: "'w host_env \<Rightarrow> string \<Rightarrow> ('g, 'w) session \<Rightarrow> (('g, 'w) session \<times> result) outcome_of_run" where
  "execEval E source s = exec_call (Eval (session_ops s) E source [WithAsyncOption]) s"

definition execDispatch :: "'w host_env \<Rightarrow> string \<Rightarrow> raw \<Rightarrow> ('g, 'w) session \<Rightarrow>
    (('g, 'w) session \<times> result) outcome_of_run" where
  "execDispatch E name params s = exec_call (DispatchEvent (session_ops s) E name params [WithAsyncOption]) s"

definition newline :: string where "newline = [CHR 0x0A]"

fun join_lines :: "string list \<Rightarrow> string" where
  "join_lines [] = []"
| "join_lines [x] = x"
| "join_lines (x # y # xs) = x @ newline @ join_lines (y # xs)"

definition helpText :: string where
  "helpText = join_lines [
     ''Commands:'',
     ''  .help                        Show this help message'',
     ''  .dispatch <name> [params]    Dispatch an event to a registered handler'',
     ''  .reset                       Reset the JS instance (clears all state)'',
     ''  .clear                       Clear the screen'',
     ''  .exit                        Exit the REPL'',
     '''',
     ''Write JavaScript and press Enter to evaluate.'',
     ''The result of the last expression is returned automatically.'',
     ''Use host.on(name, fn) to register event handlers.'',
     ''Variables and functions persist across evals.'']"

definition clearText :: string where
  "clearText = CHR 0x1B # ''[H'' @ CHR 0x1B # ''[2J''"

definition resetText :: string where
  "resetText = ''Instance reset '' @ [CHR 0xE2, CHR 0x80, CHR 0x94] @ '' all JS state cleared.''"

definition exec :: "'w host_env \<Rightarrow> limits \<Rightarrow> command \<Rightarrow> ('g, 'w) session \<Rightarrow>
    (('g, 'w) session \<times> result) outcome_of_run" where
  "exec E L cmd s =
     (if cmdType cmd = ''eval'' then execEval E (Source cmd) s
      else if cmdType cmd = ''dispatch'' then execDispatch E (CmdName cmd) (CmdParams cmd) s
      else if cmdType cmd = ''reset'' then
        (case reset E L s of
           None \<Rightarrow> Diverges
         | Some (s', Some e) \<Rightarrow> Finished (s', error_result e)
         | Some (s', None) \<Rightarrow> Finished (s', text_result resetText))
      else if cmdType cmd = ''help'' then Finished (s, text_result helpText)
      else if cmdType cmd = ''clear'' then Finished (s, text_result clearText)
      else if cmdType cmd = ''exit'' then Finished (s, text_result ''Goodbye!'')
      else Finished (s, error_result (ErrMsg (''unknown command: '' @ cmdType cmd))))"

end
