(* ===== verification/Session_Spec.thy ===== *)
theory Session_Spec
  imports Cli_Session Runtime_Spec
begin

text \<open>
  What a session of the command line client guarantees: its limits hold on every instance it ever
  has, a command answers with what the call of the API returned, what a start, failed or not, leaves
  open; and how a failed reset ends the process.
\<close>

subsection \<open>The limits\<close>

text \<open>
  The CPU limit in microseconds is the flag's milliseconds times 1000, modulo two to the 64: a
  limit past 18446744073709551 ms wraps to a smaller one, and some wrap to 0, which disables it.
\<close>

lemma flag_limits_wrap:
  "unat (maxCPUTimeUs (flag_limits m c)) = (unat c * 1000) mod 2 ^ 64 \<and>
   maxCPUTimeUs (flag_limits m 2305843009213693952) = 0"
  by (simp add: flag_limits_def unat_word_ariths)

text \<open>Sessions that can arise: started, after commands, with the fallback set in between.\<close>

inductive session_reach :: "'g engine \<Rightarrow> os_env \<Rightarrow> 'w host_env \<Rightarrow> limits \<Rightarrow> ('g, 'w) session \<Rightarrow> bool"
  for W OS E L where
  start: "newSession W OS E L w h = Some (h', Inr s) \<Longrightarrow> session_reach W OS E L s"
| command: "session_reach W OS E L s \<Longrightarrow> exec E L cmd s = Finished (s', r) \<Longrightarrow> session_reach W OS E L s'"
| fallback: "session_reach W OS E L s \<Longrightarrow> session_reach W OS E L (s\<lparr>rpcFallback := f\<rparr>)"

definition session_ok :: "limits \<Rightarrow> ('g, 'w) session \<Rightarrow> bool" where
  "session_ok L s = (case sessInst s of None \<Rightarrow> True
     | Some i \<Rightarrow> inst_wf i \<and> interruptCallback i = Some (cliInterrupt L))"

lemma reset_ok:
  assumes "reset E L s = Some (s', err)"
  shows "session_ok L s' \<and> (err = None) = (sessInst s' \<noteq> None) \<and> sessRt s' = sessRt s \<and>
    sessCache s' = sessCache s \<and> rpcFallback s' = rpcFallback s"
proof -
  let ?o = "applyOptions [WithRouter (Some (session_router s)), WithInterruptCallback (Some (cliInterrupt L))]
    (instanceDefaults (opts (sessRt s)))"
  have o: "optRouter ?o = Some (session_router s)" "optInterruptCallback ?o = Some (cliInterrupt L)"
    by (simp_all add: WithRouter_def WithInterruptCallback_def)
  from assms obtain w w' closed res where
    i: "InstanceOf (sessRt s) E [WithRouter (Some (session_router s)), WithInterruptCallback (Some (cliInterrupt L))] w
        = Some (w', closed, res)"
    and s': "(s', err) = (case res of Inl e \<Rightarrow> (s\<lparr>sessInst := None, sessWorld := w'\<rparr>, Some e)
        | Inr i \<Rightarrow> (s\<lparr>sessInst := Some i, sessWorld := w'\<rparr>, None))"
    by (auto simp: reset_def Let_def elim!: bind_SomeE)
  have n: "newInstance (compiled (sessRt s)) E ?o (session_router s) w = Some (w', closed, res)"
    using i o by (simp add: InstanceOf_def Let_def)
  show ?thesis
  proof (cases res)
    case (Inl e)
    with s' show ?thesis by (simp add: session_ok_def)
  next
    case (Inr i)
    have "inst_wf i" "inst_config i = (session_router s, optInterruptCallback ?o, optPromiseRejectionHandler ?o)"
      using newInstance_aux [OF n] Inr by auto
    with s' Inr o show ?thesis by (simp add: session_ok_def inst_config_def)
  qed
qed

lemma GetExecutionStats_keeps:
  "GetExecutionStats M i = (i', st, e) \<Longrightarrow> (inst_wf i' = inst_wf i) \<and> interruptCallback i' = interruptCallback i"
  by (auto simp: GetExecutionStats_def inst_wf_def split: prod.splits sum.splits)

lemma ResetExecutionStats_keeps:
  "ResetExecutionStats M i = (i', e) \<Longrightarrow> (inst_wf i' = inst_wf i) \<and> interruptCallback i' = interruptCallback i"
  by (auto simp: ResetExecutionStats_def inst_wf_def split: prod.splits)

lemma exec_call_ok:
  assumes c: "\<forall>i i' v e. call i = Some (i', v, e) \<longrightarrow> inst_wf i' \<and> interruptCallback i' = interruptCallback i"
    and "exec_call call s = Finished (s', r)" and "session_ok L s"
  shows "session_ok L s' \<and> (resError r = None \<or> resValue r = None) \<and> sessInst s' \<noteq> None \<and> sessInst s \<noteq> None \<and>
    sessRt s' = sessRt s \<and> sessCache s' = sessCache s \<and> rpcFallback s' = rpcFallback s \<and> resText r = []"
proof -
  from assms(2) obtain i i1 e where i: "sessInst s = Some i" and rs: "ResetExecutionStats (session_ops s) i = (i1, e)"
    by (cases "sessInst s"; cases "ResetExecutionStats (session_ops s) (the (sessInst s))")
      (auto simp: exec_call_def)
  note keep = ResetExecutionStats_keeps [OF rs]
  show ?thesis
  proof (cases e)
    case (Some x)
    with assms(2,3) i rs keep show ?thesis
      by (auto simp: exec_call_def session_ok_def error_result_def no_result_def)
  next
    case None
    with assms(2) i rs obtain i2 v ee where call: "call i1 = Some (i2, v, ee)"
      by (cases "call i1") (auto simp: exec_call_def)
    obtain i3 st se where g: "GetExecutionStats (session_ops s) i2 = (i3, st, se)"
      by (cases "GetExecutionStats (session_ops s) i2")
    from None call assms(2) i rs g c [rule_format, OF call] GetExecutionStats_keeps [OF g] keep assms(3) show ?thesis
      by (auto simp: exec_call_def call_outcome_def session_ok_def split: if_splits)
  qed
qed

lemma perform_keeps:
  assumes "perform M E c options i = Some (i', v, e)"
  shows "inst_wf i' \<and> interruptCallback i' = interruptCallback i"
proof -
  note r = perform_ran [OF assms]
  have "inst_config i' = inst_config i" by (rule config_loop.ran_keeps [OF r]) (rule frame)
  moreover have "inst_wf i'" by (rule wf_loop.ran_keeps [OF r]) (rule wf_intro)
  ultimately show ?thesis by (simp add: inst_config_def)
qed

lemma exec_ok:
  assumes "exec E L cmd s = Finished (s', r)" and "session_ok L s"
  shows "session_ok L s' \<and> (resError r = None \<or> resValue r = None) \<and>
    sessRt s' = sessRt s \<and> sessCache s' = sessCache s \<and> rpcFallback s' = rpcFallback s \<and>
    (sessInst s' = None \<longrightarrow> sessInst s = None \<or> resError r \<noteq> None)"
proof -
  have ev: "\<forall>i i' v e. Eval (session_ops s) E (Source cmd) [WithAsyncOption] i = Some (i', v, e) \<longrightarrow>
      inst_wf i' \<and> interruptCallback i' = interruptCallback i"
    using perform_keeps [of _ E "CallEval (Source cmd)"] unfolding perform.simps by blast
  have di: "\<forall>i i' v e. DispatchEvent (session_ops s) E (CmdName cmd) (CmdParams cmd) [WithAsyncOption] i
      = Some (i', v, e) \<longrightarrow> inst_wf i' \<and> interruptCallback i' = interruptCallback i"
    using perform_keeps [of _ E "CallDispatchEvent (CmdName cmd) (CmdParams cmd)"] unfolding perform.simps by blast
  consider (eval) "cmdType cmd = ''eval''" | (dispatch) "cmdType cmd = ''dispatch''"
    | (reset) "cmdType cmd = ''reset''" | (other) "cmdType cmd \<notin> {''eval'', ''dispatch'', ''reset''}" by auto
  then show ?thesis
  proof cases
    case eval
    with assms(1) have "exec_call (Eval (session_ops s) E (Source cmd) [WithAsyncOption]) s = Finished (s', r)"
      by (simp add: exec_def execEval_def)
    from exec_call_ok [OF ev this assms(2)]
    show ?thesis by auto
  next
    case dispatch
    with assms(1) have
      "exec_call (DispatchEvent (session_ops s) E (CmdName cmd) (CmdParams cmd) [WithAsyncOption]) s = Finished (s', r)"
      by (simp add: exec_def execDispatch_def)
    from exec_call_ok [OF di this assms(2)]
    show ?thesis by auto
  next
    case reset
    with assms(1) show ?thesis
      using reset_ok [of E L s]
      by (auto simp: exec_def error_result_def text_result_def no_result_def split: option.splits)
  next
    case other
    with assms show ?thesis
      by (auto simp: exec_def error_result_def text_result_def no_result_def split: if_splits)
  qed
qed

lemma newSession_ok: "newSession W OS E L w h = Some (h', Inr s) \<Longrightarrow> session_ok L s \<and> sessInst s \<noteq> None"
  by (auto simp: newSession_def Let_def elim!: bind_SomeE split: prod.splits sum.splits option.splits dest!: reset_ok)

lemma session_reach_ok: "session_reach W OS E L s \<Longrightarrow> session_ok L s"
proof (induction rule: session_reach.induct)
  case (start w h h' s)
  show ?case using newSession_ok [OF start] by simp
next
  case (command s cmd s' r)
  then show ?case using exec_ok by blast
next
  case (fallback s f)
  then show ?case by (simp add: session_ok_def)
qed

text \<open>
  C25. The limits of the command line hold on every instance a session ever has, the first one and
  those after a reset: asked by the guest, the host interrupts exactly when \<open>Interrupt\<close> was called
  or an enabled limit is exceeded, 0 meaning that a limit is disabled.
\<close>

theorem session_limits:
  assumes "session_reach W OS E L s" and "sessInst s = Some i"
  shows "hostShouldInterrupt opcodes cpuTimeUs i = (i,
    if interrupted i \<or> (maxOpcodes L \<noteq> 0 \<and> maxOpcodes L < opcodes) \<or>
       (maxCPUTimeUs L \<noteq> 0 \<and> maxCPUTimeUs L < cpuTimeUs) then 1 else 0)"
  using session_reach_ok [OF assms(1)] assms(2)
  by (auto simp: session_ok_def hostShouldInterrupt_def cliInterrupt_def word_gt_0)

definition sample_os :: os_env where
  "sample_os = \<lparr>userCacheDir = Inr ''/cache'', joinPath = concat, mkdirAll = (\<lambda>_. None), cacheWithDir = (\<lambda>_. None)\<rparr>"

lemmas sample_session_simps = newSession_def newFileCache_def New_def newCompilationCache_def
  newWazeroRuntime_def sample_os_def sample_engine_def sample_host_def sample_module_def
  WithCompilationCache_def runtimeDefaults_def reset_def InstanceOf_def instanceDefaults_def WithRouter_def
  WithInterruptCallback_def session_router_def newInstance_def freshInstance_def raw_bytes_def
  required_exports_def

lemma sample_newSession:
  "\<exists>h' s i. newSession sample_engine sample_os sample_env (flag_limits 100 5) 0 sample_host = Some (h', Inr s) \<and>
     sessInst s = Some i \<and> \<not> interrupted i"
  by (simp add: sample_session_simps Let_def)

theorem session_limits_witness:
  "\<exists>s i. session_reach sample_engine sample_os sample_env (flag_limits 100 5) s \<and> sessInst s = Some i \<and>
     hostShouldInterrupt 101 0 i = (i, 1) \<and> hostShouldInterrupt 100 5000 i = (i, 0)"
proof -
  obtain h' s i where n: "newSession sample_engine sample_os sample_env (flag_limits 100 5) 0 sample_host = Some (h', Inr s)"
    and i: "sessInst s = Some i" "\<not> interrupted i"
    using sample_newSession by blast
  have r: "session_reach sample_engine sample_os sample_env (flag_limits 100 5) s"
    using n by (rule session_reach.start)
  from session_limits [OF r i(1), of 101 0] session_limits [OF r i(1), of 100 5000] r i show ?thesis
    by (simp add: flag_limits_def) blast
qed

subsection \<open>Commands\<close>

text \<open>The call of the API that an \<open>eval\<close> or \<open>dispatch\<close> command stands for.\<close>

definition command_call :: "command \<Rightarrow> api_call" where
  "command_call cmd = (if cmdType cmd = ''eval'' then CallEval (Source cmd)
     else CallDispatchEvent (CmdName cmd) (CmdParams cmd))"

lemma exec_command_call:
  assumes "cmdType cmd \<in> {''eval'', ''dispatch''}"
  shows "exec E L cmd s = exec_call (perform (session_ops s) E (command_call cmd) [WithAsyncOption]) s"
proof -
  have "perform (session_ops s) E (command_call cmd) [WithAsyncOption] =
      (if cmdType cmd = ''eval'' then Eval (session_ops s) E (Source cmd) [WithAsyncOption]
       else DispatchEvent (session_ops s) E (CmdName cmd) (CmdParams cmd) [WithAsyncOption])"
    by (rule ext) (simp add: command_call_def)
  with assms show ?thesis by (auto simp: exec_def execEval_def execDispatch_def)
qed

lemma exec_call_answer:
  assumes "exec_call (perform (session_ops s) E c options) s = Finished (s', r)"
  obtains (no_reset) i i1 e where "sessInst s = Some i" and "ResetExecutionStats (session_ops s) i = (i1, Some e)"
      and "sessInst s' = Some i1" and "r = error_result (ErrWrap ''failed to reset stats: '' e)"
  | (called) i i1 i2 v e i3 st err where "sessInst s = Some i"
      and "ResetExecutionStats (session_ops s) i = (i1, None)"
      and "perform (session_ops s) E c options i1 = Some (i2, v, e)"
      and "GetExecutionStats (session_ops s) i2 = (i3, st, err)" and "sessInst s' = Some i3"
      and "r = \<lparr>resValue = v, resError = e, resStats = (if err = None then Some st else None), resText = ''''\<rparr>"
proof -
  from assms obtain i i1 x where i: "sessInst s = Some i" and x: "ResetExecutionStats (session_ops s) i = (i1, x)"
    by (cases "sessInst s"; cases "ResetExecutionStats (session_ops s) (the (sessInst s))")
      (auto simp: exec_call_def)
  show thesis
  proof (cases x)
    case (Some e)
    with i x assms show thesis by (intro no_reset [of i i1 e]) (auto simp: exec_call_def)
  next
    case None
    with assms i x obtain i2 v e where p: "perform (session_ops s) E c options i1 = Some (i2, v, e)"
      by (cases "perform (session_ops s) E c options i1") (auto simp: exec_call_def)
    obtain i3 st err where g: "GetExecutionStats (session_ops s) i2 = (i3, st, err)"
      by (cases "GetExecutionStats (session_ops s) i2")
    have v: "(if e = None then v else None) = v" using perform_shape [OF p] by auto
    from assms i x None p g have "sessInst s' = Some i3"
      "r = \<lparr>resValue = v, resError = e, resStats = (if err = None then Some st else None), resText = ''''\<rparr>"
      by (auto simp: exec_call_def call_outcome_def v)
    with i x None p g show thesis by (intro called) auto
  qed
qed

text \<open>
  C19. What each command is answered with. An \<open>eval\<close> or \<open>dispatch\<close> runs the call it stands for on the
  session's instance, after resetting its statistics, and is answered with exactly the value and
  error of that call and the statistics read after it, or, when the reset of the statistics fails,
  with that error and no call is made. A \<open>reset\<close> is answered with its text if there is an instance
  again, and otherwise with an error; any other command leaves the session as it is and has no
  value. Runtime, cache and fallback never change, and the instance stays well formed and limited.
\<close>

theorem exec_contract:
  assumes "exec E L cmd s = Finished (s', r)" and "session_ok L s"
  shows "session_ok L s' \<and> sessRt s' = sessRt s \<and> sessCache s' = sessCache s \<and> rpcFallback s' = rpcFallback s \<and>
    (if cmdType cmd \<in> {''eval'', ''dispatch''}
     then \<exists>i i1 failed. sessInst s = Some i \<and> ResetExecutionStats (session_ops s) i = (i1, failed) \<and>
       (case failed of
          Some e \<Rightarrow> sessInst s' = Some i1 \<and> r = error_result (ErrWrap ''failed to reset stats: '' e)
        | None \<Rightarrow> \<exists>i2 v e i3 st err.
            perform (session_ops s) E (command_call cmd) [WithAsyncOption] i1 = Some (i2, v, e) \<and>
            GetExecutionStats (session_ops s) i2 = (i3, st, err) \<and> sessInst s' = Some i3 \<and>
            r = \<lparr>resValue = v, resError = e, resStats = (if err = None then Some st else None), resText = ''''\<rparr>)
     else if cmdType cmd = ''reset''
     then resValue r = None \<and> (if sessInst s' = None then resError r \<noteq> None else r = text_result resetText)
     else s' = s \<and> resValue r = None)"
proof -
  consider (call) "cmdType cmd \<in> {''eval'', ''dispatch''}" | (reset) "cmdType cmd = ''reset''"
    | (other) "cmdType cmd \<notin> {''eval'', ''dispatch'', ''reset''}" by auto
  then show ?thesis
  proof cases
    case call
    with assms(1) have "exec_call (perform (session_ops s) E (command_call cmd) [WithAsyncOption]) s = Finished (s', r)"
      by (simp add: exec_command_call)
    then show ?thesis
      by (cases rule: exec_call_answer) (use call exec_ok [OF assms] in auto)
  next
    case reset
    with assms(1) obtain err where e: "reset E L s = Some (s', err)"
      "r = (case err of None \<Rightarrow> text_result resetText | Some e \<Rightarrow> error_result e)"
      by (auto simp: exec_def split: option.splits)
    with reset reset_ok [OF e(1)] exec_ok [OF assms] show ?thesis
      by (cases err) (auto simp: error_result_def text_result_def no_result_def)
  next
    case other
    with assms(1) have "s' = s \<and> resValue r = None"
      by (auto simp: exec_def error_result_def text_result_def no_result_def split: if_splits)
    with other exec_ok [OF assms] show ?thesis by auto
  qed
qed

text \<open>A session on the sample instance, whose module lacks exports: creating another one fails.\<close>

definition sample_sess :: "(sample, nat) session" where
  "sample_sess = \<lparr>sessRt = sample_runtime, sessInst = Some (sample_inst\<lparr>interruptCallback := Some (cliInterrupt (flag_limits 0 0))\<rparr>),
     rpcFallback = None, sessCache = None, sessWorld = 0\<rparr>"

lemma sample_sess_ok: "session_ok (flag_limits 0 0) sample_sess"
  by (simp add: session_ok_def sample_sess_def sample_inst_def inst_wf_def)

lemma sample_sess_ops: "session_ops sample_sess = sample_wasm"
  by (simp add: session_ops_def sample_sess_def sample_runtime_def sample_module_def)

lemma sample_session:
  "\<exists>s. session_reach sample_engine sample_os sample_env (flag_limits 100 5) s \<and> session_ok (flag_limits 100 5) s \<and>
     (\<exists>i. sessInst s = Some i \<and> session_ops s = sample_wasm)"
proof -
  obtain h' s i where n: "newSession sample_engine sample_os sample_env (flag_limits 100 5) 0 sample_host = Some (h', Inr s)"
    and i: "sessInst s = Some i"
    using sample_newSession by blast
  have "session_ops s = sample_wasm"
    using n by (auto simp: sample_session_simps session_ops_def Let_def)
  then show ?thesis
    using i newSession_ok [OF n] session_reach.start [OF n] by blast
qed

lemma sample_exec_eval:
  "\<exists>s' r. exec sample_env (flag_limits 0 0) ((simple_command ''eval'')\<lparr>Source := ''ping''\<rparr>) sample_sess = Finished (s', r) \<and> resValue r = Some ''ping''"
  by (simp add: exec_def execEval_def exec_call_def sample_sess_ops simple_command_def)
    (simp add: sample_sess_def ResetExecutionStats_def call_outcome_def GetExecutionStats_def call_simps loop_simps
      sample_simps rpcLoop.simps session_ops_def sample_runtime_def sample_module_def)

lemma sample_exec_dispatch:
  "\<exists>s' r. exec sample_env (flag_limits 0 0) ((simple_command ''dispatch'')\<lparr>CmdName := ''e'', CmdParams := Some ''ping''\<rparr>)
     sample_sess = Finished (s', r) \<and> resValue r = Some ''ping''"
  by (simp add: exec_def execDispatch_def exec_call_def sample_sess_ops simple_command_def)
    (simp add: sample_sess_def ResetExecutionStats_def call_outcome_def GetExecutionStats_def call_simps loop_simps
      sample_simps rpcLoop.simps session_ops_def sample_runtime_def sample_module_def)

lemma sample_exec_reset:
  "\<exists>s' r. exec sample_env (flag_limits 0 0) (simple_command ''reset'') sample_sess = Finished (s', r) \<and> sessInst s' = None"
  by (simp add: exec_def simple_command_def sample_sess_def sample_session_simps sample_runtime_def closeInstance_def
      session_ops_def sample_simps Let_def)

text \<open>On the session above: an \<open>eval\<close> and a \<open>dispatch\<close> with a value, and a failed \<open>reset\<close>.\<close>

definition sample_eval_cmd :: command where
  "sample_eval_cmd = (simple_command ''eval'')\<lparr>Source := ''ping''\<rparr>"

definition sample_dispatch_cmd :: command where
  "sample_dispatch_cmd = (simple_command ''dispatch'')\<lparr>CmdName := ''e'', CmdParams := Some ''ping''\<rparr>"

lemma answered_value:
  assumes "\<exists>i i1 failed. a i \<and> f i = (i1, failed) \<and>
      (case failed of
         Some e \<Rightarrow> b i1 \<and> r = error_result (ErrWrap p e)
       | None \<Rightarrow> \<exists>i2 v e i3 st err. call i1 = Some (i2, v, e) \<and> g i2 = (i3, st, err) \<and> b i3 \<and>
           r = \<lparr>resValue = v, resError = e, resStats = (if err = None then Some st else None), resText = ''''\<rparr>)"
    and "resValue r = Some u"
  shows "\<exists>i1 i2. call i1 = Some (i2, Some u, resError r)"
  using assms by (fastforce simp: error_result_def no_result_def split: option.splits)

theorem exec_contract_witness:
  "(\<exists>s' r i1 i2. exec sample_env (flag_limits 0 0) sample_eval_cmd sample_sess = Finished (s', r) \<and>
     session_ok (flag_limits 0 0) s' \<and> resValue r = Some ''ping'' \<and>
     perform sample_wasm sample_env (CallEval ''ping'') [WithAsyncOption] i1 = Some (i2, Some ''ping'', resError r)) \<and>
   (\<exists>s' r i1 i2. exec sample_env (flag_limits 0 0) sample_dispatch_cmd sample_sess = Finished (s', r) \<and>
     session_ok (flag_limits 0 0) s' \<and> resValue r = Some ''ping'' \<and>
     perform sample_wasm sample_env (CallDispatchEvent ''e'' (Some ''ping'')) [WithAsyncOption] i1 = Some (i2, Some ''ping'', resError r)) \<and>
   (\<exists>s' r. exec sample_env (flag_limits 0 0) (simple_command ''reset'') sample_sess = Finished (s', r) \<and>
     resValue r = None \<and> resError r \<noteq> None)"
proof (intro conjI)
  obtain s' r where e: "exec sample_env (flag_limits 0 0) sample_eval_cmd sample_sess = Finished (s', r)"
    and v: "resValue r = Some ''ping''" using sample_exec_eval [folded sample_eval_cmd_def] by blast
  have ty: "cmdType sample_eval_cmd \<in> {''eval'', ''dispatch''}" by (simp add: sample_eval_cmd_def simple_command_def)
  have c: "command_call sample_eval_cmd = CallEval ''ping''" by (simp add: command_call_def sample_eval_cmd_def simple_command_def)
  note k = exec_contract [OF e sample_sess_ok, unfolded if_P [OF ty] c sample_sess_ops]
  from k have "session_ok (flag_limits 0 0) s'" by (elim conjE)
  moreover from k v obtain i1 i2 where
    "perform sample_wasm sample_env (CallEval ''ping'') [WithAsyncOption] i1 = Some (i2, Some ''ping'', resError r)"
    by (elim conjE) (drule (1) answered_value, blast)
  ultimately show "\<exists>s' r i1 i2. exec sample_env (flag_limits 0 0) sample_eval_cmd sample_sess = Finished (s', r) \<and>
     session_ok (flag_limits 0 0) s' \<and> resValue r = Some ''ping'' \<and>
     perform sample_wasm sample_env (CallEval ''ping'') [WithAsyncOption] i1 = Some (i2, Some ''ping'', resError r)"
    using e v by blast
next
  obtain s' r where e: "exec sample_env (flag_limits 0 0) sample_dispatch_cmd sample_sess = Finished (s', r)"
    and v: "resValue r = Some ''ping''" using sample_exec_dispatch [folded sample_dispatch_cmd_def] by blast
  have ty: "cmdType sample_dispatch_cmd \<in> {''eval'', ''dispatch''}" by (simp add: sample_dispatch_cmd_def simple_command_def)
  have c: "command_call sample_dispatch_cmd = CallDispatchEvent ''e'' (Some ''ping'')" by (simp add: command_call_def sample_dispatch_cmd_def simple_command_def)
  note k = exec_contract [OF e sample_sess_ok, unfolded if_P [OF ty] c sample_sess_ops]
  from k have "session_ok (flag_limits 0 0) s'" by (elim conjE)
  moreover from k v obtain i1 i2 where
    "perform sample_wasm sample_env (CallDispatchEvent ''e'' (Some ''ping'')) [WithAsyncOption] i1 = Some (i2, Some ''ping'', resError r)"
    by (elim conjE) (drule (1) answered_value, blast)
  ultimately show "\<exists>s' r i1 i2. exec sample_env (flag_limits 0 0) sample_dispatch_cmd sample_sess = Finished (s', r) \<and>
     session_ok (flag_limits 0 0) s' \<and> resValue r = Some ''ping'' \<and>
     perform sample_wasm sample_env (CallDispatchEvent ''e'' (Some ''ping'')) [WithAsyncOption] i1 = Some (i2, Some ''ping'', resError r)"
    using e v by blast
next
  obtain s' r where e: "exec sample_env (flag_limits 0 0) (simple_command ''reset'') sample_sess = Finished (s', r)"
    and n: "sessInst s' = None" using sample_exec_reset by blast
  from exec_contract [OF e sample_sess_ok] n have "resValue r = None \<and> resError r \<noteq> None"
    by (simp add: simple_command_def)
  with e show "\<exists>s' r. exec sample_env (flag_limits 0 0) (simple_command ''reset'') sample_sess = Finished (s', r) \<and>
      resValue r = None \<and> resError r \<noteq> None" by blast
qed

text \<open>
  C39. A failed reset is fatal: it leaves the session with a nil instance, and the next \<open>eval\<close> or
  \<open>dispatch\<close>, whatever it is, panics instead of being answered with an error.
\<close>

theorem reset_failure_panics:
  assumes "reset E L s = Some (s', Some e)"
  shows "exec E L cmd s' =
    (if cmdType cmd = ''eval'' \<or> cmdType cmd = ''dispatch'' then NilPanic else exec E L cmd s')"
  using reset_ok [OF assms] by (auto simp: exec_def execEval_def execDispatch_def exec_call_def)

theorem reset_failure_panics_witness:
  "\<exists>s' e. reset sample_env (flag_limits 0 0) \<lparr>sessRt = sample_runtime, sessInst = Some sample_inst,
      rpcFallback = None, sessCache = None, sessWorld = 0\<rparr> = Some (s', Some e) \<and>
     exec sample_env (flag_limits 0 0) ((simple_command ''eval'')\<lparr>Source := ''1''\<rparr>) s' = NilPanic"
proof -
  have "\<exists>s' e. reset sample_env (flag_limits 0 0) \<lparr>sessRt = sample_runtime, sessInst = Some sample_inst,
      rpcFallback = None, sessCache = None, sessWorld = 0\<rparr> = Some (s', Some e)"
    by (simp add: sample_session_simps sample_runtime_def closeInstance_def session_ops_def sample_simps Let_def)
  then obtain s' e where r: "reset sample_env (flag_limits 0 0) \<lparr>sessRt = sample_runtime, sessInst = Some sample_inst,
      rpcFallback = None, sessCache = None, sessWorld = 0\<rparr> = Some (s', Some e)" by blast
  have "exec sample_env (flag_limits 0 0) ((simple_command ''eval'')\<lparr>Source := ''1''\<rparr>) s' = NilPanic"
    using reset_failure_panics [OF r, of "(simple_command ''eval'')\<lparr>Source := ''1''\<rparr>"]
    by (simp add: simple_command_def)
  with r show ?thesis by blast
qed

subsection \<open>Starting and closing\<close>

lemma newFileCache_open:
  assumes "newFileCache OS h = (h1, r)" and "host_wf h"
  shows "host_wf h1 \<and> openRuntimes h1 = openRuntimes h \<and>
    (case r of Inl e \<Rightarrow> h1 = h | Inr c \<Rightarrow> openCaches h1 = c # openCaches h)"
  using assms
  by (auto simp: newFileCache_def newCompilationCache_def Let_def host_wf_def list_all_iff less_Suc_eq
      split: sum.splits option.splits)

lemma New_own_cache_leaks: "New W [] h0 = Some (h, Inl e) \<Longrightarrow> openCaches h = nextHandle h0 # openCaches h0"
  by (auto simp: New_def runtimeDefaults_def newCompilationCache_def newWazeroRuntime_def closeWazeroRuntime_def
      Let_def split: option.splits sum.splits)

text \<open>
  C26. What starting a session leaves open. When it fails, be it in the runtime or in the first
  instance, no engine runtime is left open and no compilation cache either, with one exception:
  without a cache directory the runtime makes a cache of its own, and when creating the runtime then
  fails, that cache is leaked. When it succeeds, closing the session gives back everything it
  opened, with a cache directory or without.
\<close>

theorem session_resources:
  assumes "host_wf h" and "newSession W OS E L w h = Some (h', res)"
  shows "(case res of
      Inl err \<Rightarrow> openRuntimes h' = openRuntimes h \<and>
        openCaches h' = (if isl (snd (newFileCache OS h)) \<and> (\<exists>e. err = ErrWrap ''failed to create runtime: '' e)
                         then nextHandle h # openCaches h else openCaches h)
    | Inr s \<Rightarrow> openRuntimes (closeSession W s h') = openRuntimes h \<and> openCaches (closeSession W s h') = openCaches h)"
proof -
  obtain h1 rc where f: "newFileCache OS h = (h1, rc)" by fastforce
  note fc = newFileCache_open [OF f assms(1)]
  define c where "c = (case rc of Inl e \<Rightarrow> None | Inr c \<Rightarrow> Some c)"
  define options where "options = (case c of None \<Rightarrow> [] | Some c' \<Rightarrow> [WithCompilationCache (Some c')])"
  have hc: "(case newFileCache OS h of (h1, Inl e) \<Rightarrow> (h1, None) | (h1, Inr c) \<Rightarrow> (h1, Some c)) = (h1, c)"
    by (simp add: f c_def split: sum.splits)
  have h1: "h1 = h" if "c = None" using that fc by (auto simp: c_def split: sum.splits)
  have cs: "c = None \<longleftrightarrow> isl rc" by (auto simp: c_def split: sum.splits)
  have oc: "openCaches h1 = (case c of None \<Rightarrow> openCaches h | Some c \<Rightarrow> c # openCaches h)"
    using fc by (auto simp: c_def split: sum.splits)
  have cc: "compilationCache (applyOptions options runtimeDefaults) = c"
    by (simp add: options_def WithCompilationCache_def runtimeDefaults_def split: option.splits)
  have wf1: "host_wf h1" and r1: "openRuntimes h1 = openRuntimes h" using fc by simp_all
  from assms(2) obtain h2 res2 where n: "New W options h1 = Some (h2, res2)"
    and k: "(case res2 of
           Inl e \<Rightarrow> Some (close_cache_opt c h2, Inl (ErrWrap ''failed to create runtime: '' e))
         | Inr rt \<Rightarrow> do {
             (s, err) \<leftarrow> reset E L \<lparr>sessRt = rt, sessInst = None, rpcFallback = None, sessCache = c, sessWorld = w\<rparr>;
             (case err of
                Some e \<Rightarrow> Some (close_cache_opt c (fst (closeRuntime W rt h2)),
                                Inl (ErrWrap ''failed to create instance: '' e))
              | None \<Rightarrow> Some (h2, Inr s))
           }) = Some (h', res)"
    unfolding newSession_def hc Let_def prod.case options_def [symmetric] by (elim bind_SomeE) auto
  note no = New_open [OF wf1 n refl, unfolded cc]
  show ?thesis
  proof (cases res2)
    case (Inl e)
    have open2: "openRuntimes h2 = openRuntimes h" using no Inl r1 by simp
    have res: "h' = close_cache_opt c h2" "res = Inl (ErrWrap ''failed to create runtime: '' e)" using k Inl by auto
    show ?thesis
    proof (cases c)
      case None
      then have "openCaches h2 = nextHandle h # openCaches h"
        using New_own_cache_leaks [of W h1 h2 e] n Inl h1 by (simp add: options_def)
      with None res open2 cs f show ?thesis by (simp add: close_cache_opt_def)
    next
      case (Some c')
      with no Inl oc have "openCaches h2 = c' # openCaches h" by simp
      with Some res open2 cs f show ?thesis by (simp add: close_cache_opt_def closeCache_def)
    qed
  next
    case (Inr rt)
    with k obtain s err where r: "reset E L \<lparr>sessRt = rt, sessInst = None, rpcFallback = None,
        sessCache = c, sessWorld = w\<rparr> = Some (s, err)"
      and k2: "(case err of
                Some e \<Rightarrow> Some (close_cache_opt c (fst (closeRuntime W rt h2)),
                                Inl (ErrWrap ''failed to create instance: '' e))
              | None \<Rightarrow> Some (h2, Inr s)) = Some (h', res)"
      by (auto elim!: bind_SomeE)
    have rt: "openRuntimes (fst (closeRuntime W rt h2)) = openRuntimes h1"
      "openCaches (fst (closeRuntime W rt h2)) = openCaches h1"
      using New_Close_aux [OF wf1] n Inr by auto
    have s: "sessRt s = rt" "sessCache s = c" using reset_ok [OF r] by auto
    show ?thesis
      using k2 rt r1 oc s
      by (cases err; cases c) (auto simp: close_cache_opt_def closeCache_def closeSession_def)
  qed
qed

text \<open>The witness: a start without a cache directory that succeeds, and one that fails and leaks.\<close>

definition no_cache_os :: os_env where
  "no_cache_os = sample_os\<lparr>userCacheDir := Inl (ErrMsg ''$HOME is not defined'')\<rparr>"

definition broken_engine :: "sample engine" where
  "broken_engine = sample_engine\<lparr>embedded := ''text''\<rparr>"

theorem session_resources_witness:
  "(\<exists>h' s. newSession sample_engine no_cache_os sample_env (flag_limits 100 5) 0 sample_host = Some (h', Inr s) \<and>
     openRuntimes (closeSession sample_engine s h') = [] \<and> openCaches (closeSession sample_engine s h') = [2]) \<and>
   (\<exists>h' e. newSession broken_engine sample_os sample_env (flag_limits 100 5) 0 sample_host = Some (h', Inl e) \<and>
     openRuntimes h' = [] \<and> openCaches h' = [2]) \<and>
   (\<exists>h' e. newSession broken_engine no_cache_os sample_env (flag_limits 100 5) 0 sample_host = Some (h', Inl e) \<and>
     openRuntimes h' = [] \<and> openCaches h' = [5, 2])"
proof (intro conjI)
  have "\<exists>h' s. newSession sample_engine no_cache_os sample_env (flag_limits 100 5) 0 sample_host = Some (h', Inr s)"
    by (simp add: no_cache_os_def sample_session_simps Let_def)
  then obtain h' s where n: "newSession sample_engine no_cache_os sample_env (flag_limits 100 5) 0 sample_host = Some (h', Inr s)"
    by blast
  from session_resources [OF sample_host_wf n] n show
    "\<exists>h' s. newSession sample_engine no_cache_os sample_env (flag_limits 100 5) 0 sample_host = Some (h', Inr s) \<and>
     openRuntimes (closeSession sample_engine s h') = [] \<and> openCaches (closeSession sample_engine s h') = [2]"
    by (auto simp: sample_host_def)
next
  have "\<exists>h' e. newSession broken_engine sample_os sample_env (flag_limits 100 5) 0 sample_host = Some (h', Inl e)"
    by (simp add: broken_engine_def sample_session_simps Let_def)
  then obtain h' e where n: "newSession broken_engine sample_os sample_env (flag_limits 100 5) 0 sample_host = Some (h', Inl e)"
    by blast
  have "\<not> isl (snd (newFileCache sample_os sample_host))"
    by (simp add: newFileCache_def sample_os_def newCompilationCache_def sample_host_def)
  with session_resources [OF sample_host_wf n] n show
    "\<exists>h' e. newSession broken_engine sample_os sample_env (flag_limits 100 5) 0 sample_host = Some (h', Inl e) \<and>
     openRuntimes h' = [] \<and> openCaches h' = [2]"
    by (auto simp: sample_host_def)
next
  have "\<exists>h' e. newSession broken_engine no_cache_os sample_env (flag_limits 100 5) 0 sample_host
      = Some (h', Inl (ErrWrap ''failed to create runtime: '' e))"
    by (simp add: broken_engine_def no_cache_os_def sample_session_simps Let_def)
  then obtain h' e where n: "newSession broken_engine no_cache_os sample_env (flag_limits 100 5) 0 sample_host
      = Some (h', Inl (ErrWrap ''failed to create runtime: '' e))" by blast
  have "isl (snd (newFileCache no_cache_os sample_host))"
    by (simp add: newFileCache_def no_cache_os_def)
  with session_resources [OF sample_host_wf n] n show
    "\<exists>h' e. newSession broken_engine no_cache_os sample_env (flag_limits 100 5) 0 sample_host = Some (h', Inl e) \<and>
     openRuntimes h' = [] \<and> openCaches h' = [5, 2]"
    by (auto simp: sample_host_def)
qed

end
