(* ===== verification/Json_Struct.thy ===== *)
theory Json_Struct
  imports Json_Facts
begin

text \<open>
  More of Go's \<open>encoding/json\<close>, as the command line client uses it: decoding into struct fields of
  the types \<open>string\<close>, \<open>bool\<close>, \<open>uint64\<close>, \<open>json.RawMessage\<close> and pointer to struct, and encoding structs
  whose fields may be left out and may hold raw messages, which \<open>json.Marshal\<close> validates, compacts
  and escapes.
\<close>

subsection \<open>Decoding\<close>

text \<open>
  The members of an object that select a field are decoded into it one after the other; the flag is
  the absence of an error, after which decoding goes on.
\<close>

fun decode_member :: "string \<Rightarrow> (string \<Rightarrow> json \<Rightarrow> 'a \<Rightarrow> 'a \<times> bool) \<Rightarrow> fields \<Rightarrow> 'a \<times> bool \<Rightarrow> 'a \<times> bool" where
  "decode_member name into [] st = st"
| "decode_member name into ((k, r, v) # fs) (cur, ok) = decode_member name into fs
     (if field_is k name then (case into r v cur of (cur', ok') \<Rightarrow> (cur', ok \<and> ok')) else (cur, ok))"

definition into_string :: "string \<Rightarrow> json \<Rightarrow> string \<Rightarrow> string \<times> bool" where
  "into_string r v cur = (case v of JNull \<Rightarrow> (cur, True) | JStr s \<Rightarrow> (s, True) | _ \<Rightarrow> (cur, False))"

definition into_bool :: "string \<Rightarrow> json \<Rightarrow> bool \<Rightarrow> bool \<times> bool" where
  "into_bool r v cur = (case v of JNull \<Rightarrow> (cur, True) | JBool b \<Rightarrow> (b, True) | _ \<Rightarrow> (cur, False))"

definition digits_value :: "string \<Rightarrow> nat" where
  "digits_value w = foldl (\<lambda>a c. 10 * a + (of_char c - 48)) 0 w"

text \<open>\<open>strconv.ParseUint(item, 10, 64)\<close>: digits only, and no overflow.\<close>

definition into_u64 :: "string \<Rightarrow> json \<Rightarrow> u64 \<Rightarrow> u64 \<times> bool" where
  "into_u64 r v cur = (case v of JNull \<Rightarrow> (cur, True)
     | JNum w \<Rightarrow> if list_all is_digit w \<and> digits_value w < 2 ^ 64 then (of_nat (digits_value w), True) else (cur, False)
     | _ \<Rightarrow> (cur, False))"

text \<open>A \<open>json.RawMessage\<close> takes the raw text, also that of \<open>null\<close>.\<close>

definition into_raw :: "string \<Rightarrow> json \<Rightarrow> raw \<Rightarrow> raw \<times> bool" where
  "into_raw r v cur = (Some r, True)"

definition into_ptr :: "(fields \<Rightarrow> 'a \<Rightarrow> 'a \<times> bool) \<Rightarrow> 'a \<Rightarrow> string \<Rightarrow> json \<Rightarrow> 'a option \<Rightarrow> 'a option \<times> bool" where
  "into_ptr dec zero r v cur = (case v of
     JNull \<Rightarrow> (None, True)
   | JObj fs \<Rightarrow> (case dec fs (case cur of None \<Rightarrow> zero | Some x \<Rightarrow> x) of (x, ok) \<Rightarrow> (Some x, ok))
   | _ \<Rightarrow> (cur, False))"

subsection \<open>Encoding\<close>

text \<open>\<open>appendCompact\<close> with \<open>escapeHTML\<close>, inside a string.\<close>

function esc_html :: "string \<Rightarrow> string" where
  "esc_html [] = []"
| "esc_html (c # cs) =
     (if c \<in> set ''<>&'' then bslash # CHR ''u'' # hex4 (of_char c) @ esc_html cs
      else if take 3 (c # cs) = [CHR 0xE2, CHR 0x80, CHR 0xA8] then bslash # ''u2028'' @ esc_html (drop 2 cs)
      else if take 3 (c # cs) = [CHR 0xE2, CHR 0x80, CHR 0xA9] then bslash # ''u2029'' @ esc_html (drop 2 cs)
      else c # esc_html cs)"
  by pat_completeness auto
termination
  by (relation "measure length") auto

declare esc_html.simps(2) [simp del]

fun token_text :: "token \<Rightarrow> string" where
  "token_text (TWs c) = []"
| "token_text (TPunct c) = [c]"
| "token_text (TStr b) = dquote # esc_html b @ [dquote]"
| "token_text (TWord w) = w"

text \<open>\<^const>\<open>None\<close>: the text is not valid JSON.\<close>

definition compact_json :: "string \<Rightarrow> string option" where
  "compact_json s = (case parse_json s of None \<Rightarrow> None
     | Some _ \<Rightarrow> map_option (\<lambda>ts. concat (map token_text ts)) (lex LNone s))"

definition marshal_raw :: "raw \<Rightarrow> string option" where
  "marshal_raw r = (case r of None \<Rightarrow> Some ''null'' | Some s \<Rightarrow> compact_json s)"

fun join :: "string \<Rightarrow> string list \<Rightarrow> string" where
  "join sep [] = []"
| "join sep [x] = x"
| "join sep (x # y # xs) = x @ sep @ join sep (y # xs)"

definition json_object :: "(string \<times> string) list \<Rightarrow> string" where
  "json_object ms = ''{'' @ join '','' (map (\<lambda>(k, v). json_quote k @ '':'' @ v) ms) @ ''}''"

text \<open>A member with \<open>omitempty\<close>.\<close>

definition if_nonempty :: "string \<Rightarrow> string \<Rightarrow> (string \<times> string) list" where
  "if_nonempty key s = (if s = [] then [] else [(key, json_quote s)])"

subsection \<open>One line\<close>

text \<open>No encoded text contains a control character, so it is one line.\<close>

definition one_line :: "string \<Rightarrow> bool" where
  "one_line s = list_all (\<lambda>c. 32 \<le> (of_char c :: nat)) s"

lemma one_line_simps [simp]:
  "one_line []" "one_line (c # s) = (32 \<le> (of_char c :: nat) \<and> one_line s)"
  "one_line (s @ t) = (one_line s \<and> one_line t)"
  by (simp_all add: one_line_def)

lemma one_line_concat [simp]: "one_line (concat ss) = list_all one_line ss"
  by (induction ss) auto

lemma one_line_take_drop: "one_line s \<Longrightarrow> one_line (take n s) \<and> one_line (drop n s)"
  by (metis append_take_drop_id one_line_simps(3))

lemma digit_line: "k < 16 \<Longrightarrow> 32 \<le> (of_char (digit k) :: nat)"
proof -
  assume "k < 16"
  then have "digit k \<in> set ''0123456789abcdef''"
    unfolding digit_def by (intro nth_mem) simp
  moreover have "\<forall>c \<in> set ''0123456789abcdef''. 32 \<le> (of_char c :: nat)" by simp
  ultimately show ?thesis by blast
qed

lemma one_line_hex4: "one_line (hex4 n)"
  by (simp add: hex4_def digit_line)

lemma one_line_esc_html: "one_line b \<Longrightarrow> one_line (esc_html b)"
proof (induction b rule: esc_html.induct)
  case (2 c cs)
  then show ?case
    by (auto simp: esc_html.simps one_line_hex4 bslash_def one_line_take_drop)
qed simp

lemma one_line_json_quote: "one_line (json_quote s)"
proof -
  have a: "one_line (esc_ascii c)" if "of_char c < (128::nat)" for c
    by (auto simp: esc_ascii_def one_line_hex4 bslash_def dquote_def)
  have "one_line (json_esc s)"
  proof (induction s rule: json_esc.induct)
    case (2 c cs)
    have t: "one_line (take (utf8_len (c # cs)) (c # cs))" if "\<not> of_char c < (128::nat)" "utf8_len (c # cs) \<noteq> 0"
    proof -
      have "\<forall>x \<in> set (take (utf8_len (c # cs)) (c # cs)). 128 \<le> (of_char x :: nat)"
        using utf8_high [of c _ cs] that by auto
      then show ?thesis by (force simp: one_line_def list_all_iff)
    qed
    show ?case
      using 2 a [of c] t
      by (auto simp: json_esc.simps bslash_def)
  qed simp
  then show ?thesis by (simp add: json_quote_def dquote_def)
qed

text \<open>Tokens of a text: string bodies have no control characters, words are made of word characters.\<close>

definition token_line :: "token \<Rightarrow> bool" where
  "token_line t = (case t of TWs c \<Rightarrow> True | TPunct c \<Rightarrow> is_punct c | TStr b \<Rightarrow> one_line b | TWord w \<Rightarrow> one_line w)"

definition mode_line :: "lmode \<Rightarrow> bool" where
  "mode_line m = (case m of LNone \<Rightarrow> True | LWord w \<Rightarrow> one_line w | LStr a \<Rightarrow> one_line a
     | LEsc a \<Rightarrow> one_line a | LHex n a \<Rightarrow> one_line a)"

lemma is_word_char_line: "is_word_char c \<Longrightarrow> 32 \<le> (of_char c :: nat)"
  by (auto simp: is_word_char_def is_digit_def is_letter_def Let_def)

lemma is_hex_line: "is_hex c \<Longrightarrow> 32 \<le> (of_char c :: nat)"
  by (auto simp: is_hex_def Let_def)

lemma lex_line: "lex m s = Some ts \<Longrightarrow> mode_line m \<Longrightarrow> list_all token_line ts"
  by (induction m s arbitrary: ts rule: lex.induct)
    (auto simp: mode_line_def token_line_def is_word_char_line is_hex_line bslash_def dquote_def
      split: if_splits)

lemma one_line_compact: "compact_json s = Some t \<Longrightarrow> one_line t"
proof -
  assume "compact_json s = Some t"
  then obtain ts where l: "lex LNone s = Some ts" and t: "t = concat (map token_text ts)"
    by (auto simp: compact_json_def split: option.splits)
  have "list_all token_line ts" by (rule lex_line [OF l]) (simp add: mode_line_def)
  then have "list_all one_line (map token_text ts)"
  proof (induction ts)
    case (Cons x ts)
    then show ?case
      by (cases x) (auto simp: token_line_def is_punct_def dquote_def one_line_esc_html)
  qed simp
  then show ?thesis by (simp add: t)
qed

lemma one_line_join: "one_line sep \<Longrightarrow> list_all one_line xs \<Longrightarrow> one_line (join sep xs)"
  by (induction sep xs rule: join.induct) auto

lemma one_line_object: "list_all (\<lambda>(k, v). one_line v) ms \<Longrightarrow> one_line (json_object ms)"
  unfolding json_object_def
  by (auto intro!: one_line_join simp: list_all_iff one_line_json_quote split_beta)

lemma one_line_show_nat: "one_line (show_nat n)"
proof (induction n rule: less_induct)
  case (less n)
  show ?case
    by (subst show_nat.simps) (auto simp: digit_line less)
qed

end
