(* ===== verification/Cli_Json.thy ===== *)
theory Cli_Json
  imports Cli_Session Json_Struct
begin

text \<open>
  \<open>kafig-cli/json.go\<close> and the messages of \<open>kafig-cli/rpc_forward.go\<close>: the lines the JSON mode reads
  and prints. A record type stands for each of the structs with their JSON tags.
\<close>

subsection \<open>Messages\<close>

record rpcResponseMsg =
  RespID :: u64
  RespResult :: raw
  RespError :: string

record rpcRequestMsg =
  ReqID :: u64
  ReqMethod :: string
  ReqParams :: raw

record jsonDispatch =
  DispName :: string
  DispParams :: raw

record jsonInput =
  InEval :: string
  InDispatch :: "jsonDispatch option"
  InReset :: bool
  InRPCResponse :: "rpcResponseMsg option"

record jsonError =
  ErrMessage :: string
  ErrName :: string
  ErrCode :: string
  ErrStack :: string

record jsonStats =
  StatOpcodes :: u64
  StatCPUTimeUs :: u64

record jsonOutput =
  OutResult :: raw
  OutError :: "jsonError option"
  OutStats :: "jsonStats option"
  OutText :: string

subsection \<open>Reading a line\<close>

text \<open>Decoding of the structs; the flag is the absence of an error.\<close>

definition decode_response :: "fields \<Rightarrow> rpcResponseMsg \<Rightarrow> rpcResponseMsg \<times> bool" where
  "decode_response fs x =
     (let (i, ok1) = decode_member ''id'' into_u64 fs (RespID x, True);
          (r, ok2) = decode_member ''result'' into_raw fs (RespResult x, True);
          (e, ok3) = decode_member ''error'' into_string fs (RespError x, True)
      in (\<lparr>RespID = i, RespResult = r, RespError = e\<rparr>, ok1 \<and> ok2 \<and> ok3))"

definition zero_response :: rpcResponseMsg where
  "zero_response = \<lparr>RespID = 0, RespResult = None, RespError = ''''\<rparr>"

definition decode_dispatch :: "fields \<Rightarrow> jsonDispatch \<Rightarrow> jsonDispatch \<times> bool" where
  "decode_dispatch fs x =
     (let (n, ok1) = decode_member ''name'' into_string fs (DispName x, True);
          (p, ok2) = decode_member ''params'' into_raw fs (DispParams x, True)
      in (\<lparr>DispName = n, DispParams = p\<rparr>, ok1 \<and> ok2))"

definition zero_dispatch :: jsonDispatch where
  "zero_dispatch = \<lparr>DispName = '''', DispParams = None\<rparr>"

definition unmarshal_input :: "string \<Rightarrow> jsonInput option" where
  "unmarshal_input data = do {
     fs \<leftarrow> object_fields data;
     (let (ev, ok1) = decode_member ''eval'' into_string fs ('''', True);
          (d, ok2) = decode_member ''dispatch'' (into_ptr decode_dispatch zero_dispatch) fs (None, True);
          (rs, ok3) = decode_member ''reset'' into_bool fs (False, True);
          (rp, ok4) = decode_member ''rpc_response'' (into_ptr decode_response zero_response) fs (None, True)
      in if ok1 \<and> ok2 \<and> ok3 \<and> ok4
         then Some \<lparr>InEval = ev, InDispatch = d, InReset = rs, InRPCResponse = rp\<rparr> else None)
   }"

definition unmarshal_response :: "string \<Rightarrow> rpcResponseMsg option" where
  "unmarshal_response data = do {
     fs \<leftarrow> object_fields data;
     (case decode_response fs zero_response of (r, ok) \<Rightarrow> if ok then Some r else None)
   }"

definition parseJSONInput :: "jsonInput \<Rightarrow> go_error + command" where
  "parseJSONInput input =
     (if InEval input \<noteq> '''' then Inr ((simple_command ''eval'')\<lparr>Source := InEval input\<rparr>)
      else case InDispatch input of
        Some d \<Rightarrow>
          let params = (case DispParams d of None \<Rightarrow> Some ''null'' | Some p \<Rightarrow> Some p)
          in Inr ((simple_command ''dispatch'')\<lparr>CmdName := DispName d, CmdParams := params\<rparr>)
      | None \<Rightarrow>
          if InReset input then Inr (simple_command ''reset'')
          else Inl (ErrMsg (''input must have '' @ dquote # ''eval'' @ dquote # '', '' @ dquote # ''dispatch''
                            @ dquote # '', or '' @ dquote # ''reset'' @ dquote # '' field'')))"

text \<open>\<open>jsonErr\<close> is the text of the error \<open>json.Unmarshal\<close> gives for a text.\<close>

definition parseJSON :: "(string \<Rightarrow> string) \<Rightarrow> string \<Rightarrow> go_error + command" where
  "parseJSON jsonErr data =
     (case unmarshal_input data of
        None \<Rightarrow> Inl (ErrWrap ''invalid JSON input: '' (ErrMsg (jsonErr data)))
      | Some input \<Rightarrow> parseJSONInput input)"

text \<open>What the reader goroutine of \<open>runJSON\<close> does with a line: who receives it.\<close>

datatype routed = RouteError go_error | RouteResponse rpcResponseMsg | RouteCommand command

definition routeLine :: "(string \<Rightarrow> string) \<Rightarrow> string \<Rightarrow> routed" where
  "routeLine jsonErr data =
     (case unmarshal_input data of
        None \<Rightarrow> RouteError (ErrWrap ''invalid JSON input: '' (ErrMsg (jsonErr data)))
      | Some input \<Rightarrow>
     (case InRPCResponse input of
        Some resp \<Rightarrow> RouteResponse resp
      | None \<Rightarrow>
     (case parseJSONInput input of Inl e \<Rightarrow> RouteError e | Inr cmd \<Rightarrow> RouteCommand cmd)))"

subsection \<open>Printing a result\<close>

definition json_error_of :: "go_error \<Rightarrow> jsonError" where
  "json_error_of e =
     (case as_JsError e of
        Some j \<Rightarrow> \<lparr>ErrMessage = Message j, ErrName = Name j, ErrCode = '''',
                   ErrStack = (case Stack j of None \<Rightarrow> '''' | Some st \<Rightarrow> st)\<rparr>
      | None \<Rightarrow>
     (case as_RuntimeError e of
        Some r \<Rightarrow> \<lparr>ErrMessage = RtMessage r, ErrName = '''', ErrCode = Code r, ErrStack = ''''\<rparr>
      | None \<Rightarrow> \<lparr>ErrMessage = error_text e, ErrName = '''', ErrCode = '''', ErrStack = ''''\<rparr>))"

definition json_output_of :: "result \<Rightarrow> jsonOutput" where
  "json_output_of r =
     \<lparr>OutResult = (case resError r of Some e \<Rightarrow> None | None \<Rightarrow> resValue r),
      OutError = map_option json_error_of (resError r),
      OutStats = map_option (\<lambda>s. \<lparr>StatOpcodes = Opcodes s, StatCPUTimeUs = CPUTimeUs s\<rparr>) (resStats r),
      OutText = resText r\<rparr>"

definition marshal_error :: "jsonError \<Rightarrow> string" where
  "marshal_error e = json_object ([(''message'', json_quote (ErrMessage e))] @ if_nonempty ''name'' (ErrName e)
     @ if_nonempty ''errorCode'' (ErrCode e) @ if_nonempty ''stack'' (ErrStack e))"

definition marshal_stats :: "jsonStats \<Rightarrow> string" where
  "marshal_stats s = json_object [(''opcodes'', show_nat (unat (StatOpcodes s))),
     (''cpuTimeUs'', show_nat (unat (StatCPUTimeUs s)))]"

text \<open>\<^const>\<open>None\<close>: the result is a raw message that is not valid JSON.\<close>

definition marshal_output :: "jsonOutput \<Rightarrow> string option" where
  "marshal_output out = do {
     res \<leftarrow> (if raw_bytes (OutResult out) = '''' then Some []
             else map_option (\<lambda>t. [(''result'', t)]) (compact_json (raw_bytes (OutResult out))));
     Some (json_object (res
       @ (case OutError out of None \<Rightarrow> [] | Some e \<Rightarrow> [(''error'', marshal_error e)])
       @ (case OutStats out of None \<Rightarrow> [] | Some s \<Rightarrow> [(''stats'', marshal_stats s)])
       @ if_nonempty ''text'' (OutText out)))
   }"

text \<open>What \<open>printJSON\<close> writes: the encoding, or nothing when it fails, and a newline.\<close>

definition printJSON :: "result \<Rightarrow> string" where
  "printJSON r = (case marshal_output (json_output_of r) of None \<Rightarrow> '''' | Some data \<Rightarrow> data) @ newline"

text \<open>The line of a forwarded call, \<^const>\<open>None\<close> when its parameters are not valid JSON.\<close>

definition marshal_request :: "rpcRequestMsg \<Rightarrow> string option" where
  "marshal_request r = do {
     p \<leftarrow> marshal_raw (ReqParams r);
     Some (json_object [(''rpc'', json_object [(''id'', show_nat (unat (ReqID r))),
       (''method'', json_quote (ReqMethod r)), (''params'', p)])])
   }"

definition request_line :: "rpcRequestMsg \<Rightarrow> string" where
  "request_line r = (case marshal_request r of None \<Rightarrow> '''' | Some data \<Rightarrow> data) @ newline"

end
