(* ===== verification/Json_Values.thy ===== *)
theory Json_Values
  imports Json_Struct Guest_Error
begin

text \<open>
  Printed JSON read back: which texts read as which value wherever they stand, proved once for
  strings, decimal numbers, literals and objects and composed along the structure of what is
  printed.
\<close>

subsection \<open>Texts that read as a value\<close>

text \<open>
  The text reads as the value \<open>j\<close>, nested \<open>d\<close> deep, at every place where a value may stand and what
  follows does not continue a word.
\<close>

definition ends_word :: "string \<Rightarrow> bool" where
  "ends_word rest = (case rest of [] \<Rightarrow> True | c # cs \<Rightarrow> \<not> is_word_char c)"

text \<open>The tokens of a text, before those of what follows.\<close>

definition prepend :: "token list \<Rightarrow> token list option \<Rightarrow> token list option" where
  "prepend ts x = map_option ((@) ts) x"

lemma prepend_simps [simp]:
  "map_option ((#) t) x = prepend [t] x" "prepend ts (prepend us x) = prepend (ts @ us) x"
  "prepend ts (Some us) = Some (ts @ us)"
  by (cases x; simp add: prepend_def)+

definition reads_as :: "nat \<Rightarrow> string \<Rightarrow> json \<Rightarrow> bool" where
  "reads_as d t j = (\<exists>ts. (\<forall>rest. ends_word rest \<longrightarrow> lex LNone (t @ rest) = prepend ts (lex LNone rest)) \<and>
     (\<forall>st e. wants_value e \<longrightarrow> length st + d \<le> maxNestingDepth \<longrightarrow> jsteps (st, e) ts = Some (finish j t st)))"

named_theorems reads "texts and the values they read as"

lemma reads_asI:
  assumes "\<And>rest. ends_word rest \<Longrightarrow> lex LNone (t @ rest) = prepend ts (lex LNone rest)"
    and "\<And>st e. wants_value e \<Longrightarrow> length st + d \<le> maxNestingDepth \<Longrightarrow> jsteps (st, e) ts = Some (finish j t st)"
  shows "reads_as d t j"
  using assms unfolding reads_as_def by blast

lemma reads_asE:
  assumes "reads_as d t j"
  obtains ts where "\<And>rest. ends_word rest \<Longrightarrow> lex LNone (t @ rest) = prepend ts (lex LNone rest)"
    and "\<And>st e. wants_value e \<Longrightarrow> length st + d \<le> maxNestingDepth \<Longrightarrow> jsteps (st, e) ts = Some (finish j t st)"
  using assms unfolding reads_as_def by blast

lemma reads_as_mono: "reads_as d t j \<Longrightarrow> d \<le> d' \<Longrightarrow> reads_as d' t j"
  by (force elim!: reads_asE intro: reads_asI)

lemma parse_reads_as:
  assumes "reads_as d t j" and "d \<le> maxNestingDepth"
  shows "parse_json t = Some (j, t)"
proof -
  obtain ts where l: "\<And>rest. ends_word rest \<Longrightarrow> lex LNone (t @ rest) = prepend ts (lex LNone rest)"
    and s: "\<And>st e. wants_value e \<Longrightarrow> length st + d \<le> maxNestingDepth \<Longrightarrow> jsteps (st, e) ts = Some (finish j t st)"
    using reads_asE [OF assms(1)] by blast
  have "lex LNone t = Some ts" using l [of "[]"] by (simp add: ends_word_def)
  moreover have "jsteps ([], EVal) ts = Some ([], EDone j t)"
    using s [of EVal "[]"] assms(2) by (simp add: wants_value_def)
  ultimately show ?thesis by (simp add: parse_json_def)
qed

lemma reads_quote [reads]: "reads_as d (json_quote s) (JStr (to_valid_utf8 s))"
proof (rule reads_asI [where ts = "[TStr (json_esc s)]"])
  show "lex LNone (json_quote s @ rest) = prepend [TStr (json_esc s)] (lex LNone rest)" for rest
    using lex_quoted [OF str_body_json_esc, of s rest] by (simp add: json_quote_def)
  show "jsteps (st, e) [TStr (json_esc s)] = Some (finish (JStr (to_valid_utf8 s)) (json_quote s) st)"
    if "wants_value e" for st e
    using that by (simp add: unquote_json_esc json_quote_def)
qed

text \<open>A word token: a literal or a number.\<close>

lemma lex_word:
  "list_all is_word_char w \<Longrightarrow> ends_word rest \<Longrightarrow> lex (LWord a) (w @ rest) = prepend [TWord (a @ w)] (lex LNone rest)"
proof (induction w arbitrary: a)
  case Nil
  then show ?case by (cases rest) (simp_all add: ends_word_def)
qed simp

lemma word_char_not: "is_word_char c \<Longrightarrow> \<not> is_ws c \<and> \<not> is_punct c \<and> c \<noteq> dquote"
  by (auto simp: is_word_char_def is_ws_def is_punct_def dquote_def is_digit_def is_letter_def Let_def)

lemma reads_word:
  assumes "list_all is_word_char w" and "w \<noteq> []" and "word_value w = Some j"
  shows "reads_as d w j"
proof (rule reads_asI [where ts = "[TWord w]"])
  obtain c cs where w: "w = c # cs" using assms(2) by (cases w) auto
  show "lex LNone (w @ rest) = prepend [TWord w] (lex LNone rest)" if "ends_word rest" for rest
    using lex_word [of cs rest "[c]"] that assms(1) word_char_not [of c] by (simp add: w)
  show "jsteps (st, e) [TWord w] = Some (finish j w st)" if "wants_value e" for st e
    using that assms(3) by simp
qed

lemma reads_literals [reads]:
  "reads_as d ''null'' JNull" "reads_as d ''true'' (JBool True)" "reads_as d ''false'' (JBool False)"
  by (rule reads_word; simp add: word_value_def is_word_char_def is_letter_def)+

text \<open>Decimal numbers.\<close>

lemma digit_dec: "n < 10 \<Longrightarrow> is_digit (digit n) \<and> of_char (digit n) = 48 + n"
proof -
  have "\<forall>n<10. is_digit (digit n) \<and> of_char (digit n) = 48 + n"
    by (simp add: eval_nat_numeral All_less_Suc digit_def is_digit_def)
  then show "n < 10 \<Longrightarrow> is_digit (digit n) \<and> of_char (digit n) = 48 + n" by blast
qed

lemma show_nat_digits: "list_all is_digit (show_nat n)"
proof (induction n rule: less_induct)
  case (less n)
  show ?case by (subst show_nat.simps) (auto simp: digit_dec less)
qed

lemma digits_value_show_nat: "digits_value (show_nat n) = n"
proof (induction n rule: less_induct)
  case (less n)
  have s: "digits_value (w @ [digit k]) = 10 * digits_value w + k" if "k < 10" for w k
    using digit_dec [OF that] by (simp add: digits_value_def)
  show ?case
    using s [of "n mod 10"] s [of n "[]"] less [of "n div 10"]
    by (subst show_nat.simps) (auto simp: digits_value_def)
qed

lemma show_nat_number: "is_json_number (show_nat n)"
proof -
  have "\<exists>c cs. show_nat n = c # cs \<and> is_digit c \<and> list_all is_digit cs \<and> c \<noteq> CHR ''-'' \<and> (c = CHR ''0'' \<longrightarrow> cs = [])"
  proof (induction n rule: less_induct)
    case (less n)
    show ?case
    proof (cases "n < 10")
      case True
      with digit_dec [OF True] show ?thesis
        by (auto simp: show_nat_small is_digit_def)
    next
      case False
      then have "n div 10 < n" "0 < n div 10" by auto
      from less [OF this(1)] obtain c cs where c: "show_nat (n div 10) = c # cs" "is_digit c"
        "list_all is_digit cs" "c \<noteq> CHR ''-''" "c = CHR ''0'' \<longrightarrow> cs = []" by blast
      have "c \<noteq> CHR ''0''"
      proof
        assume "c = CHR ''0''"
        with c have "digits_value (show_nat (n div 10)) = 0" by (simp add: digits_value_def)
        with \<open>0 < n div 10\<close> show False by (simp add: digits_value_show_nat)
      qed
      with c False show ?thesis
        by (subst show_nat.simps) (auto simp: digit_dec)
    qed
  qed
  then obtain c cs where c: "show_nat n = c # cs" "is_digit c" "list_all is_digit cs" "c \<noteq> CHR ''-''"
    "c = CHR ''0'' \<longrightarrow> cs = []" by blast
  have "dropWhile is_digit cs = []" using c(3) by (simp add: dropWhile_eq_Nil_conv list_all_iff)
  with c show ?thesis by (auto simp: is_json_number_def num_frac_def simp del: dropWhile_eq_Nil_conv)
qed

lemma reads_number [reads]: "reads_as d (show_nat n) (JNum (show_nat n))"
proof (rule reads_word)
  have d: "list_all is_digit (show_nat n)" by (rule show_nat_digits)
  then show "list_all is_word_char (show_nat n)" by (auto simp: list_all_iff is_word_char_def)
  have "show_nat n \<noteq> w" if "w \<noteq> []" "\<not> is_digit (hd w)" for w
    using d that by (cases w) auto
  then show "word_value (show_nat n) = Some (JNum (show_nat n))"
    by (simp add: word_value_def show_nat_number is_digit_def)
qed (rule show_nat_nonempty)

subsection \<open>Objects\<close>

text \<open>The members of an object, their texts and the fields they are decoded to.\<close>

definition member_reads :: "nat \<Rightarrow> (string \<times> string) \<Rightarrow> (string \<times> string \<times> json) \<Rightarrow> bool" where
  "member_reads d m f = (case (m, f) of ((k, t), (k', r, j)) \<Rightarrow> k' = to_valid_utf8 k \<and> r = t \<and> reads_as d t j)"

abbreviation members_read :: "nat \<Rightarrow> (string \<times> string) list \<Rightarrow> fields \<Rightarrow> bool" where
  "members_read d \<equiv> list_all2 (member_reads d)"

definition member_text :: "string \<times> string \<Rightarrow> string" where
  "member_text m = (case m of (k, v) \<Rightarrow> json_quote k @ '':'' @ v)"

lemma json_object_alt: "json_object ms = ''{'' @ join '','' (map member_text ms) @ ''}''"
proof -
  have "(\<lambda>(k, v). json_quote k @ '':'' @ v) = member_text"
    by (rule ext) (simp add: member_text_def split_beta)
  then show ?thesis by (simp add: json_object_def)
qed

lemma lex_key: "lex LNone (json_quote k @ CHR '':'' # rest) = prepend [TStr (json_esc k), TPunct CHR '':''] (lex LNone rest)"
  using lex_quoted [OF str_body_json_esc, of k "CHR '':'' # rest"]
  by (simp add: json_quote_def is_ws_def is_punct_def)

lemma lex_punct: "is_punct c \<Longrightarrow> lex LNone (c # rest) = prepend [TPunct c] (lex LNone rest)"
  by (auto simp: is_punct_def is_ws_def)

lemma puncts: "is_punct CHR ''{''" "is_punct CHR ''}''" "is_punct CHR '',''" "is_punct CHR '':''"
  "ends_word (CHR ''}'' # rest)" "ends_word (CHR '','' # rest)"
  by (simp_all add: is_punct_def ends_word_def lex_char_simps)

lemma wants: "wants_value EVal" "wants_key EKey" "wants_key EKeyOrEnd" "wants_key e \<Longrightarrow> \<not> wants_value e"
  by (simp_all add: wants_value_def wants_key_def split: expect.splits)

lemma member_tokens:
  assumes "member_reads d m f"
  obtains ts where "\<And>rest. ends_word rest \<Longrightarrow> lex LNone (member_text m @ rest) = prepend ts (lex LNone rest)"
    and "\<And>st fs k raw e. wants_key e \<Longrightarrow> Suc (length st) + d \<le> maxNestingDepth \<Longrightarrow>
      jsteps (FObj fs k raw # st, e) ts = Some (FObj (fs @ [f]) [] (raw @ member_text m) # st, EComma)"
proof -
  obtain k t j where m: "m = (k, t)" and f: "f = (to_valid_utf8 k, t, j)" and r: "reads_as d t j"
    using assms(1) by (cases m; cases f) (auto simp: member_reads_def)
  obtain ts where l: "\<And>rest. ends_word rest \<Longrightarrow> lex LNone (t @ rest) = prepend ts (lex LNone rest)"
    and s: "\<And>st e. wants_value e \<Longrightarrow> length st + d \<le> maxNestingDepth \<Longrightarrow> jsteps (st, e) ts = Some (finish j t st)"
    using reads_asE [OF r] by blast
  show thesis
  proof (rule that [of "[TStr (json_esc k), TPunct CHR '':''] @ ts"])
    show "lex LNone (member_text m @ rest) = prepend ([TStr (json_esc k), TPunct CHR '':''] @ ts) (lex LNone rest)"
      if "ends_word rest" for rest
      using l [OF that] by (simp add: member_text_def m lex_key)
    show "jsteps (FObj fs k' raw # st, e) ([TStr (json_esc k), TPunct CHR '':''] @ ts)
        = Some (FObj (fs @ [f]) [] (raw @ member_text m) # st, EComma)"
      if "wants_key e" "Suc (length st) + d \<le> maxNestingDepth" for st fs k' raw e
      using that wants(4) [OF that(1)] s [of EVal "FObj fs (to_valid_utf8 k) (raw @ json_quote k @ '':'') # st"]
      by (simp add: unquote_json_esc member_text_def m f json_quote_def wants)
  qed
qed

lemma members_tokens:
  assumes "members_read d ms fs'" and "ms \<noteq> []"
  shows "\<exists>ts. (\<forall>rest. lex LNone (join '','' (map member_text ms) @ CHR ''}'' # rest) = prepend ts (lex LNone rest)) \<and>
    (\<forall>st fs k raw e. wants_key e \<longrightarrow> Suc (length st) + d \<le> maxNestingDepth \<longrightarrow> jsteps (FObj fs k raw # st, e) ts
      = Some (finish (JObj (fs @ fs')) (raw @ join '','' (map member_text ms) @ ''}'') st))"
  using assms
proof (induction ms arbitrary: fs')
  case (Cons m ms)
  then obtain f fs2 where fs': "fs' = f # fs2" and mr: "member_reads d m f" and msr: "members_read d ms fs2"
    by (cases fs') auto
  obtain ts where l: "\<And>rest. ends_word rest \<Longrightarrow> lex LNone (member_text m @ rest) = prepend ts (lex LNone rest)"
    and s: "\<And>st fs k raw e. wants_key e \<Longrightarrow> Suc (length st) + d \<le> maxNestingDepth \<Longrightarrow>
      jsteps (FObj fs k raw # st, e) ts = Some (FObj (fs @ [f]) [] (raw @ member_text m) # st, EComma)"
    using member_tokens [OF mr] by blast
  show ?case
  proof (cases ms)
    case Nil
    with msr have "fs2 = []" by simp
    with Nil show ?thesis
      by (intro exI [of _ "ts @ [TPunct CHR ''}'']"])
        (simp add: l lex_punct puncts s jsteps_append fs' del: lex.simps)
  next
    case m2: (Cons m2 ms2)
    then obtain ts2
      where l2: "\<And>rest. lex LNone (join '','' (map member_text ms) @ CHR ''}'' # rest) = prepend ts2 (lex LNone rest)"
      and s2: "\<And>st fs k raw e. wants_key e \<Longrightarrow> Suc (length st) + d \<le> maxNestingDepth \<Longrightarrow> jsteps (FObj fs k raw # st, e) ts2
        = Some (finish (JObj (fs @ fs2)) (raw @ join '','' (map member_text ms) @ ''}'') st)"
      using Cons.IH [OF msr] by auto
    have j: "join '','' (map member_text (m # ms)) = member_text m @ CHR '','' # join '','' (map member_text ms)"
      by (simp add: m2)
    show ?thesis
      by (intro exI [of _ "ts @ TPunct CHR '','' # ts2"])
        (simp add: j l lex_punct puncts l2 s jsteps_append s2 wants fs' del: lex.simps join.simps list.map)
  qed
qed simp

lemma reads_object [reads]:
  assumes "members_read d ms fs"
  shows "reads_as (Suc d) (json_object ms) (JObj fs)"
proof (cases ms)
  case Nil
  with assms have fs: "fs = []" by simp
  show ?thesis
    by (rule reads_asI [where ts = "[TPunct CHR ''{'', TPunct CHR ''}'']"])
      (simp_all add: Nil fs json_object_def lex_punct puncts del: lex.simps)
next
  case (Cons m ms')
  then obtain ts where l: "\<And>rest. lex LNone (join '','' (map member_text ms) @ CHR ''}'' # rest) = prepend ts (lex LNone rest)"
    and s: "\<And>st fs0 k raw e. wants_key e \<Longrightarrow> Suc (length st) + d \<le> maxNestingDepth \<Longrightarrow> jsteps (FObj fs0 k raw # st, e) ts
      = Some (finish (JObj (fs0 @ fs)) (raw @ join '','' (map member_text ms) @ ''}'') st)"
    using members_tokens [OF assms] by auto
  show ?thesis
    by (rule reads_asI [where ts = "TPunct CHR ''{'' # ts"])
      (simp_all add: json_object_alt l s lex_punct puncts wants del: lex.simps)
qed

end
