(* ===== verification/Json_Compact.thy ===== *)
theory Json_Compact
  imports Json_Values
begin

text \<open>
  Compacting keeps the value: what \<open>json.Marshal\<close> makes of a raw message (white space dropped, the
  characters unsafe in HTML escaped) is a text that reads as the same value.
\<close>

subsection \<open>String bodies the scanner accepts\<close>

inductive fbody :: "string \<Rightarrow> bool" where
  nil: "fbody []"
| plain: "c \<noteq> dquote \<Longrightarrow> c \<noteq> bslash \<Longrightarrow> 32 \<le> (of_char c :: nat) \<Longrightarrow> fbody s \<Longrightarrow> fbody (c # s)"
| esc: "e \<in> set ''bfnrt/'' \<or> e = dquote \<or> e = bslash \<Longrightarrow> fbody s \<Longrightarrow> fbody (bslash # e # s)"
| hex: "length hs = 4 \<Longrightarrow> list_all is_hex hs \<Longrightarrow> fbody s \<Longrightarrow> fbody (bslash # CHR ''u'' # hs @ s)"

lemma fbody_append: "fbody a \<Longrightarrow> fbody b \<Longrightarrow> fbody (a @ b)"
  by (induction a rule: fbody.induct) (auto intro: fbody.intros)

definition mode_body :: "lmode \<Rightarrow> bool" where
  "mode_body m = (case m of LStr a \<Rightarrow> fbody a
     | LEsc a \<Rightarrow> (\<exists>b. a = b @ [bslash] \<and> fbody b)
     | LHex n a \<Rightarrow> (\<exists>b hs. a = b @ bslash # CHR ''u'' # hs \<and> fbody b \<and> list_all is_hex hs \<and> length hs + n = 4 \<and> 1 \<le> n)
     | LWord w \<Rightarrow> w \<noteq> [] \<and> list_all is_word_char w
     | LNone \<Rightarrow> True)"

definition token_ok :: "token \<Rightarrow> bool" where
  "token_ok t = (case t of TWs c \<Rightarrow> True | TPunct c \<Rightarrow> is_punct c | TStr b \<Rightarrow> fbody b
     | TWord w \<Rightarrow> w \<noteq> [] \<and> list_all is_word_char w)"

lemma prepend_Some [simp]: "(prepend ts x = Some ys) = (\<exists>zs. x = Some zs \<and> ys = ts @ zs)"
  by (cases x) (auto simp: prepend_def)

lemma lex_tokens_ok: "lex m s = Some ts \<Longrightarrow> mode_body m \<Longrightarrow> list_all token_ok ts"
proof (induction m s arbitrary: ts rule: lex.induct)
  case (8 acc c cs)
  have p: "c \<noteq> dquote \<Longrightarrow> c \<noteq> bslash \<Longrightarrow> 32 \<le> (of_char c :: nat) \<Longrightarrow> fbody (acc @ [c])"
    using 8(5) by (intro fbody_append) (auto simp: mode_body_def intro: fbody.intros)
  show ?case
    using 8 p by (auto simp: mode_body_def token_ok_def split: if_splits)
next
  case (9 acc c cs)
  then obtain b where b: "acc = b @ [bslash]" "fbody b" by (auto simp: mode_body_def)
  have e: "c \<in> set ''bfnrt/'' \<or> c = dquote \<or> c = bslash \<Longrightarrow> fbody (acc @ [c])"
    using fbody_append [OF b(2) fbody.esc [OF _ fbody.nil], of c] by (simp add: b(1))
  have u: "mode_body (LHex 4 (acc @ [CHR ''u'']))"
    using b by (auto simp: mode_body_def)
  have s: "mode_body (LStr (acc @ [c]))" if "c \<in> set ''bfnrt/'' \<or> c = dquote \<or> c = bslash"
    using e [OF that] by (simp add: mode_body_def)
  show ?case
    using "9.IH" "9.prems"(1) u s by (auto split: if_splits)
next
  case (10 n acc c cs)
  then obtain b hs where b: "acc = b @ bslash # CHR ''u'' # hs" "fbody b" "list_all is_hex hs" "length hs + n = 4" "1 \<le> n"
    by (auto simp: mode_body_def)
  have s: "is_hex c \<Longrightarrow> n \<le> 1 \<Longrightarrow> mode_body (LStr (acc @ [c]))"
    using fbody_append [OF b(2) fbody.hex [OF _ _ fbody.nil], of "hs @ [c]"] b by (simp add: mode_body_def)
  have h: "is_hex c \<Longrightarrow> \<not> n \<le> 1 \<Longrightarrow> mode_body (LHex (n - 1) (acc @ [c]))"
    unfolding mode_body_def lmode.case
    by (rule exI [of _ b], rule exI [of _ "hs @ [c]"]) (use b in auto)
  show ?case
    using "10.IH" "10.prems"(1) s h by (auto split: if_splits)
qed (auto simp: mode_body_def token_ok_def fbody.nil split: if_splits)

lemma fbody_str_body: "fbody b \<Longrightarrow> str_body b"
proof (induction rule: fbody.induct)
  case (hex hs s)
  then obtain w x y z where "hs = [w, x, y, z]" by (auto simp: length_Suc_conv eval_nat_numeral)
  with hex str_body_append [OF str_body_hex [of w x y z] hex(4)] show ?case by simp
next
  case (esc e s)
  with str_body_append [OF str_body_esc [of e] esc(3)] show ?case by simp
qed (auto intro: str_body_Cons str_body_plain simp: str_bodies)


lemma fbody_Cons: "fbody (c # s) \<Longrightarrow> c \<noteq> bslash \<Longrightarrow> fbody s"
  by (cases rule: fbody.cases) auto

lemma fbody_drop: "fbody s \<Longrightarrow> \<forall>c \<in> set (take n s). c \<noteq> bslash \<Longrightarrow> fbody (drop n s)"
proof (induction n arbitrary: s)
  case (Suc n)
  then show ?case by (cases s) (auto intro: fbody_Cons)
qed simp

subsection \<open>Escaping for HTML keeps what a body decodes to\<close>

lemma esc_html_plain:
  "c \<notin> set ''<>&'' \<Longrightarrow> c \<noteq> CHR 0xE2 \<Longrightarrow> esc_html (c # cs) = c # esc_html cs"
  by (simp add: esc_html.simps)

text \<open>Continuation bytes pass through, and what follows them starts with one after as before.\<close>

definition cont :: "char \<Rightarrow> bool" where
  "cont c = (128 \<le> (of_char c :: nat) \<and> (of_char c :: nat) \<le> 191)"

lemma cont_plain: "cont c \<Longrightarrow> c \<notin> set ''<>&'' \<and> c \<noteq> CHR 0xE2 \<and> c \<noteq> bslash"
  by (auto simp: cont_def bslash_def)

lemma esc_html_cont: "\<forall>c \<in> set t. cont c \<Longrightarrow> esc_html (t @ s) = t @ esc_html s"
proof (induction t)
  case (Cons c t)
  then show ?case using cont_plain [of c] esc_html_plain [of c "t @ s"] by simp
qed simp

lemma hd_esc_html: "s \<noteq> [] \<Longrightarrow> esc_html s \<noteq> [] \<and>
    (hd (esc_html s) = hd s \<or> hd (esc_html s) = bslash \<and> \<not> cont (hd s))"
  by (cases s) (auto simp: esc_html.simps cont_def)

lemma byte_in_0: "128 \<le> lo \<Longrightarrow> hi \<le> 191 \<Longrightarrow> byte_in (esc_html s) 0 lo hi = byte_in s 0 lo hi"
  using hd_esc_html [of s] by (cases s; cases "esc_html s") (auto simp: byte_in_def cont_def bslash_def)

lemma byte_in_Suc: "byte_in (c # s) (Suc i) lo hi = byte_in s i lo hi"
  by (auto simp: byte_in_def)

lemma byte_in_cont: "byte_in s i 128 191 \<Longrightarrow> cont (s ! i)"
  by (auto simp: byte_in_def cont_def)

text \<open>As long as all bytes before are continuation bytes, the byte at an index is tested alike.\<close>

lemma byte_in_esc_html:
  "128 \<le> lo \<Longrightarrow> hi \<le> 191 \<Longrightarrow> \<forall>j < i. byte_in s j 128 191 \<Longrightarrow> byte_in (esc_html s) i lo hi = byte_in s i lo hi"
proof (induction i arbitrary: s)
  case (Suc i)
  then have z: "byte_in s 0 128 191" by simp
  then obtain c cs where s: "s = c # cs" by (cases s) (auto simp: byte_in_def)
  with z have "cont c" using byte_in_cont [of s 0] by simp
  then have "esc_html s = c # esc_html cs" using cont_plain by (simp add: s esc_html_plain)
  moreover have "\<forall>j < i. byte_in cs j 128 191" using Suc.prems(3) by (auto simp: s byte_in_Suc)
  ultimately show ?case using Suc.IH [of cs] Suc.prems by (simp add: s byte_in_Suc)
qed (simp add: byte_in_0)

lemma utf8_first_range2: "utf8_first b = (n, lo, hi) \<Longrightarrow> 1 < n \<Longrightarrow> 128 \<le> lo \<and> hi \<le> 191 \<and> n \<le> 4"
  by (auto simp: utf8_first_def split: if_splits)

lemma utf8_len_esc_html: "utf8_len (c # esc_html s) = utf8_len (c # s)"
proof -
  obtain n lo hi where f: "utf8_first (of_char c) = (n, lo, hi)" by (cases "utf8_first (of_char c)")
  show ?thesis
  proof (cases "n \<le> 1")
    case True
    with f show ?thesis by (simp add: utf8_len.simps)
  next
    case False
    note r = utf8_first_range2 [OF f] False
    have 0: "byte_in (esc_html s) 0 lo hi = byte_in s 0 lo hi" using r by (intro byte_in_0) auto
    have w: "byte_in s 0 lo hi \<Longrightarrow> byte_in s 0 128 191" using r by (auto simp: byte_in_def)
    have "(\<forall>i \<in> set [1..<n - 1]. byte_in (esc_html s) i 128 191) = (\<forall>i \<in> set [1..<n - 1]. byte_in s i 128 191)"
      if b: "byte_in s 0 lo hi"
    proof -
      have one: "byte_in (esc_html s) 1 128 191 = byte_in s 1 128 191"
        using byte_in_esc_html [of 128 191 1 s] w [OF b] by simp
      have two: "byte_in s 1 128 191 \<Longrightarrow> byte_in (esc_html s) 2 128 191 = byte_in s 2 128 191"
        using byte_in_esc_html [of 128 191 2 s] w [OF b] by (simp add: less_2_cases_iff)
      consider "n = 2" | "n = 3" | "n = 4" using r by linarith
      then show ?thesis using one two by cases (auto simp: eval_nat_numeral)
    qed
    with 0 f show ?thesis by (auto simp: utf8_len.simps)
  qed
qed


lemma utf8_tail_cont:
  assumes "128 \<le> (of_char c :: nat)" and "x \<in> set (take (utf8_len (c # cs) - 1) cs)"
  shows "cont x"
proof (cases c cs rule: utf8_len_Cons_cases)
  case short
  then have "utf8_len (c # cs) - 1 = 0" by linarith
  with assms(2) show ?thesis by (simp only: take0 list.set empty_iff)
next
  case (long n lo hi)
  from assms(2) obtain i where i: "i < n - 1" "i < length cs" "x = cs ! i"
    by (auto simp: long(3) in_set_conv_nth)
  have "byte_in cs i 128 191"
  proof (cases "i = 0")
    case True
    with long(4) utf8_first_range2 [OF long(1,2)] show ?thesis by (auto simp: byte_in_def)
  next
    case False
    with i(1) long(5) show ?thesis by simp
  qed
  then show ?thesis using i(3) byte_in_cont by simp
qed

lemma esc_html_keep: "\<forall>c \<in> set t. c \<notin> set ''<>&'' \<and> c \<noteq> CHR 0xE2 \<Longrightarrow> esc_html (t @ s) = t @ esc_html s"
proof (induction t)
  case (Cons c t)
  then show ?case using esc_html_plain [of c "t @ s"] by simp
qed simp

lemma hex_keep: "list_all is_hex hs \<Longrightarrow> \<forall>c \<in> set hs. c \<notin> set ''<>&'' \<and> c \<noteq> CHR 0xE2"
  by (auto simp: list_all_iff is_hex_def)

lemma esc_html_hex: "list_all is_hex hs \<Longrightarrow> esc_html (bslash # CHR ''u'' # hs @ s) = bslash # CHR ''u'' # hs @ esc_html s"
  using esc_html_keep [of "bslash # CHR ''u'' # hs" s] hex_keep [of hs] by (simp add: bslash_def)

definition low_surrogate :: "nat option \<Rightarrow> bool" where
  "low_surrogate x = (case x of None \<Rightarrow> False | Some r \<Rightarrow> 56320 \<le> r \<and> r < 57344)"

lemma getu4_hex: "length hs = 4 \<Longrightarrow> list_all is_hex hs \<Longrightarrow>
    getu4 (bslash # CHR ''u'' # hs @ s) = Some (foldl (\<lambda>a c. 16 * a + hex_val c) 0 hs)"
  by (simp add: getu4_def)

lemma getu4_not: "s = [] \<or> hd s \<noteq> bslash \<Longrightarrow> getu4 s = None"
  by (cases s) (auto simp: getu4_def)

lemma esc_html_cases:
  obtains (html) "c \<in> set ''<>&''" and "esc_html (c # cs) = bslash # CHR ''u'' # hex4 (of_char c) @ esc_html cs"
  | (sep) t u where "c # cs = [CHR 0xE2, CHR 0x80, CHR 0xA8] @ t \<and> u = ''2028'' \<or>
        c # cs = [CHR 0xE2, CHR 0x80, CHR 0xA9] @ t \<and> u = ''2029''"
      and "esc_html (c # cs) = bslash # CHR ''u'' # u @ esc_html t"
  | (keep) "esc_html (c # cs) = c # esc_html cs" and "c \<notin> set ''<>&''"
proof -
  have d: "drop 2 cs = drop 3 (c # cs)" by (simp add: eval_nat_numeral)
  have s: "c # cs = take 3 (c # cs) @ drop 3 (c # cs)" by (simp only: append_take_drop_id)
  consider (a) "c \<in> set ''<>&''" | (b) "c \<notin> set ''<>&''" "take 3 (c # cs) = [CHR 0xE2, CHR 0x80, CHR 0xA8]"
    | (c) "c \<notin> set ''<>&''" "take 3 (c # cs) = [CHR 0xE2, CHR 0x80, CHR 0xA9]"
    | (d) "c \<notin> set ''<>&''" "take 3 (c # cs) \<noteq> [CHR 0xE2, CHR 0x80, CHR 0xA8]"
      "take 3 (c # cs) \<noteq> [CHR 0xE2, CHR 0x80, CHR 0xA9]" by blast
  then show thesis
  proof cases
    case a
    then show ?thesis by (intro html) (simp_all only: esc_html.simps if_True)
  next
    case b
    then have "esc_html (c # cs) = bslash # ''u2028'' @ esc_html (drop 2 cs)"
      by (subst esc_html.simps(2)) (simp del: take_Suc_Cons)
    with b s d show ?thesis by (intro sep [of "drop 2 cs" "''2028''"]) (simp_all only: append_Cons append_Nil simp_thms)
  next
    case c
    then have "esc_html (c # cs) = bslash # ''u2029'' @ esc_html (drop 2 cs)"
      by (subst esc_html.simps(2)) (simp del: take_Suc_Cons)
    with c s d show ?thesis by (intro sep [of "drop 2 cs" "''2029''"]) (simp_all only: append_Cons append_Nil simp_thms)
  next
    case d
    show ?thesis
    proof (rule keep)
      show "esc_html (c # cs) = c # esc_html cs" using d by (simp only: esc_html.simps if_False)
    qed (rule d(1))
  qed
qed

lemma getu4_esc_html:
  assumes "fbody s"
  shows "(if low_surrogate (getu4 s) then getu4 (esc_html s) = getu4 s \<and> fbody (drop 6 s) \<and>
      drop 6 (esc_html s) = esc_html (drop 6 s) else \<not> low_surrogate (getu4 (esc_html s)))"
  using assms
proof cases
  case nil
  then show ?thesis by (simp add: getu4_def low_surrogate_def)
next
  case (plain c t)
  then have "getu4 s = None" by (intro getu4_not) simp
  moreover have "\<not> low_surrogate (getu4 (esc_html s))"
  proof -
    show ?thesis unfolding plain(1)
    proof (cases c t rule: esc_html_cases)
      case html
      then have "getu4 (esc_html (c # t)) = Some (of_char c)" using getu4_hex4 [of "of_char c" "esc_html t"] by auto
      with html(1) show "\<not> low_surrogate (getu4 (esc_html (c # t)))" by (auto simp: low_surrogate_def)
    next
      case (sep r u)
      then show "\<not> low_surrogate (getu4 (esc_html (c # t)))"
        using getu4_hex [of u "esc_html r"] by (auto simp: low_surrogate_def is_hex_def hex_val_def)
    next
      case keep
      then show "\<not> low_surrogate (getu4 (esc_html (c # t)))"
        using getu4_not [of "c # esc_html t"] plain(3) by (simp add: low_surrogate_def)
    qed
  qed
  ultimately show ?thesis by (simp add: low_surrogate_def)
next
  case (esc e t)
  then have "e \<noteq> CHR ''u''" by (auto simp: dquote_def bslash_def)
  moreover have "esc_html s = bslash # e # esc_html t"
    using esc_html_keep [of "[bslash, e]" t] esc(2) by (auto simp: esc(1) bslash_def dquote_def)
  ultimately show ?thesis by (simp add: esc(1) getu4_def low_surrogate_def)
next
  case (hex hs t)
  have "drop 6 (bslash # CHR ''u'' # hs @ x) = x" for x using hex(2) by simp
  with hex show ?thesis
    by (simp only: hex(1) esc_html_hex [OF hex(3)] getu4_hex [OF hex(2,3)]) simp
qed


lemma unquote_getu4:
  "getu4 (bslash # cs) = Some r \<Longrightarrow> unquote (bslash # cs) =
     (if 55296 \<le> r \<and> r < 57344 then
        (if r < 56320 \<and> low_surrogate (getu4 (drop 5 cs))
         then encode_rune (65536 + (r - 55296) * 1024 + (the (getu4 (drop 5 cs)) - 56320)) @ unquote (drop 11 cs)
         else utf8_error @ unquote (drop 5 cs))
      else encode_rune r @ unquote (drop 5 cs))"
  by (subst unquote.simps(2)) (auto simp: low_surrogate_def split: option.splits)

theorem unquote_esc_html: "fbody b \<Longrightarrow> unquote (esc_html b) = unquote b"
proof (induction "length b" arbitrary: b rule: less_induct)
  case less
  from less.prems show ?case
  proof cases
    case nil
    then show ?thesis by simp
  next
    case (esc e s)
    then have u: "e \<noteq> CHR ''u''" by (auto simp: dquote_def bslash_def)
    have "esc_html b = bslash # e # esc_html s"
      using esc_html_keep [of "[bslash, e]" s] esc(2) by (auto simp: esc(1) bslash_def dquote_def)
    with less.hyps [of s] esc unquote_esc [OF u] show ?thesis by simp
  next
    case (hex hs s)
    let ?r = "foldl (\<lambda>a c. 16 * a + hex_val c) 0 hs"
    have d: "drop 5 (CHR ''u'' # hs @ x) = x" "drop 11 (CHR ''u'' # hs @ x) = drop 6 x" for x using hex(2) by simp_all
    have IH: "unquote (esc_html s) = unquote s" using less.hyps [of s] hex by simp
    have IH6: "fbody (drop 6 s) \<Longrightarrow> unquote (esc_html (drop 6 s)) = unquote (drop 6 s)"
      using less.hyps [of "drop 6 s"] hex by simp
    note g = getu4_esc_html [OF hex(4)]
    show ?thesis
      unfolding hex(1) esc_html_hex [OF hex(3)] unquote_getu4 [OF getu4_hex [OF hex(2,3)]] d
      using g IH IH6 by (auto split: if_splits)
  next
    case (plain c s)
    show ?thesis unfolding plain(1)
    proof (cases c s rule: esc_html_cases)
      case html
      then have "of_char c < (128::nat)" by auto
      moreover have "unquote (esc_html s) = unquote s" using less.hyps [of s] plain by simp
      moreover have "encode_rune (of_char c) = [c]" if "of_char c < (128::nat)" using that by (simp add: encode_rune_def)
      ultimately show "unquote (esc_html (c # s)) = unquote (c # s)"
        using unquote_hex4 [of "of_char c" "esc_html s"] plain(3) by (simp add: html(2) unquote_ascii)
    next
      case (sep t u)
      then obtain z where z: "c # s = [CHR 0xE2, CHR 0x80, z] @ t" "z = CHR 0xA8 \<and> u = ''2028'' \<or> z = CHR 0xA9 \<and> u = ''2029''"
        by auto
      have "fbody (drop 3 (c # s))"
        using less.prems z by (intro fbody_drop) (auto simp: plain(1) bslash_def)
      then have "fbody t" by (simp add: z(1))
      then have IH: "unquote (esc_html t) = unquote t" using less.hyps [of t] plain(1) z(1) by simp
      have w: "utf8_len (c # s) = 3" using z by (auto simp: utf8_len.simps utf8_first_def byte_in_def)
      have tk: "take 3 (c # s) = [CHR 0xE2, CHR 0x80, z]" unfolding z(1) by simp
      have "c = CHR 0xE2" using z(1) by simp
      then have "unquote (c # s) = [CHR 0xE2, CHR 0x80, z] @ unquote t"
        using unquote_high [of c s t, unfolded w tk] unfolding z(1) by simp
      moreover have "unquote (bslash # CHR ''u'' # u @ esc_html t) = [CHR 0xE2, CHR 0x80, z] @ unquote (esc_html t)"
        using z(2) unquote_u(2,3) [of "esc_html t"] by auto
      ultimately show "unquote (esc_html (c # s)) = unquote (c # s)" using IH by (simp only: sep(2))
    next
      case keep
      have IH: "unquote (esc_html s) = unquote s" using less.hyps [of s] plain by simp
      show "unquote (esc_html (c # s)) = unquote (c # s)"
      proof (cases "of_char c < (128::nat)")
        case True
        with IH plain show ?thesis by (simp add: keep unquote_ascii)
      next
        case high: False
        let ?w = "utf8_len (c # s)"
        show ?thesis
        proof (cases "?w = 0")
          case True
          with IH plain(3) utf8_len_esc_html [of c s] show ?thesis by (simp add: keep unquote.simps(2))
        next
          case False
          let ?t = "take (?w - 1) s" and ?d = "drop (?w - 1) s"
          have ct: "\<forall>x \<in> set ?t. cont x" using utf8_tail_cont [of c _ s] high by auto
          have e: "esc_html s = ?t @ esc_html ?d" using esc_html_cont [OF ct, of ?d] by simp
          have "fbody ?d" using plain(5) ct cont_plain by (intro fbody_drop) auto
          then have IHd: "unquote (esc_html ?d) = unquote ?d" using less.hyps [of ?d] plain(1) by simp
          have t: "take ?w (c # s) = c # ?t" by (rule take_drop_utf8 [OF False])
          note h = unquote_high [of c s, unfolded t]
          have "unquote (esc_html (c # s)) = unquote ((c # ?t) @ esc_html ?d)" by (simp only: keep e append_Cons)
          also have "\<dots> = (c # ?t) @ unquote (esc_html ?d)" using h high False by simp
          also have "\<dots> = unquote ((c # ?t) @ ?d)" using h [of ?d] high False IHd by simp
          finally show ?thesis by simp
        qed
      qed
    qed
  qed
qed

lemma fbody_esc_html: "fbody b \<Longrightarrow> fbody (esc_html b)"
proof (induction "length b" arbitrary: b rule: less_induct)
  case less
  from less.prems show ?case
  proof cases
    case nil
    then show ?thesis by (simp add: fbody.nil)
  next
    case (esc e s)
    have "esc_html b = bslash # e # esc_html s"
      using esc_html_keep [of "[bslash, e]" s] esc(2) by (auto simp: esc(1) bslash_def dquote_def)
    with less.hyps [of s] esc fbody.esc [OF esc(2)] show ?thesis by simp
  next
    case (hex hs s)
    with less.hyps [of s] fbody.hex [OF hex(2,3)] show ?thesis by (simp add: hex(1) esc_html_hex [OF hex(3)])
  next
    case (plain c s)
    have IH: "fbody (esc_html s)" using less.hyps [of s] plain by simp
    show ?thesis unfolding plain(1)
    proof (cases c s rule: esc_html_cases)
      case html
      have "list_all is_hex (hex4 n)" "length (hex4 n) = 4" for n by (simp_all add: hex4_def is_hex_digit)
      with IH show "fbody (esc_html (c # s))" by (simp add: html(2) fbody.hex)
    next
      case (sep t u)
      then obtain z where z: "c # s = [CHR 0xE2, CHR 0x80, z] @ t" "z = CHR 0xA8 \<or> z = CHR 0xA9" by auto
      have "fbody (drop 3 (c # s))"
        using less.prems z by (intro fbody_drop) (auto simp: plain(1) bslash_def)
      then have "fbody (esc_html t)" using less.hyps [of t] plain(1) z(1) by simp
      moreover have "list_all is_hex u" "length u = 4" using sep(1) by (auto simp: is_hex_def)
      ultimately show "fbody (esc_html (c # s))" by (simp add: sep(2) fbody.hex)
    next
      case keep
      with IH plain show "fbody (esc_html (c # s))" by (simp add: fbody.plain)
    qed
  qed
qed


subsection \<open>Values up to their raw texts\<close>

fun strip :: "json \<Rightarrow> json" where
  "strip (JArr vs) = JArr (map strip vs)"
| "strip (JObj fs) = JObj (map (\<lambda>(k, r, v). (k, [], strip v)) fs)"
| "strip v = v"

definition strip_fields :: "fields \<Rightarrow> fields" where
  "strip_fields fs = map (\<lambda>(k, r, v). (k, [], strip v)) fs"

definition strip_frame :: "frame \<Rightarrow> frame" where
  "strip_frame f = (case f of FArr vs r \<Rightarrow> FArr (map strip vs) [] | FObj fs k r \<Rightarrow> FObj (strip_fields fs) k [])"

definition strip_expect :: "expect \<Rightarrow> expect" where
  "strip_expect e = (case e of EDone v r \<Rightarrow> EDone (strip v) [] | _ \<Rightarrow> e)"

definition strip_state :: "pstate \<Rightarrow> pstate" where
  "strip_state s = (map strip_frame (fst s), strip_expect (snd s))"

definition same_state :: "pstate \<Rightarrow> pstate \<Rightarrow> bool" where
  "same_state s s' = (strip_state s = strip_state s')"

lemma same_state_refl: "same_state s s"
  by (simp add: same_state_def)

lemma strip_wants: "strip_expect e = strip_expect e' \<Longrightarrow>
    wants_value e = wants_value e' \<and> wants_key e = wants_key e' \<and> (e = EColon) = (e' = EColon) \<and>
    (e = EComma) = (e' = EComma) \<and> (e = EValOrEnd) = (e' = EValOrEnd) \<and> (e = EKeyOrEnd) = (e' = EKeyOrEnd)"
  by (cases e; cases e') (auto simp: strip_expect_def wants_value_def wants_key_def)

lemma strip_frame_cases:
  assumes "strip_frame f = strip_frame f'"
  obtains (arr) vs r vs' r' where "f = FArr vs r" and "f' = FArr vs' r'" and "map strip vs = map strip vs'"
  | (obj) fs k r fs' r' where "f = FObj fs k r" and "f' = FObj fs' k r'" and "strip_fields fs = strip_fields fs'"
  using assms by (cases f; cases f') (auto simp: strip_frame_def)

lemma same_finish:
  assumes "map strip_frame st = map strip_frame st'" and "strip v = strip v'"
  shows "same_state (finish v r st) (finish v' r' st')"
proof (cases st)
  case Nil
  with assms show ?thesis by (simp add: same_state_def strip_state_def strip_expect_def)
next
  case (Cons f st2)
  then obtain f' st2' where st': "st' = f' # st2'" and f: "strip_frame f = strip_frame f'"
    and m: "map strip_frame st2 = map strip_frame st2'" using assms(1) by (cases st') auto
  from f show ?thesis
    by (cases rule: strip_frame_cases)
      (use assms(2) m in \<open>simp_all add: Cons st' same_state_def strip_state_def strip_frame_def strip_fields_def strip_expect_def\<close>)
qed

lemma strip_add_raw: "map strip_frame (add_raw r st) = map strip_frame st"
  by (cases "(r, st)" rule: add_raw.cases) (simp_all add: strip_frame_def)

text \<open>Tokens with the same meaning: equal, or strings that decode to the same text.\<close>

definition same_token :: "token \<Rightarrow> token \<Rightarrow> bool" where
  "same_token t t' = (t = t' \<or> (\<exists>b b'. t = TStr b \<and> t' = TStr b' \<and> unquote b = unquote b'))"

lemma same_punct:
  assumes m: "map strip_frame st = map strip_frame st'" and e: "strip_expect e = strip_expect e'"
    and "jpunct (st, e) c = Some p"
  shows "\<exists>p'. jpunct (st', e') c = Some p' \<and> same_state p p'"
proof -
  note w = strip_wants [OF e]
  have l: "length st = length st'" using m by (metis length_map)
  have same: "same_state (x, y) (x', y)" if "map strip_frame x = map strip_frame x'" for x x' y
    using that by (simp add: same_state_def strip_state_def)
  consider (op) "c = CHR ''[''" | (ob) "c = CHR ''{''" | (colon) "c = CHR '':''"
    | (close) "c \<notin> set ''[{:''" by auto
  then show ?thesis
  proof cases
    case op
    with assms(3) w l m show ?thesis by (auto intro!: same split: if_splits)
  next
    case ob
    with assms(3) w l m show ?thesis by (auto intro!: same split: if_splits)
  next
    case colon
    with assms(3) w m show ?thesis by (auto intro!: same simp: strip_add_raw split: if_splits)
  next
    case close
    with assms(3) obtain f st2 where st: "st = f # st2" by (cases st) auto
    with m obtain f' st2' where st': "st' = f' # st2'" and f: "strip_frame f = strip_frame f'"
      and m2: "map strip_frame st2 = map strip_frame st2'" by (cases st') auto
    from f show ?thesis
    proof (cases rule: strip_frame_cases)
      case (arr vs r vs' r')
      consider "c = CHR '']''" "e = EComma \<or> e = EValOrEnd" "p = finish (JArr vs) (r @ [c]) st2"
        | "c = CHR '',''" "e = EComma" "p = (add_raw [c] st, EVal)"
        using assms(3) close by (auto simp: st arr split: if_splits)
      then show ?thesis
      proof cases
        case 1
        moreover have "same_state (finish (JArr vs) (r @ [c]) st2) (finish (JArr vs') (r' @ [c]) st2')"
          by (rule same_finish [OF m2]) (simp add: arr)
        ultimately show ?thesis using w by (intro exI [of _ "finish (JArr vs') (r' @ [c]) st2'"]) (auto simp: st' arr)
      next
        case 2
        have "same_state (add_raw [c] st, EVal) (add_raw [c] st', EVal)" by (rule same) (simp only: strip_add_raw m)
        with 2 w show ?thesis by (intro exI [of _ "(add_raw [c] st', EVal)"]) (simp add: st' arr)
      qed
    next
      case (obj fs k r fs' r')
      consider "c = CHR ''}''" "e = EComma \<or> e = EKeyOrEnd" "p = finish (JObj fs) (r @ [c]) st2"
        | "c = CHR '',''" "e = EComma" "p = (add_raw [c] st, EKey)"
        using assms(3) close by (auto simp: st obj split: if_splits)
      then show ?thesis
      proof cases
        case 1
        moreover have "same_state (finish (JObj fs) (r @ [c]) st2) (finish (JObj fs') (r' @ [c]) st2')"
          by (rule same_finish [OF m2]) (use obj in \<open>simp add: strip_fields_def\<close>)
        ultimately show ?thesis using w by (intro exI [of _ "finish (JObj fs') (r' @ [c]) st2'"]) (auto simp: st' obj)
      next
        case 2
        have "same_state (add_raw [c] st, EKey) (add_raw [c] st', EKey)" by (rule same) (simp only: strip_add_raw m)
        with 2 w show ?thesis by (intro exI [of _ "(add_raw [c] st', EKey)"]) (simp add: st' obj)
      qed
    qed
  qed
qed

lemma same_step:
  assumes "same_state s s'" and "same_token t t'" and "jstep s t = Some p"
  shows "\<exists>p'. jstep s' t' = Some p' \<and> same_state p p'"
proof -
  obtain st e st' e' where s: "s = (st, e)" "s' = (st', e')" by (cases s; cases s')
  have m: "map strip_frame st = map strip_frame st'" and e: "strip_expect e = strip_expect e'"
    using assms(1) by (simp_all add: s same_state_def strip_state_def)
  note w = strip_wants [OF e]
  have l: "length st = length st'" using m by (metis length_map)
  show ?thesis
  proof (cases t)
    case (TWs c)
    with assms(2,3) m e show ?thesis
      by (auto simp: s same_token_def same_state_def strip_state_def strip_add_raw)
  next
    case (TWord x)
    then have t': "t' = TWord x" using assms(2) by (auto simp: same_token_def)
    obtain v where v: "wants_value e" "word_value x = Some v" "p = finish v x st"
      using assms(3) by (auto simp: s TWord split: if_splits)
    then show ?thesis using w same_finish [OF m refl, of v x x] by (intro exI [of _ "finish v x st'"]) (simp add: s t')
  next
    case (TStr b)
    then obtain b' where t': "t' = TStr b'" and u: "unquote b = unquote b'" using assms(2) by (auto simp: same_token_def)
    show ?thesis
    proof (cases "wants_value e")
      case True
      then have "p = finish (JStr (unquote b)) (dquote # b @ [dquote]) st" using assms(3) by (simp add: s TStr Let_def)
      with True w u same_finish [OF m refl] show ?thesis
        by (intro exI [of _ "finish (JStr (unquote b)) (dquote # b' @ [dquote]) st'"]) (simp add: s t' Let_def)
    next
      case False
      with assms(3) obtain fs k r st2 where k: "wants_key e" and st: "st = FObj fs k r # st2"
        by (auto simp: s TStr Let_def split: if_splits list.splits frame.splits)
      with m obtain fs' r' st2' where st': "st' = FObj fs' k r' # st2'" "strip_fields fs = strip_fields fs'"
        "map strip_frame st2 = map strip_frame st2'"
        by (cases st'; cases "hd st'") (auto simp: strip_frame_def)
      with assms(3) False k w u show ?thesis
        by (auto simp: s TStr t' st Let_def same_state_def strip_state_def strip_frame_def)
    qed
  next
    case (TPunct c)
    then have t': "t' = TPunct c" using assms(2) by (auto simp: same_token_def)
    then show ?thesis using same_punct [OF m e] assms(3) by (simp add: s TPunct)
  qed
qed


subsection \<open>The tokens of a compacted text\<close>

definition is_white :: "token \<Rightarrow> bool" where
  "is_white t = (case t of TWs c \<Rightarrow> True | _ \<Rightarrow> False)"

definition esc_token :: "token \<Rightarrow> token" where
  "esc_token t = (case t of TStr b \<Rightarrow> TStr (esc_html b) | _ \<Rightarrow> t)"

definition dense :: "token list \<Rightarrow> token list" where
  "dense ts = map esc_token (filter (\<lambda>t. \<not> is_white t) ts)"

lemma dense_simps [simp]: "dense [] = []" "dense (t # ts) = (if is_white t then dense ts else esc_token t # dense ts)"
  by (simp_all add: dense_def)

lemma white_step: "is_white t \<Longrightarrow> jstep s t = Some p \<Longrightarrow> same_state p s"
  by (cases s; cases t) (auto simp: is_white_def same_state_def strip_state_def strip_add_raw)

lemma same_esc_token: "token_ok t \<Longrightarrow> same_token t (esc_token t)"
  by (cases t) (auto simp: same_token_def esc_token_def token_ok_def unquote_esc_html)

lemma same_state_trans: "same_state a b \<Longrightarrow> same_state b c \<Longrightarrow> same_state a c"
  by (simp add: same_state_def)

text \<open>The deepest nesting on the way, in open containers.\<close>

fun run_depth :: "pstate \<Rightarrow> token list \<Rightarrow> nat" where
  "run_depth s [] = 0"
| "run_depth s (t # ts) = (case jstep s t of None \<Rightarrow> 0 | Some s' \<Rightarrow> max (length (fst s')) (run_depth s' ts))"

lemma same_length: "same_state s s' \<Longrightarrow> length (fst s) = length (fst s')"
  by (simp add: same_state_def strip_state_def) (metis length_map)

lemma same_steps:
  assumes "jsteps s ts = Some p" and "same_state s s'" and "list_all token_ok ts"
  shows "\<exists>p'. jsteps s' (dense ts) = Some p' \<and> same_state p p' \<and> run_depth s' (dense ts) \<le> run_depth s ts"
  using assms
proof (induction ts arbitrary: s s')
  case Nil
  then show ?case by simp
next
  case (Cons t ts)
  from Cons.prems(1) obtain q where q: "jstep s t = Some q" "jsteps q ts = Some p" by (auto elim!: bind_SomeE)
  show ?case
  proof (cases "is_white t")
    case True
    have "same_state q s'" by (rule same_state_trans [OF white_step [OF True q(1)] Cons.prems(2)])
    from Cons.IH [OF q(2) this] Cons.prems(3) True q(1) show ?thesis by (auto simp: le_max_iff_disj)
  next
    case False
    have tk: "token_ok t" using Cons.prems(3) by simp
    obtain q' where q': "jstep s' (esc_token t) = Some q'" "same_state q q'"
      using same_step [OF Cons.prems(2) same_esc_token [OF tk] q(1)] by blast
    from Cons.IH [OF q(2) q'(2)] Cons.prems(3) q(1) q'(1) False same_length [OF q'(2)]
    show ?thesis by (auto simp: le_max_iff_disj)
  qed
qed

text \<open>The text of the tokens is scanned to the dense tokens: no two words stand side by side.\<close>

lemma word_then: "jstep (st, e) (TWord w) = Some q \<Longrightarrow> wants_value e \<and> \<not> wants_value (snd q)"
  by (cases q) (auto simp: wants_value_def split: if_splits elim!: finish.elims)

lemma lex_dense:
  assumes "jsteps s ts = Some p" and "list_all token_ok ts" and "ends_word rest"
  shows "lex LNone (concat (map token_text ts) @ rest) = prepend (dense ts) (lex LNone rest) \<and>
    (wants_value (snd s) \<or> ends_word (concat (map token_text ts) @ rest))"
  using assms(1,2)
proof (induction ts arbitrary: s)
  case Nil
  have "prepend [] x = x" for x by (cases x) (simp_all add: prepend_def)
  with assms(3) show ?case by simp
next
  case (Cons t ts)
  from Cons.prems(1) obtain q where q: "jstep s t = Some q" "jsteps q ts = Some p" by (auto elim!: bind_SomeE)
  note IH = Cons.IH [OF q(2)]
  obtain st e where s: "s = (st, e)" by (cases s)
  show ?case
  proof (cases t)
    case (TWs c)
    with IH Cons.prems(2) q(1) show ?thesis by (auto simp: is_white_def s)
  next
    case (TPunct c)
    then have c: "is_punct c" using Cons.prems(2) by (simp add: token_ok_def)
    then have "\<not> is_word_char c" using word_char_not by blast
    with IH Cons.prems(2) TPunct c show ?thesis
      by (simp add: is_white_def esc_token_def lex_punct ends_word_def del: lex.simps)
  next
    case (TStr b)
    then have "str_body (esc_html b)" using Cons.prems(2) by (simp add: token_ok_def fbody_esc_html fbody_str_body)
    with IH Cons.prems(2) TStr show ?thesis
      using lex_quoted [of "esc_html b" "concat (map token_text ts) @ rest"]
      by (simp add: is_white_def esc_token_def ends_word_def lex_char_simps del: lex.simps)
  next
    case (TWord w)
    then obtain c cs where w: "w = c # cs" "list_all is_word_char w" using Cons.prems(2) by (cases w) (auto simp: token_ok_def)
    have e: "wants_value e \<and> \<not> wants_value (snd q)" using word_then [of st e w q] q(1) unfolding s TWord by blast
    with IH Cons.prems(2) have "ends_word (concat (map token_text ts) @ rest)" by simp
    with lex_word [of cs _ "[c]"] w word_char_not [of c]
    have "lex LNone (w @ concat (map token_text ts) @ rest) = prepend [TWord w] (lex LNone (concat (map token_text ts) @ rest))"
      by simp
    with IH Cons.prems(2) e TWord show ?thesis by (simp add: is_white_def esc_token_def s)
  qed
qed

subsection \<open>A text in its place\<close>

text \<open>A run of the parser from the start, with the containers around it.\<close>

definition embed :: "frame list \<Rightarrow> pstate \<Rightarrow> pstate" where
  "embed st s = (case snd s of EDone v r \<Rightarrow> finish v r st | _ \<Rightarrow> (fst s @ st, snd s))"

definition top_ok :: "pstate \<Rightarrow> bool" where
  "top_ok s = (case snd s of EDone v r \<Rightarrow> fst s = [] | EVal \<Rightarrow> True | _ \<Rightarrow> fst s \<noteq> [])"

lemma embed_finish: "finish v r (s0 @ st) = embed st (finish v r s0) \<and> top_ok (finish v r s0)"
  by (cases "(v, r, s0)" rule: finish.cases) (simp_all add: embed_def top_ok_def)

lemma not_after_done: "\<not> is_white t \<Longrightarrow> jstep (s0, EDone v r) t = None"
  by (cases t) (auto simp: is_white_def wants_value_def wants_key_def Let_def split: list.splits frame.splits)


lemma embed_step:
  assumes "jstep (s0, e0) t = Some s1" and "\<not> is_white t" and "top_ok (s0, e0)"
    and "length (fst s1) + length st \<le> maxNestingDepth"
    and "e = e0 \<or> (s0 = [] \<and> wants_value e)"
  shows "jstep (s0 @ st, e) t = Some (embed st s1) \<and> top_ok s1"
proof -
  have d: "\<forall>v r. e0 \<noteq> EDone v r" using assms(1,2) not_after_done by (cases e0) auto
  have top: "s0 = [] \<Longrightarrow> e0 = EVal" using assms(3) d by (cases e0) (auto simp: top_ok_def)
  have w: "wants_value e = wants_value e0" "s0 \<noteq> [] \<longrightarrow> e = e0"
    using assms(5) top by (auto simp: wants_value_def)
  show ?thesis
  proof (cases t)
    case (TWs c)
    with assms(2) show ?thesis by (simp add: is_white_def)
  next
    case (TWord x)
    with assms(1) w obtain v where "wants_value e" "word_value x = Some v" "s1 = finish v x s0"
      by (auto split: if_splits)
    with embed_finish [of v x s0 st] show ?thesis by (simp add: TWord)
  next
    case (TStr b)
    show ?thesis
    proof (cases "wants_value e0")
      case True
      with assms(1) have "s1 = finish (JStr (unquote b)) (dquote # b @ [dquote]) s0" by (simp add: TStr Let_def)
      with True w embed_finish [of _ _ s0 st] show ?thesis by (simp add: TStr Let_def)
    next
      case False
      with assms(1) obtain fs k r s2 where "s0 = FObj fs k r # s2"
        by (auto simp: TStr Let_def split: if_splits list.splits frame.splits)
      with False w assms(1) show ?thesis by (auto simp: TStr Let_def embed_def top_ok_def split: if_splits)
    qed
  next
    case (TPunct c)
    consider (op) "c = CHR ''[''" | (ob) "c = CHR ''{''" | (colon) "c = CHR '':''" | (close) "c \<notin> set ''[{:''" by auto
    then show ?thesis
    proof cases
      case op
      with assms(1,4) w show ?thesis by (auto simp: TPunct embed_def top_ok_def split: if_splits)
    next
      case ob
      with assms(1,4) w show ?thesis by (auto simp: TPunct embed_def top_ok_def split: if_splits)
    next
      case colon
      with assms(1) top w show ?thesis
        by (cases s0; cases "hd s0") (auto simp: TPunct embed_def top_ok_def split: if_splits)
    next
      case close
      with assms(1) obtain f s2 where s0: "s0 = f # s2" by (cases s0) (auto simp: TPunct)
      with w have e: "e = e0" by simp
      show ?thesis
      proof (cases f)
        case (FArr vs r)
        from assms(1) close e embed_finish [of "JArr vs" "r @ [c]" s2 st] show ?thesis
          by (auto simp: TPunct s0 FArr embed_def top_ok_def split: if_splits)
      next
        case (FObj fs k r)
        from assms(1) close e embed_finish [of "JObj fs" "r @ [c]" s2 st] show ?thesis
          by (auto simp: TPunct s0 FObj embed_def top_ok_def split: if_splits)
      qed
    qed
  qed
qed


lemma embed_steps:
  "jsteps s ts = Some p \<Longrightarrow> list_all (\<lambda>t. \<not> is_white t) ts \<Longrightarrow> top_ok s \<Longrightarrow>
   run_depth s ts + length st \<le> maxNestingDepth \<Longrightarrow> jsteps (embed st s) ts = Some (embed st p)"
proof (induction ts arbitrary: s)
  case Nil
  then show ?case by simp
next
  case (Cons t ts)
  obtain s0 e0 where s: "s = (s0, e0)" by (cases s)
  from Cons.prems(1) obtain q where q: "jstep s t = Some q" "jsteps q ts = Some p" by (auto elim!: bind_SomeE)
  have "\<forall>v r. e0 \<noteq> EDone v r" using q(1) not_after_done [of t s0] Cons.prems(2) by (auto simp: s)
  then have e: "embed st s = (s0 @ st, e0)" by (cases e0) (simp_all add: embed_def s)
  have d: "length (fst q) + length st \<le> maxNestingDepth" "run_depth q ts + length st \<le> maxNestingDepth"
    using Cons.prems(4) q(1) by simp_all
  have st1: "jstep (s0 @ st, e0) t = Some (embed st q) \<and> top_ok q"
    using Cons.prems(2,3) d(1) by (intro embed_step [OF q(1) [unfolded s]] disjI1 refl) (simp_all add: s)
  with Cons.IH [OF q(2)] Cons.prems(2) d(2) show ?case by (simp add: e)
qed

text \<open>The raw text of what was read is the text of its tokens.\<close>

fun token_src :: "token \<Rightarrow> string" where
  "token_src (TWs c) = [c]"
| "token_src (TPunct c) = [c]"
| "token_src (TStr b) = dquote # b @ [dquote]"
| "token_src (TWord w) = w"

definition frame_raw :: "frame \<Rightarrow> string" where
  "frame_raw f = (case f of FArr vs r \<Rightarrow> r | FObj fs k r \<Rightarrow> r)"

definition read_so_far :: "pstate \<Rightarrow> string" where
  "read_so_far s = (case snd s of EDone v r \<Rightarrow> r | _ \<Rightarrow> concat (map frame_raw (rev (fst s))))"

lemma read_finish: "read_so_far (finish v r st) = concat (map frame_raw (rev st)) @ r"
  by (cases "(v, r, st)" rule: finish.cases) (simp_all add: read_so_far_def frame_raw_def)

lemma read_step:
  assumes "jstep s t = Some q" and "\<not> is_white t" and "top_ok s"
  shows "read_so_far q = read_so_far s @ token_src t \<and> top_ok q"
proof -
  obtain s0 e0 where s: "s = (s0, e0)" by (cases s)
  have d: "\<forall>v r. e0 \<noteq> EDone v r" using assms(1) not_after_done [of t s0] assms(2) by (auto simp: s)
  then have r: "read_so_far s = concat (map frame_raw (rev s0))" by (cases e0) (simp_all add: read_so_far_def s)
  have top: "s0 = [] \<Longrightarrow> e0 = EVal" using assms(3) d by (cases e0) (auto simp: top_ok_def s)
  have f: "top_ok (finish v w s0)" for v w using embed_finish by blast
  show ?thesis
  proof (cases t)
    case (TWs c)
    with assms(2) show ?thesis by (simp add: is_white_def)
  next
    case (TWord x)
    with assms(1) f show ?thesis by (auto simp: s r[unfolded s] read_finish split: if_splits)
  next
    case (TStr b)
    show ?thesis
    proof (cases "wants_value e0")
      case True
      with assms(1) f show ?thesis by (auto simp: s r[unfolded s] TStr Let_def read_finish)
    next
      case False
      with assms(1) obtain fs k w s2 where "s0 = FObj fs k w # s2"
        by (auto simp: s TStr Let_def split: if_splits list.splits frame.splits)
      with False assms(1) r show ?thesis
        by (auto simp: s TStr Let_def read_so_far_def frame_raw_def top_ok_def split: if_splits)
    qed
  next
    case (TPunct c)
    consider (op) "c = CHR ''[''" | (ob) "c = CHR ''{''" | (colon) "c = CHR '':''" | (close) "c \<notin> set ''[{:''" by auto
    then show ?thesis
    proof cases
      case op
      with assms(1) r show ?thesis by (auto simp: s TPunct read_so_far_def frame_raw_def top_ok_def split: if_splits)
    next
      case ob
      with assms(1) r show ?thesis by (auto simp: s TPunct read_so_far_def frame_raw_def top_ok_def split: if_splits)
    next
      case colon
      with assms(1) top r show ?thesis
        by (cases s0; cases "hd s0") (auto simp: s TPunct read_so_far_def frame_raw_def top_ok_def split: if_splits)
    next
      case close
      with assms(1) obtain f s2 where s0: "s0 = f # s2" by (cases s0) (auto simp: s TPunct)
      have g: "top_ok (finish v w s2)" for v w using embed_finish by blast
      show ?thesis
      proof (cases f)
        case (FArr vs w)
        consider "c = CHR '']''" "q = finish (JArr vs) (w @ [c]) s2" | "c = CHR '',''" "q = (add_raw [c] s0, EVal)"
          using assms(1) close by (auto simp: s TPunct s0 FArr split: if_splits)
        then show ?thesis
        proof cases
          case 1
          with g r show ?thesis by (simp add: TPunct read_finish s0 FArr frame_raw_def)
        next
          case 2
          with r show ?thesis by (simp add: TPunct s0 FArr frame_raw_def read_so_far_def top_ok_def)
        qed
      next
        case (FObj fs k w)
        consider "c = CHR ''}''" "q = finish (JObj fs) (w @ [c]) s2" | "c = CHR '',''" "q = (add_raw [c] s0, EKey)"
          using assms(1) close by (auto simp: s TPunct s0 FObj split: if_splits)
        then show ?thesis
        proof cases
          case 1
          with g r show ?thesis by (simp add: TPunct read_finish s0 FObj frame_raw_def)
        next
          case 2
          with r show ?thesis by (simp add: TPunct s0 FObj frame_raw_def read_so_far_def top_ok_def)
        qed
      qed
    qed
  qed
qed

lemma read_steps: "jsteps s ts = Some p \<Longrightarrow> list_all (\<lambda>t. \<not> is_white t) ts \<Longrightarrow> top_ok s \<Longrightarrow>
    read_so_far p = read_so_far s @ concat (map token_src ts)"
proof (induction ts arbitrary: s)
  case (Cons t ts)
  from Cons.prems(1) obtain q where q: "jstep s t = Some q" "jsteps q ts = Some p" by (auto elim!: bind_SomeE)
  with read_step [OF q(1)] Cons show ?case by simp
qed simp

lemma dense_src: "concat (map token_src (dense ts)) = concat (map token_text ts)"
proof (induction ts)
  case (Cons t ts)
  then show ?case by (cases t) (simp_all add: is_white_def esc_token_def)
qed simp

lemma dense_not_white: "list_all (\<lambda>t. \<not> is_white t) (dense ts)"
proof (induction ts)
  case (Cons t ts)
  then show ?case by (cases t) (simp_all add: is_white_def esc_token_def)
qed simp

definition json_depth :: "string \<Rightarrow> nat" where
  "json_depth s = (case lex LNone s of None \<Rightarrow> 0 | Some ts \<Rightarrow> run_depth ([], EVal) ts)"

text \<open>What compacting makes of a text reads as its value.\<close>

theorem compact_reads:
  assumes "parse_json s = Some (j, r)"
  obtains t j' where "compact_json s = Some t" and "reads_as (json_depth s) t j'" and "strip j' = strip j"
proof -
  obtain ts where ts: "lex LNone s = Some ts" and js: "jsteps ([], EVal) ts = Some ([], EDone j r)"
    using assms by (auto simp: parse_json_def elim!: bind_SomeE split: prod.splits list.splits expect.splits)
  have ok: "list_all token_ok ts" by (rule lex_tokens_ok [OF ts]) (simp add: mode_body_def)
  let ?t = "concat (map token_text ts)"
  obtain p where p: "jsteps ([], EVal) (dense ts) = Some p" "same_state ([], EDone j r) p"
    and dp: "run_depth ([], EVal) (dense ts) \<le> json_depth s"
    using same_steps [OF js same_state_refl ok] by (auto simp: json_depth_def ts)
  obtain j' r' where p': "p = ([], EDone j' r')" and j': "strip j' = strip j"
    using p(2) by (cases p; cases "snd p") (auto simp: same_state_def strip_state_def strip_expect_def)
  have top: "top_ok ([], EVal)" by (simp add: top_ok_def)
  have r': "r' = ?t"
    using read_steps [OF p(1) dense_not_white top] by (simp add: p' read_so_far_def dense_src)
  show thesis
  proof (rule that [of ?t j'])
    show "compact_json s = Some ?t" by (simp add: compact_json_def assms ts)
    show "reads_as (json_depth s) ?t j'"
    proof (rule reads_asI [where ts = "dense ts"])
      show "lex LNone (?t @ rest) = prepend (dense ts) (lex LNone rest)" if "ends_word rest" for rest
        using lex_dense [OF js ok that] by simp
      show "jsteps (st, e) (dense ts) = Some (finish j' ?t st)"
        if "wants_value e" "length st + json_depth s \<le> maxNestingDepth" for st e
      proof -
        obtain u us where u: "dense ts = u # us" using p(1) p' by (cases "dense ts") auto
        with p(1) obtain q where q: "jstep ([], EVal) u = Some q" "jsteps q us = Some p" by (auto elim!: bind_SomeE)
        have w: "\<not> is_white u" "list_all (\<lambda>t. \<not> is_white t) us" using dense_not_white [of ts] u by auto
        have d: "length (fst q) + length st \<le> maxNestingDepth" "run_depth q us + length st \<le> maxNestingDepth"
          using dp that(2) q(1) by (simp_all add: u)
        have "jstep ([] @ st, e) u = Some (embed st q) \<and> top_ok q"
          by (rule embed_step [OF q(1) w(1) top d(1)]) (simp add: that(1))
        with embed_steps [OF q(2) w(2) _ d(2)] show ?thesis by (simp add: u p' embed_def r')
      qed
    qed
    show "strip j' = strip j" by (rule j')
  qed
qed

end
