(* ===== verification/Cli_Json_Spec.thy ===== *)
theory Cli_Json_Spec
  imports Cli_Json Json_Compact
begin

text \<open>
  The JSON mode's protocol: each message is one line, and a client that prints its lines as JSON is
  understood.
\<close>

subsection \<open>Lines\<close>

lemma one_line_output: "marshal_output out = Some l \<Longrightarrow> one_line l"
proof -
  assume m: "marshal_output out = Some l"
  have e: "one_line (marshal_error e)" for e
    unfolding marshal_error_def
    by (rule one_line_object) (simp add: one_line_json_quote if_nonempty_def)
  have s: "one_line (marshal_stats s)" for s
    unfolding marshal_stats_def
    by (rule one_line_object) (simp add: one_line_show_nat)
  show "one_line l"
    using m unfolding marshal_output_def
    by (elim bind_SomeE)
      (auto intro!: one_line_object dest: one_line_compact simp: e s one_line_json_quote if_nonempty_def
        split: option.splits if_splits)
qed

lemma one_line_request: "marshal_request q = Some l \<Longrightarrow> one_line l"
  unfolding marshal_request_def marshal_raw_def
  by (elim bind_SomeE)
    (auto intro!: one_line_object simp: one_line_compact one_line_json_quote one_line_show_nat
      split: option.splits)

text \<open>
  C40. The protocol is framed by lines: whatever the command answered and whatever a script called,
  a message is written as a text without any control character, so without a newline, and one
  newline after it.
\<close>

theorem messages_are_lines:
  "\<exists>l m. printJSON r = l @ newline \<and> one_line l \<and> request_line q = m @ newline \<and> one_line m \<and>
     CHR 0x0A \<notin> set (l @ m)"
proof -
  have n: "one_line l \<Longrightarrow> CHR 0x0A \<notin> set l" for l by (auto simp: one_line_def list_all_iff)
  obtain l where l: "printJSON r = l @ newline" "one_line l"
    using one_line_output [of "json_output_of r"]
    by (cases "marshal_output (json_output_of r)") (auto simp: printJSON_def)
  obtain m where m: "request_line q = m @ newline" "one_line m"
    using one_line_request [of q] by (cases "marshal_request q") (auto simp: request_line_def)
  show ?thesis using l m n [OF l(2)] n [OF m(2)] by auto
qed

subsection \<open>What the client sends\<close>

lemma keys:
  "to_valid_utf8 ''eval'' = ''eval''" "to_valid_utf8 ''dispatch'' = ''dispatch''" "to_valid_utf8 ''reset'' = ''reset''"
  "to_valid_utf8 ''rpc_response'' = ''rpc_response''" "to_valid_utf8 ''id'' = ''id''" "to_valid_utf8 ''result'' = ''result''"
  "to_valid_utf8 ''error'' = ''error''" "to_valid_utf8 ''name'' = ''name''" "to_valid_utf8 ''params'' = ''params''"
  "to_valid_utf8 ''rpc'' = ''rpc''" "to_valid_utf8 ''method'' = ''method''" "to_valid_utf8 ''message'' = ''message''"
  "to_valid_utf8 ''errorCode'' = ''errorCode''" "to_valid_utf8 ''stack'' = ''stack''" "to_valid_utf8 ''text'' = ''text''"
  "to_valid_utf8 ''stats'' = ''stats''" "to_valid_utf8 ''opcodes'' = ''opcodes''" "to_valid_utf8 ''cpuTimeUs'' = ''cpuTimeUs''"
  by (intro to_valid_utf8_id valid_utf8_ascii; simp)+

text \<open>The fields of the messages, by the letter the folded name starts with.\<close>

lemmas field_simps = field_is_def fold_name.simps upcase_def

lemma object_fields_reads: "reads_as d t (JObj fs) \<Longrightarrow> d \<le> maxNestingDepth \<Longrightarrow> object_fields t = Some fs"
  by (simp add: object_fields_def parse_reads_as)

text \<open>
  The messages a client sends, as a client that prints JSON without white space writes them. The
  parameters of a dispatch and the result of an RPC are texts of JSON values.
\<close>

datatype client_msg =
    ClEval string
  | ClDispatch string "string option"
  | ClReset
  | ClResult u64 string
  | ClError u64 string

fun client_line :: "client_msg \<Rightarrow> string" where
  "client_line (ClEval src) = json_object [(''eval'', json_quote src)]"
| "client_line (ClDispatch n p) = json_object [(''dispatch'', json_object ((''name'', json_quote n) #
     (case p of None \<Rightarrow> [] | Some t \<Rightarrow> [(''params'', t)])))]"
| "client_line ClReset = json_object [(''reset'', ''true'')]"
| "client_line (ClResult i t) = json_object [(''rpc_response'', json_object [(''id'', show_nat (unat i)), (''result'', t)])]"
| "client_line (ClError i e) = json_object [(''rpc_response'',
     json_object [(''id'', show_nat (unat i)), (''error'', json_quote e)])]"

fun client_wf :: "client_msg \<Rightarrow> bool" where
  "client_wf (ClEval src) = (src \<noteq> [])"
| "client_wf (ClDispatch n (Some t)) = (\<exists>j. reads_as (maxNestingDepth - 2) t j)"
| "client_wf (ClResult i t) = (\<exists>j. reads_as (maxNestingDepth - 2) t j)"
| "client_wf m = True"

fun client_routed :: "client_msg \<Rightarrow> routed" where
  "client_routed (ClEval src) = RouteCommand ((simple_command ''eval'')\<lparr>Source := to_valid_utf8 src\<rparr>)"
| "client_routed (ClDispatch n p) = RouteCommand ((simple_command ''dispatch'')
     \<lparr>CmdName := to_valid_utf8 n, CmdParams := Some (case p of None \<Rightarrow> ''null'' | Some t \<Rightarrow> t)\<rparr>)"
| "client_routed ClReset = RouteCommand (simple_command ''reset'')"
| "client_routed (ClResult i t) = RouteResponse \<lparr>RespID = i, RespResult = Some t, RespError = []\<rparr>"
| "client_routed (ClError i e) = RouteResponse \<lparr>RespID = i, RespResult = None, RespError = to_valid_utf8 e\<rparr>"

fun client_fields :: "client_msg \<Rightarrow> json \<Rightarrow> fields" where
  "client_fields (ClEval src) j = [(''eval'', json_quote src, JStr (to_valid_utf8 src))]"
| "client_fields (ClDispatch n p) j = [(''dispatch'', json_object ((''name'', json_quote n) #
     (case p of None \<Rightarrow> [] | Some t \<Rightarrow> [(''params'', t)])),
     JObj ((''name'', json_quote n, JStr (to_valid_utf8 n)) # (case p of None \<Rightarrow> [] | Some t \<Rightarrow> [(''params'', t, j)])))]"
| "client_fields ClReset j = [(''reset'', ''true'', JBool True)]"
| "client_fields (ClResult i t) j = [(''rpc_response'', json_object [(''id'', show_nat (unat i)), (''result'', t)],
     JObj [(''id'', show_nat (unat i), JNum (show_nat (unat i))), (''result'', t, j)])]"
| "client_fields (ClError i e) j = [(''rpc_response'', json_object [(''id'', show_nat (unat i)), (''error'', json_quote e)],
     JObj [(''id'', show_nat (unat i), JNum (show_nat (unat i))), (''error'', json_quote e, JStr (to_valid_utf8 e))])]"

lemma member_reads_simp: "member_reads d (k, t) (k', r, j) = (k' = to_valid_utf8 k \<and> r = t \<and> reads_as d t j)"
  by (simp add: member_reads_def)

lemma reads_inner: "members_read (maxNestingDepth - 2) ms fs \<Longrightarrow> reads_as (maxNestingDepth - Suc 0) (json_object ms) (JObj fs)"
  using reads_object [of "maxNestingDepth - 2" ms fs] by (simp add: maxNestingDepth_def)

lemma reads_outer: "members_read (maxNestingDepth - Suc 0) ms fs \<Longrightarrow> object_fields (json_object ms) = Some fs"
  using reads_object [of "maxNestingDepth - 1" ms fs] object_fields_reads [of maxNestingDepth]
  by (simp add: maxNestingDepth_def)

lemma client_fields: "client_wf m \<Longrightarrow> \<exists>j. object_fields (client_line m) = Some (client_fields m j)"
proof (induction m rule: client_wf.induct)
  case (2 n t)
  then obtain j where "reads_as (maxNestingDepth - 2) t j" by auto
  then show ?case
    by (intro exI [of _ j], simp, intro reads_outer) (simp add: reads_inner member_reads_simp keys reads)
next
  case (3 i t)
  then obtain j where "reads_as (maxNestingDepth - 2) t j" by auto
  then show ?case
    by (intro exI [of _ j], simp, intro reads_outer) (simp add: reads_inner member_reads_simp keys reads)
qed (simp_all add: reads_outer reads_inner member_reads_simp keys reads)

lemma to_valid_utf8_Nil: "to_valid_utf8 s = [] \<longleftrightarrow> s = []"
  by (cases s) (auto simp: to_valid_utf8.simps utf8_error_def)

lemma u64_bound: "unat (w :: u64) < 18446744073709551616"
  using unsigned_less [of w] by simp

lemma client_understood_aux:
  assumes "client_wf m"
  shows "routeLine jsonErr (client_line m) = client_routed m"
proof -
  obtain j where f: "object_fields (client_line m) = Some (client_fields m j)"
    using client_fields [OF assms] by blast
  show ?thesis
    using assms f
    by (cases m)
      (simp_all add: routeLine_def unmarshal_input_def field_simps into_string_def into_ptr_def into_u64_def
        into_raw_def into_bool_def decode_dispatch_def decode_response_def zero_dispatch_def zero_response_def
        show_nat_digits digits_value_show_nat to_valid_utf8_Nil parseJSONInput_def simple_command_def u64_bound Let_def split: option.splits)
qed

text \<open>
  C18. A client is understood: the line it writes for a source text, for an event with or without
  parameters, for a reset, and for the result or the error of a forwarded call, is routed as exactly
  that command or response, the parameters and results byte for byte and the strings with invalid
  UTF-8 replaced.
\<close>

theorem client_understood:
  assumes "client_wf m"
  shows "routeLine jsonErr (client_line m) = client_routed m"
  by (rule client_understood_aux [OF assms])

theorem client_understood_witness:
  "routeLine (\<lambda>s. []) (client_line (ClDispatch ''greet'' (Some ''null''))) =
     RouteCommand \<lparr>cmdType = ''dispatch'', Source = [], CmdName = ''greet'', CmdParams = Some ''null''\<rparr>"
proof -
  have "client_wf (ClDispatch ''greet'' (Some ''null''))" using reads by auto
  moreover have "to_valid_utf8 ''greet'' = ''greet''" by (intro to_valid_utf8_id valid_utf8_ascii) simp
  ultimately show ?thesis
    using client_understood [of "ClDispatch ''greet'' (Some ''null'')" "\<lambda>s. []"] by (simp add: simple_command_def)
qed


subsection \<open>What the client reads\<close>

text \<open>The document of a result, its values without their raw texts.\<close>

definition str_doc :: "string \<Rightarrow> string \<Rightarrow> fields" where
  "str_doc key s = (if s = [] then [] else [(key, [], JStr (to_valid_utf8 s))])"

definition error_doc :: "go_error \<Rightarrow> fields" where
  "error_doc e =
     (let message = (\<lambda>m. [(''message'', [], JStr (to_valid_utf8 m))]) in
      case as_JsError e of
        Some j \<Rightarrow> message (Message j) @ str_doc ''name'' (Name j) @ str_doc ''stack'' (case Stack j of None \<Rightarrow> [] | Some st \<Rightarrow> st)
      | None \<Rightarrow> (case as_RuntimeError e of
          Some r \<Rightarrow> message (RtMessage r) @ str_doc ''errorCode'' (Code r)
        | None \<Rightarrow> message (error_text e)))"

definition stats_doc :: "ExecutionStats \<Rightarrow> fields" where
  "stats_doc st = [(''opcodes'', [], JNum (show_nat (unat (Opcodes st)))),
     (''cpuTimeUs'', [], JNum (show_nat (unat (CPUTimeUs st))))]"

definition value_doc :: "raw \<Rightarrow> fields" where
  "value_doc v = (case parse_json (raw_bytes v) of None \<Rightarrow> [] | Some (j, _) \<Rightarrow> [(''result'', [], strip j)])"

definition reply_doc :: "result \<Rightarrow> fields" where
  "reply_doc r = (case resError r of Some e \<Rightarrow> [(''error'', [], JObj (error_doc e))] | None \<Rightarrow> value_doc (resValue r)) @
     (case resStats r of None \<Rightarrow> [] | Some st \<Rightarrow> [(''stats'', [], JObj (stats_doc st))]) @ str_doc ''text'' (resText r)"

text \<open>The value of a result is valid JSON that leaves one level of nesting to the object around it.\<close>

definition printable :: "result \<Rightarrow> bool" where
  "printable r = (case resError r of Some e \<Rightarrow> True | None \<Rightarrow> raw_bytes (resValue r) = [] \<or>
     parse_json (raw_bytes (resValue r)) \<noteq> None \<and> json_depth (raw_bytes (resValue r)) < maxNestingDepth)"

definition reads_doc :: "nat \<Rightarrow> (string \<times> string) list \<Rightarrow> fields \<Rightarrow> bool" where
  "reads_doc d ms doc = (\<exists>fs. members_read d ms fs \<and> strip_fields fs = doc)"

lemma strip_fields_simps [simp]: "strip_fields [] = []" "strip_fields ((k, r, v) # fs) = (k, [], strip v) # strip_fields fs"
  "strip_fields (fs @ gs) = strip_fields fs @ strip_fields gs"
  by (simp_all add: strip_fields_def)

lemma reads_doc_Nil: "reads_doc d [] []"
  by (auto simp: reads_doc_def)

lemma reads_doc_append: "reads_doc d ms doc \<Longrightarrow> reads_doc d ms' doc' \<Longrightarrow> reads_doc d (ms @ ms') (doc @ doc')"
  unfolding reads_doc_def by (metis list_all2_appendI strip_fields_simps(3))

lemma reads_doc_one: "reads_as d t j \<Longrightarrow> to_valid_utf8 k = k \<Longrightarrow> reads_doc d [(k, t)] [(k, [], strip j)]"
  unfolding reads_doc_def by (rule exI [of _ "[(k, t, j)]"]) (simp add: member_reads_def)

lemma reads_doc_object: "reads_doc d ms doc \<Longrightarrow> to_valid_utf8 k = k \<Longrightarrow> reads_doc (Suc d) [(k, json_object ms)] [(k, [], JObj doc)]"
proof -
  assume r: "reads_doc d ms doc" and k: "to_valid_utf8 k = k"
  then obtain fs where fs: "members_read d ms fs" "strip_fields fs = doc" by (auto simp: reads_doc_def)
  then have "strip (JObj fs) = JObj doc" by (auto simp: strip_fields_def)
  with reads_doc_one [OF reads_object [OF fs(1)] k] show ?thesis by simp
qed

lemma reads_doc_str: "to_valid_utf8 k = k \<Longrightarrow> reads_doc d (if_nonempty k s) (str_doc k s)"
  using reads_doc_one [OF reads_quote, of k d s] by (simp add: if_nonempty_def str_doc_def reads_doc_Nil)

lemma reads_doc_error: "reads_doc (Suc d) [(''error'', marshal_error (json_error_of e))] [(''error'', [], JObj (error_doc e))]"
proof -
  have m: "reads_doc d [(''message'', json_quote s)] [(''message'', [], JStr (to_valid_utf8 s))]" for s
    using reads_doc_one [OF reads_quote [of d s] keys(12)] by simp
  have n: "str_doc k [] = []" for k by (simp add: str_doc_def)
  have "reads_doc d ([(''message'', json_quote (ErrMessage x))] @ if_nonempty ''name'' (ErrName x)
      @ if_nonempty ''errorCode'' (ErrCode x) @ if_nonempty ''stack'' (ErrStack x)) (error_doc e)" if "x = json_error_of e" for x
  proof -
    have "error_doc e = [(''message'', [], JStr (to_valid_utf8 (ErrMessage x)))] @ str_doc ''name'' (ErrName x) @
        str_doc ''errorCode'' (ErrCode x) @ str_doc ''stack'' (ErrStack x)"
      by (simp add: that error_doc_def json_error_of_def n Let_def split: option.splits)
    then show ?thesis
      by (simp only:) (intro m reads_doc_append reads_doc_str keys)
  qed
  then show ?thesis
    unfolding marshal_error_def by (intro reads_doc_object keys) blast
qed

lemma reads_doc_stats: "reads_doc (Suc d) [(''stats'', marshal_stats \<lparr>StatOpcodes = Opcodes st, StatCPUTimeUs = CPUTimeUs st\<rparr>)]
    [(''stats'', [], JObj (stats_doc st))]"
  unfolding marshal_stats_def stats_doc_def
  using reads_doc_append [OF reads_doc_one [OF reads_number [of d "unat (Opcodes st)"] keys(17)]
      reads_doc_one [OF reads_number [of d "unat (CPUTimeUs st)"] keys(18)]]
  by (intro reads_doc_object) (simp_all add: keys)

text \<open>
  C17. What the client reads is the result: the printed line is a JSON object that holds exactly the
  value the script produced (up to white space and escapes), or the error's message, name, code and
  stack, and the statistics and the text, each where there is one.
\<close>

theorem printed_result:
  assumes "printable r"
  shows "\<exists>l fs. printJSON r = l @ newline \<and> object_fields l = Some fs \<and> strip_fields fs = reply_doc r"
proof -
  let ?d = "maxNestingDepth - 1"
  have d: "?d = Suc (maxNestingDepth - 2)" "Suc ?d = maxNestingDepth" by (simp_all add: maxNestingDepth_def)
  have stats: "reads_doc ?d (case OutStats (json_output_of r) of None \<Rightarrow> [] | Some s \<Rightarrow> [(''stats'', marshal_stats s)])
      (case resStats r of None \<Rightarrow> [] | Some st \<Rightarrow> [(''stats'', [], JObj (stats_doc st))])"
    unfolding d(1) using reads_doc_stats by (simp add: json_output_of_def reads_doc_Nil split: option.splits)
  have err: "reads_doc ?d [(''error'', marshal_error (json_error_of e))] [(''error'', [], JObj (error_doc e))]" for e
    unfolding d(1) by (rule reads_doc_error)
  have txt_doc: "reads_doc ?d (if_nonempty ''text'' (OutText (json_output_of r))) (str_doc ''text'' (resText r))"
    using reads_doc_str [of "''text''"] by (simp add: json_output_of_def keys)
  have value_: "\<exists>ms. (if raw_bytes v = [] then Some [] else map_option (\<lambda>t. [(''result'', t)]) (compact_json (raw_bytes v))) = Some ms \<and>
      reads_doc ?d ms (value_doc v)"
    if v: "raw_bytes v = [] \<or> parse_json (raw_bytes v) \<noteq> None \<and> json_depth (raw_bytes v) < maxNestingDepth" for v
  proof (cases "raw_bytes v = []")
    case True
    then show ?thesis by (simp add: value_doc_def reads_doc_Nil parse_json_def)
  next
    case False
    with v obtain j w where p: "parse_json (raw_bytes v) = Some (j, w)" by auto
    obtain t j' where t: "compact_json (raw_bytes v) = Some t" "reads_as (json_depth (raw_bytes v)) t j'" "strip j' = strip j"
      using compact_reads [OF p] by blast
    have "json_depth (raw_bytes v) < maxNestingDepth" using v False by simp
    then have "json_depth (raw_bytes v) \<le> ?d" by linarith
    with t(2) have "reads_as ?d t j'" by (rule reads_as_mono)
    with reads_doc_one [of ?d t j' "''result''"] False t(1,3) p show ?thesis by (simp add: value_doc_def keys)
  qed
  obtain ms where ms: "marshal_output (json_output_of r) = Some (json_object ms)" and rd: "reads_doc ?d ms (reply_doc r)"
  proof (cases "resError r")
    case (Some e)
    show thesis
      using reads_doc_append [OF err [of e] reads_doc_append [OF stats txt_doc]]
      by (intro that) (simp_all add: marshal_output_def json_output_of_def reply_doc_def Some raw_bytes_def)
  next
    case None
    obtain ms where m: "(if raw_bytes (resValue r) = [] then Some []
        else map_option (\<lambda>t. [(''result'', t)]) (compact_json (raw_bytes (resValue r)))) = Some ms"
      and rd: "reads_doc ?d ms (value_doc (resValue r))"
      using value_ [of "resValue r"] assms None by (auto simp: printable_def)
    show thesis
      using reads_doc_append [OF rd reads_doc_append [OF stats txt_doc]] m
      by (intro that) (auto simp: marshal_output_def json_output_of_def reply_doc_def None split: if_splits)
  qed
  obtain fs where fs: "members_read ?d ms fs" "strip_fields fs = reply_doc r" using rd by (auto simp: reads_doc_def)
  have "object_fields (json_object ms) = Some fs"
    using reads_outer [of ms fs] fs(1) by simp
  with ms fs(2) show ?thesis by (simp add: printJSON_def)
qed

theorem printed_result_witness:
  "\<exists>l fs. printJSON (text_result ''x'') = l @ newline \<and> object_fields l = Some fs \<and>
     strip_fields fs = [(''text'', [], JStr ''x'')]"
proof -
  have "printable (text_result ''x'')" by (simp add: printable_def text_result_def no_result_def raw_bytes_def)
  moreover have "reply_doc (text_result ''x'') = [(''text'', [], JStr ''x'')]"
    by (simp add: reply_doc_def text_result_def no_result_def value_doc_def raw_bytes_def parse_json_def str_doc_def
        to_valid_utf8.simps ascii_utf8_len)
  ultimately show ?thesis using printed_result [of "text_result ''x''"] by simp
qed

end
