(* ===== verification/Cli_Forward.thy ===== *)
theory Cli_Forward
  imports Cli_Json
begin

text \<open>
  \<open>kafig-cli/rpc_forward.go\<close> and the goroutines of \<open>runJSON\<close> (\<open>kafig-cli/json.go\<close>): a script's calls
  are written as lines and answered by lines the reader goroutine routes back, while the main
  goroutine executes one command after the other.
\<close>

subsection \<open>The forwarder\<close>

text \<open>
  A call of \<open>Forward\<close> and how far it has come: registered (before its line is written), waiting in
  the \<open>select\<close>, returning (before the deferred deletion) and returned. Its channel has capacity 1 and
  is known by the number of the call; \<open>pending\<close> maps an identifier to it. The context of a call is that
  of the handler goroutines of one command (the \<open>rpcCtx\<close> of \<open>serviceRPCLoop\<close>), by the number of the
  command, or \<^const>\<open>None\<close> for a synchronous call, whose context is never cancelled. \<open>fcTaken\<close> says that
  the caller has got the result.
\<close>

datatype call_state = Registered | Waiting | Returning "go_error + raw" | Returned "go_error + raw"

record fwd_call =
  fcID :: u64
  fcMethod :: string
  fcParams :: raw
  fcState :: call_state
  fcChan :: "rpcResponseMsg list"
  fcCtx :: "nat option"
  fcTaken :: bool

record rpcForwarder =
  nextID :: u64
  pending :: "u64 \<rightharpoonup> nat"
  fwCalls :: "fwd_call list"
  fwWriter :: "string list"

definition newRPCForwarder :: rpcForwarder where
  "newRPCForwarder = \<lparr>nextID = 0, pending = Map.empty, fwCalls = [], fwWriter = []\<rparr>"

definition set_call :: "nat \<Rightarrow> (fwd_call \<Rightarrow> fwd_call) \<Rightarrow> rpcForwarder \<Rightarrow> rpcForwarder" where
  "set_call i u f = f\<lparr>fwCalls := (fwCalls f)[i := u (fwCalls f ! i)]\<rparr>"

text \<open>The beginning of \<open>Forward\<close>: the next identifier, a new channel, the entry in the table.\<close>

definition forward_register :: "nat option \<Rightarrow> string \<Rightarrow> raw \<Rightarrow> rpcForwarder \<Rightarrow> rpcForwarder" where
  "forward_register ctx method params f =
     (let i = nextID f + 1 in
      f\<lparr>nextID := i, pending := (pending f)(i \<mapsto> length (fwCalls f)),
        fwCalls := fwCalls f @ [\<lparr>fcID = i, fcMethod = method, fcParams = params, fcState = Registered, fcChan = [],
          fcCtx = ctx, fcTaken = False\<rparr>]\<rparr>)"

text \<open>The line is written, or fails to be with the error given.\<close>

definition forward_write :: "go_error option \<Rightarrow> nat \<Rightarrow> rpcForwarder \<Rightarrow> rpcForwarder" where
  "forward_write err i f =
     (let c = fwCalls f ! i in
      case err of
        Some e \<Rightarrow> set_call i (\<lambda>c. c\<lparr>fcState := Returning (Inl (ErrWrap ''failed to write RPC request: '' e))\<rparr>) f
      | None \<Rightarrow> set_call i (\<lambda>c. c\<lparr>fcState := Waiting\<rparr>)
          (f\<lparr>fwWriter := fwWriter f @ [request_line \<lparr>ReqID = fcID c, ReqMethod = fcMethod c, ReqParams = fcParams c\<rparr>]\<rparr>))"

definition response_result :: "rpcResponseMsg \<Rightarrow> go_error + raw" where
  "response_result resp = (if RespError resp \<noteq> [] then Inl (ErrMsg (RespError resp)) else Inr (RespResult resp))"

definition forward_receive :: "nat \<Rightarrow> rpcForwarder \<Rightarrow> rpcForwarder" where
  "forward_receive i f = (case fcChan (fwCalls f ! i) of
     [] \<Rightarrow> f
   | resp # rs \<Rightarrow> set_call i (\<lambda>c. c\<lparr>fcState := Returning (response_result resp), fcChan := rs\<rparr>) f)"

definition forward_cancel :: "go_error \<Rightarrow> nat \<Rightarrow> rpcForwarder \<Rightarrow> rpcForwarder" where
  "forward_cancel e i f = set_call i (\<lambda>c. c\<lparr>fcState := Returning (Inl e)\<rparr>) f"

text \<open>The deferred deletion, after which the call has returned.\<close>

definition forward_unregister :: "nat \<Rightarrow> rpcForwarder \<Rightarrow> rpcForwarder" where
  "forward_unregister i f = (case fcState (fwCalls f ! i) of
     Returning r \<Rightarrow> set_call i (\<lambda>c. c\<lparr>fcState := Returned r\<rparr>)
       (f\<lparr>pending := (pending f)(fcID (fwCalls f ! i) := None)\<rparr>)
   | _ \<Rightarrow> f)"

text \<open>\<open>Deliver\<close>: the lookup, and the sending, which blocks (\<^const>\<open>None\<close>) while the channel is full.\<close>

definition deliver_lookup :: "rpcResponseMsg \<Rightarrow> rpcForwarder \<Rightarrow> nat option" where
  "deliver_lookup resp f = pending f (RespID resp)"

definition deliver_send :: "nat \<Rightarrow> rpcResponseMsg \<Rightarrow> rpcForwarder \<Rightarrow> rpcForwarder option" where
  "deliver_send i resp f =
     (if fcChan (fwCalls f ! i) = [] then Some (set_call i (\<lambda>c. c\<lparr>fcChan := [resp]\<rparr>) f) else None)"

text \<open>
  The steps of the \<open>Forward\<close> calls under way; \<open>cancelled\<close> says which contexts are cancelled. A call whose
  context is cancelled may still take a response that is there: \<open>select\<close> chooses either.
\<close>

inductive forward_step :: "(nat option \<Rightarrow> bool) \<Rightarrow> rpcForwarder \<Rightarrow> rpcForwarder \<Rightarrow> bool" for cancelled where
  send_line: "i < length (fwCalls f) \<Longrightarrow> fcState (fwCalls f ! i) = Registered \<Longrightarrow>
    forward_step cancelled f (forward_write err i f)"
| receive: "i < length (fwCalls f) \<Longrightarrow> fcState (fwCalls f ! i) = Waiting \<Longrightarrow> fcChan (fwCalls f ! i) \<noteq> [] \<Longrightarrow>
    forward_step cancelled f (forward_receive i f)"
| cancel: "i < length (fwCalls f) \<Longrightarrow> fcState (fwCalls f ! i) = Waiting \<Longrightarrow> cancelled (fcCtx (fwCalls f ! i)) \<Longrightarrow>
    forward_step cancelled f (forward_cancel e i f)"
| unregister: "i < length (fwCalls f) \<Longrightarrow> fcState (fwCalls f ! i) = Returning r \<Longrightarrow>
    forward_step cancelled f (forward_unregister i f)"

subsection \<open>The goroutines of the JSON mode\<close>

text \<open>
  The reader scans lines, sends a parse error or a command to the main goroutine over an unbuffered
  channel, or is inside \<open>Deliver\<close>; at the end of the input it closes the channel of commands.
\<close>

datatype reader = RScanning | RError go_error | RCommand command | RDeliver nat rpcResponseMsg | REnd

text \<open>
  How far \<open>sess.exec\<close> has come with a command. The guest runs in one of its exports, while \<open>n\<close>
  asynchronous calls are in flight (none in the first export); the guest waits inside an export for
  the synchronous call \<open>i\<close>; the service loop waits for one of \<open>n\<close> calls in flight; the loop is over
  and the result is about to be printed. The work of \<open>reset\<close> counts as the first of these.
\<close>

datatype exec_phase = Export nat | InSync nat nat | Serving nat | Ending result

text \<open>
  The main goroutine waits in its \<open>select\<close>, executes a command, has returned, or has panicked, which
  ends the process.
\<close>

datatype main_state = MSelect | MExec command exec_phase | MReturned | MPanicked command

text \<open>
  \<open>jsCtx\<close> numbers the commands; \<open>jsLaunched\<close> are the handler goroutines that were launched and have not
  entered \<open>Forward\<close> yet, each with the number of its command; \<open>jsInst\<close> says whether the session has an
  instance. \<open>jsSeen\<close> is a history variable: the responses read so far.
\<close>

record json_sys =
  jsInput :: "string list"
  jsReader :: reader
  jsMain :: main_state
  jsCtx :: nat
  jsLaunched :: "(nat \<times> string \<times> raw) list"
  jsInst :: bool
  jsFwd :: rpcForwarder
  jsSeen :: "rpcResponseMsg list"

definition json_start :: "string list \<Rightarrow> json_sys" where
  "json_start input = \<lparr>jsInput = input, jsReader = RScanning, jsMain = MSelect, jsCtx = 0, jsLaunched = [],
     jsInst = True, jsFwd = newRPCForwarder, jsSeen = []\<rparr>"

text \<open>The forwarder's writer is the standard output, to which \<open>printJSON\<close> writes as well.\<close>

definition print_text :: "string \<Rightarrow> rpcForwarder \<Rightarrow> rpcForwarder" where
  "print_text t f = f\<lparr>fwWriter := fwWriter f @ [t]\<rparr>"

text \<open>A line this long ends the scan.\<close>

definition maxLine :: nat where "maxLine = 10 * 1024 * 1024"

definition call_returned :: "fwd_call \<Rightarrow> bool" where
  "call_returned c = (case fcState c of Returned r \<Rightarrow> True | _ \<Rightarrow> False)"

text \<open>What the reader does with a line.\<close>

definition readLine :: "(string \<Rightarrow> string) \<Rightarrow> string \<Rightarrow> json_sys \<Rightarrow> json_sys" where
  "readLine jsonErr l s =
     (if maxLine \<le> length l then s\<lparr>jsInput := [], jsReader := REnd\<rparr>
      else (case routeLine jsonErr l of
          RouteError e \<Rightarrow> s\<lparr>jsReader := RError e\<rparr>
        | RouteCommand cmd \<Rightarrow> s\<lparr>jsReader := RCommand cmd\<rparr>
        | RouteResponse resp \<Rightarrow> s\<lparr>jsSeen := jsSeen s @ [resp],
            jsReader := (case deliver_lookup resp (jsFwd s) of None \<Rightarrow> RScanning | Some c \<Rightarrow> RDeliver c resp)\<rparr>))"

text \<open>
  The context of a command's handler goroutines is cancelled when its service loop returns, for any
  reason; the contexts of all earlier commands are cancelled.
\<close>

definition live_ctx :: "json_sys \<Rightarrow> nat option" where
  "live_ctx s = (case jsMain s of MExec cmd (Ending r) \<Rightarrow> None | MExec cmd p \<Rightarrow> Some (jsCtx s) | _ \<Rightarrow> None)"

definition ctx_done :: "json_sys \<Rightarrow> nat option \<Rightarrow> bool" where
  "ctx_done s c = (c \<noteq> None \<and> c \<noteq> live_ctx s)"

definition alive :: "json_sys \<Rightarrow> bool" where
  "alive s = (case jsMain s of MPanicked cmd \<Rightarrow> False | _ \<Rightarrow> True)"

text \<open>The commands that run a script, on the session's instance.\<close>

definition runs_script :: "command \<Rightarrow> bool" where
  "runs_script cmd = (cmdType cmd \<in> {''eval'', ''dispatch''})"

definition take_result :: "nat \<Rightarrow> rpcForwarder \<Rightarrow> rpcForwarder" where
  "take_result i f = set_call i (\<lambda>c. c\<lparr>fcTaken := True\<rparr>) f"

text \<open>
  The steps of the process. A script, which is any script, may call \<open>host.rpcSync\<close> while an export
  runs (\<open>sync_call\<close>) and queue calls of \<open>host.rpc\<close>, which are launched when the export has returned
  without an error (\<open>launch\<close>; after the first export even with one); an export of which the service
  loop sees an error ends the command (\<open>fail\<close>), whatever is in flight. A launched goroutine enters
  \<open>Forward\<close> at some time, even after its context was cancelled (\<open>start\<close>). The service loop receives a
  result of its own goroutines and feeds it back, which runs an export (\<open>feed\<close>); without calls in
  flight it is over (\<open>drained\<close>). An \<open>eval\<close> or \<open>dispatch\<close> without an instance panics.
\<close>

inductive json_step :: "(string \<Rightarrow> string) \<Rightarrow> json_sys \<Rightarrow> json_sys \<Rightarrow> bool" for jsonErr where
  read: "alive s \<Longrightarrow> jsReader s = RScanning \<Longrightarrow> jsInput s = l # ls \<Longrightarrow>
    json_step jsonErr s (readLine jsonErr l (s\<lparr>jsInput := ls\<rparr>))"
| eof: "alive s \<Longrightarrow> jsReader s = RScanning \<Longrightarrow> jsInput s = [] \<Longrightarrow> json_step jsonErr s (s\<lparr>jsReader := REnd\<rparr>)"
| deliver: "alive s \<Longrightarrow> jsReader s = RDeliver c resp \<Longrightarrow> deliver_send c resp (jsFwd s) = Some f \<Longrightarrow>
    json_step jsonErr s (s\<lparr>jsReader := RScanning, jsFwd := f\<rparr>)"
| parse_error: "jsMain s = MSelect \<Longrightarrow> jsReader s = RError e \<Longrightarrow>
    json_step jsonErr s (s\<lparr>jsReader := RScanning, jsFwd := print_text (printJSON (error_result e)) (jsFwd s)\<rparr>)"
| execute: "jsMain s = MSelect \<Longrightarrow> jsReader s = RCommand cmd \<Longrightarrow> runs_script cmd \<longrightarrow> jsInst s \<Longrightarrow>
    json_step jsonErr s (s\<lparr>jsReader := RScanning, jsMain := MExec cmd (Export 0), jsCtx := Suc (jsCtx s)\<rparr>)"
| panic: "jsMain s = MSelect \<Longrightarrow> jsReader s = RCommand cmd \<Longrightarrow> runs_script cmd \<Longrightarrow> \<not> jsInst s \<Longrightarrow>
    json_step jsonErr s (s\<lparr>jsReader := RScanning, jsMain := MPanicked cmd\<rparr>)"
| closed: "jsMain s = MSelect \<Longrightarrow> jsReader s = REnd \<Longrightarrow> json_step jsonErr s (s\<lparr>jsMain := MReturned\<rparr>)"
| sync_call: "jsMain s = MExec cmd (Export n) \<Longrightarrow> runs_script cmd \<Longrightarrow>
    json_step jsonErr s (s\<lparr>jsMain := MExec cmd (InSync (length (fwCalls (jsFwd s))) n),
      jsFwd := forward_register None method params (jsFwd s)\<rparr>)"
| sync_return: "jsMain s = MExec cmd (InSync i n) \<Longrightarrow> call_returned (fwCalls (jsFwd s) ! i) \<Longrightarrow>
    json_step jsonErr s (s\<lparr>jsMain := MExec cmd (Export n), jsFwd := take_result i (jsFwd s)\<rparr>)"
| launch: "jsMain s = MExec cmd (Export n) \<Longrightarrow> runs_script cmd \<Longrightarrow>
    json_step jsonErr s (s\<lparr>jsMain := MExec cmd (Serving (n + length batch)),
      jsLaunched := jsLaunched s @ map (Pair (jsCtx s)) batch\<rparr>)"
| fail: "jsMain s = MExec cmd (Export n) \<Longrightarrow> runs_script cmd \<Longrightarrow> resError r \<noteq> None \<Longrightarrow>
    json_step jsonErr s (s\<lparr>jsMain := MExec cmd (Ending r)\<rparr>)"
| start: "alive s \<Longrightarrow> jsLaunched s = xs @ (k, method, params) # ys \<Longrightarrow>
    json_step jsonErr s (s\<lparr>jsLaunched := xs @ ys, jsFwd := forward_register (Some k) method params (jsFwd s)\<rparr>)"
| forward: "alive s \<Longrightarrow> forward_step (ctx_done s) (jsFwd s) f \<Longrightarrow> json_step jsonErr s (s\<lparr>jsFwd := f\<rparr>)"
| feed: "jsMain s = MExec cmd (Serving (Suc n)) \<Longrightarrow> i < length (fwCalls (jsFwd s)) \<Longrightarrow>
    fcCtx (fwCalls (jsFwd s) ! i) = Some (jsCtx s) \<Longrightarrow> call_returned (fwCalls (jsFwd s) ! i) \<Longrightarrow>
    \<not> fcTaken (fwCalls (jsFwd s) ! i) \<Longrightarrow>
    json_step jsonErr s (s\<lparr>jsMain := MExec cmd (Export n), jsFwd := take_result i (jsFwd s)\<rparr>)"
| drained: "jsMain s = MExec cmd (Serving 0) \<Longrightarrow> json_step jsonErr s (s\<lparr>jsMain := MExec cmd (Ending r)\<rparr>)"
| reset_done: "jsMain s = MExec cmd (Export n) \<Longrightarrow> \<not> runs_script cmd \<Longrightarrow>
    json_step jsonErr s (s\<lparr>jsMain := MExec cmd (Ending (case err of None \<Rightarrow> text_result resetText | Some e \<Rightarrow> error_result e)),
      jsInst := (err = None)\<rparr>)"
| answered: "jsMain s = MExec cmd (Ending r) \<Longrightarrow>
    json_step jsonErr s (s\<lparr>jsMain := MSelect, jsFwd := print_text (printJSON r) (jsFwd s)\<rparr>)"

inductive json_reach :: "(string \<Rightarrow> string) \<Rightarrow> json_sys \<Rightarrow> json_sys \<Rightarrow> bool" for jsonErr s where
  refl: "json_reach jsonErr s s"
| step: "json_reach jsonErr s t \<Longrightarrow> json_step jsonErr t u \<Longrightarrow> json_reach jsonErr s u"

subsection \<open>The interactive forwarder\<close>

text \<open>
  \<open>readLine\<close> is the text of the next line of the standard input, or the error reading it gives. The
  result is the texts written to the standard error output and what \<open>Forward\<close> returns.
\<close>

definition interactiveForward :: "(string \<Rightarrow> string) \<Rightarrow> u64 \<Rightarrow> string \<Rightarrow> raw \<Rightarrow> go_error + string \<Rightarrow>
    u64 \<times> string \<times> (go_error + raw)" where
  "interactiveForward jsonErr n method params input =
     (let i = n + 1;
          printed = newline @ request_line \<lparr>ReqID = i, ReqMethod = method, ReqParams = params\<rparr> @ ''rpc response> ''
      in (i, printed, case input of
            Inl e \<Rightarrow> Inl (ErrWrap ''failed to read RPC response: '' e)
          | Inr respLine \<Rightarrow>
              (case unmarshal_response respLine of
                 None \<Rightarrow> Inl (ErrWrap ''invalid RPC response JSON: '' (ErrMsg (jsonErr respLine)))
               | Some resp \<Rightarrow> response_result resp)))"

end
