(* ===== verification/Forward_Spec.thy ===== *)
theory Forward_Spec
  imports Cli_Forward Cli_Json_Spec
begin

text \<open>
  What the forwarding of calls guarantees in the JSON mode: a call gets the response with its own
  identifier, the reader is not held up by a client that answers each call once, and the one way the
  mode can hang.
\<close>

subsection \<open>The invariant\<close>

lemma set_call_simps [simp]:
  "length (fwCalls (set_call i u f)) = length (fwCalls f)"
  "pending (set_call i u f) = pending f" "nextID (set_call i u f) = nextID f"
  "j < length (fwCalls f) \<Longrightarrow> fwCalls (set_call i u f) ! j = (if j = i then u (fwCalls f ! i) else fwCalls f ! j)"
  "fwCalls (print_text t f) = fwCalls f" "pending (print_text t f) = pending f" "nextID (print_text t f) = nextID f"
  by (auto simp: set_call_def print_text_def)

text \<open>The number of responses with an identifier, and of those on their way to a call.\<close>

definition count_id :: "u64 \<Rightarrow> rpcResponseMsg list \<Rightarrow> nat" where
  "count_id i rs = length (filter (\<lambda>r. RespID r = i) rs)"

definition held :: "reader \<Rightarrow> nat \<Rightarrow> nat" where
  "held r i = (case r of RDeliver c resp \<Rightarrow> if c = i then 1 else 0 | _ \<Rightarrow> 0)"

definition table_ok :: "rpcForwarder \<Rightarrow> bool" where
  "table_ok f = (nextID f = of_nat (length (fwCalls f)) \<and>
     (\<forall>i < length (fwCalls f). fcID (fwCalls f ! i) = of_nat (Suc i)) \<and>
     (\<forall>x c. pending f x = Some c \<longrightarrow> c < length (fwCalls f) \<and> x = of_nat (Suc c)))"

text \<open>A call that has not returned is in the table, as long as the identifiers do not wrap around.\<close>

definition listed :: "rpcForwarder \<Rightarrow> bool" where
  "listed f = (\<forall>i < length (fwCalls f). \<not> call_returned (fwCalls f ! i) \<longrightarrow> length (fwCalls f) < 2 ^ 64 \<longrightarrow>
     pending f (of_nat (Suc i)) = Some i)"

definition answer_of :: "rpcResponseMsg list \<Rightarrow> u64 \<Rightarrow> raw \<Rightarrow> bool" where
  "answer_of seen x v = (\<exists>resp \<in> set seen. RespID resp = x \<and> response_result resp = Inr v)"

definition call_ok :: "rpcResponseMsg list \<Rightarrow> nat \<Rightarrow> fwd_call \<Rightarrow> bool" where
  "call_ok seen h c = ((\<forall>r \<in> set (fcChan c). r \<in> set seen \<and> RespID r = fcID c) \<and>
     length (fcChan c) + h \<le> count_id (fcID c) seen \<and>
     (\<forall>v. fcState c \<in> {Returning (Inr v), Returned (Inr v)} \<longrightarrow> answer_of seen (fcID c) v))"

text \<open>
  The count of calls in flight is the number of goroutines of the command that were launched and
  whose result was not received: those not in \<open>Forward\<close> yet and those whose call was not taken.
\<close>

definition owed_calls :: "nat \<Rightarrow> rpcForwarder \<Rightarrow> nat list" where
  "owed_calls k f = filter (\<lambda>i. fcCtx (fwCalls f ! i) = Some k \<and> \<not> fcTaken (fwCalls f ! i)) [0..<length (fwCalls f)]"

definition in_flight :: "json_sys \<Rightarrow> nat" where
  "in_flight s = length (filter (\<lambda>x. fst x = jsCtx s) (jsLaunched s)) + length (owed_calls (jsCtx s) (jsFwd s))"

definition main_ok :: "json_sys \<Rightarrow> bool" where
  "main_ok s = ((case jsMain s of
      MExec cmd (Export n) \<Rightarrow> n = in_flight s
    | MExec cmd (InSync i n) \<Rightarrow> n = in_flight s \<and> i < length (fwCalls (jsFwd s)) \<and>
        fcCtx (fwCalls (jsFwd s) ! i) = None \<and> \<not> fcTaken (fwCalls (jsFwd s) ! i)
    | MExec cmd (Serving n) \<Rightarrow> n = in_flight s
    | _ \<Rightarrow> True) \<and>
    (\<forall>x \<in> set (jsLaunched s). fst x \<le> jsCtx s) \<and>
    (\<forall>i < length (fwCalls (jsFwd s)). \<forall>k. fcCtx (fwCalls (jsFwd s) ! i) = Some k \<longrightarrow> k \<le> jsCtx s))"

definition json_inv :: "json_sys \<Rightarrow> bool" where
  "json_inv s = (table_ok (jsFwd s) \<and> listed (jsFwd s) \<and>
     (\<forall>c resp. jsReader s = RDeliver c resp \<longrightarrow>
        c < length (fwCalls (jsFwd s)) \<and> resp \<in> set (jsSeen s) \<and> RespID resp = fcID (fwCalls (jsFwd s) ! c)) \<and>
     (\<forall>i < length (fwCalls (jsFwd s)). call_ok (jsSeen s) (held (jsReader s) i) (fwCalls (jsFwd s) ! i)))"

lemma of_nat_eq_word: "i < 2 ^ 64 \<Longrightarrow> j < 2 ^ 64 \<Longrightarrow> ((of_nat i :: u64) = of_nat j) = (i = j)"
  by (simp add: word_of_nat_eq_iff take_bit_nat_eq_self)

lemma register_keeps:
  assumes "table_ok f" and "listed f"
  shows "table_ok (forward_register x m p f)" and "listed (forward_register x m p f)"
proof -
  let ?f = "forward_register x m p f"
  let ?n = "length (fwCalls f)"
  have l: "length (fwCalls ?f) = Suc ?n" by (simp add: forward_register_def Let_def)
  have n: "nextID f = of_nat ?n" using assms(1) by (simp add: table_ok_def)
  have old: "fwCalls ?f ! i = fwCalls f ! i" if "i < ?n" for i
    using that by (simp add: forward_register_def Let_def nth_append)
  have new: "fwCalls ?f ! ?n = \<lparr>fcID = nextID f + 1, fcMethod = m, fcParams = p, fcState = Registered, fcChan = [],
      fcCtx = x, fcTaken = False\<rparr>"
    by (simp add: forward_register_def Let_def)
  have pend: "pending ?f = (pending f)(nextID f + 1 \<mapsto> ?n)" by (simp add: forward_register_def Let_def)
  have nid: "nextID ?f = nextID f + 1" by (simp add: forward_register_def Let_def)
  show "table_ok ?f"
    using assms(1) old new pend nid l n
    by (auto simp: table_ok_def less_Suc_eq)
  show "listed ?f"
  proof (unfold listed_def, intro allI impI)
    fix i assume i: "i < length (fwCalls ?f)" "\<not> call_returned (fwCalls ?f ! i)" "length (fwCalls ?f) < 2 ^ 64"
    show "pending ?f (of_nat (Suc i)) = Some i"
    proof (cases "i = ?n")
      case True
      then show ?thesis using n by (simp add: pend add.commute)
    next
      case False
      with i l have i': "i < ?n" "?n < 2 ^ 64" by auto
      have "(of_nat (Suc i) :: u64) \<noteq> of_nat (Suc ?n)"
        using i' i(3) l of_nat_eq_word [of "Suc i" "Suc ?n"] by auto
      moreover have "pending f (of_nat (Suc i)) = Some i"
        using assms(2) i' i(2) old [OF i'(1)] by (simp add: listed_def)
      ultimately show ?thesis using n by (simp add: pend add.commute)
    qed
  qed
qed

text \<open>The steps of a call change that call only, keep its identifier and take nothing but its channel.\<close>

lemma forward_step_call:
  assumes "forward_step cc f f'"
  obtains i c' where "i < length (fwCalls f)" and "fwCalls f' = (fwCalls f)[i := c']" and "nextID f' = nextID f"
    and "fcID c' = fcID (fwCalls f ! i)" and "fcCtx c' = fcCtx (fwCalls f ! i) \<and> fcTaken c' = fcTaken (fwCalls f ! i)"
    and "pending f' = pending f \<and> call_returned c' = call_returned (fwCalls f ! i) \<or>
      pending f' = (pending f)(fcID c' := None) \<and> call_returned c'"
    and "(\<exists>r. fcChan (fwCalls f ! i) = r # fcChan c' \<and> fcState c' = Returning (response_result r) \<and> fcState (fwCalls f ! i) = Waiting) \<or>
      fcChan c' = fcChan (fwCalls f ! i) \<and> (fcState (fwCalls f ! i) = Waiting \<longrightarrow> cc (fcCtx c')) \<and>
        (\<forall>v. fcState c' \<in> {Returning (Inr v), Returned (Inr v)} \<longrightarrow> fcState (fwCalls f ! i) = Returning (Inr v))"
  using assms
proof cases
  case (send_line i err)
  then show ?thesis
    by (intro that [of i "fwCalls f' ! i"])
      (auto simp: forward_write_def set_call_def Let_def call_returned_def split: option.splits)
next
  case (receive i)
  then obtain r rs where "fcChan (fwCalls f ! i) = r # rs" by (cases "fcChan (fwCalls f ! i)") auto
  with receive show ?thesis
    by (intro that [of i "fwCalls f' ! i"])
      (auto simp: forward_receive_def set_call_def call_returned_def)
next
  case (cancel i e)
  then show ?thesis
    by (intro that [of i "fwCalls f' ! i"])
      (auto simp: forward_cancel_def set_call_def call_returned_def)
next
  case (unregister i r)
  then show ?thesis
    by (intro that [of i "fwCalls f' ! i"])
      (auto simp: forward_unregister_def set_call_def call_returned_def)
qed


lemma forward_step_table:
  assumes "forward_step cc f f'" and "table_ok f" and "listed f"
  shows "table_ok f' \<and> listed f'"
proof -
  obtain i c' where i: "i < length (fwCalls f)" and c: "fwCalls f' = (fwCalls f)[i := c']" and n: "nextID f' = nextID f"
    and x: "fcID c' = fcID (fwCalls f ! i)"
    and p: "pending f' = pending f \<and> call_returned c' = call_returned (fwCalls f ! i) \<or>
      pending f' = (pending f)(fcID c' := None) \<and> call_returned c'"
    using forward_step_call [OF assms(1)] by blast
  have t: "table_ok f'"
    using assms(2) i c n x p by (auto simp: table_ok_def nth_list_update split: if_splits)
  have "pending f' (of_nat (Suc j)) = Some j"
    if j: "j < length (fwCalls f)" "\<not> call_returned (fwCalls f' ! j)" "length (fwCalls f) < 2 ^ 64" for j
  proof -
    have old: "\<not> call_returned (fwCalls f ! j)" using j p c i by (auto simp: nth_list_update split: if_splits)
    then have pj: "pending f (of_nat (Suc j)) = Some j" using assms(3) j by (simp add: listed_def)
    have "fcID c' \<noteq> of_nat (Suc j)" if "call_returned c'"
    proof -
      have "j \<noteq> i" using that j(2) c i by auto
      moreover have "fcID c' = of_nat (Suc i)" using assms(2) i x by (simp add: table_ok_def)
      ultimately show ?thesis using of_nat_eq_word [of "Suc i" "Suc j"] i j by simp
    qed
    with pj p show ?thesis by auto
  qed
  with t show ?thesis by (simp add: listed_def c)
qed

lemma forward_step_calls_ok:
  assumes "forward_step cc f f'" and "i < length (fwCalls f)" and "call_ok seen h (fwCalls f ! i)"
  shows "call_ok seen h (fwCalls f' ! i)"
proof -
  obtain k c' where k: "k < length (fwCalls f)" and c: "fwCalls f' = (fwCalls f)[k := c']" and "nextID f' = nextID f"
    and x: "fcID c' = fcID (fwCalls f ! k)" and "fcCtx c' = fcCtx (fwCalls f ! k) \<and> fcTaken c' = fcTaken (fwCalls f ! k)"
    and "pending f' = pending f \<and> call_returned c' = call_returned (fwCalls f ! k) \<or>
      pending f' = (pending f)(fcID c' := None) \<and> call_returned c'"
    and s: "(\<exists>r. fcChan (fwCalls f ! k) = r # fcChan c' \<and> fcState c' = Returning (response_result r) \<and> fcState (fwCalls f ! k) = Waiting) \<or>
      fcChan c' = fcChan (fwCalls f ! k) \<and> (fcState (fwCalls f ! k) = Waiting \<longrightarrow> cc (fcCtx c')) \<and>
        (\<forall>v. fcState c' \<in> {Returning (Inr v), Returned (Inr v)} \<longrightarrow> fcState (fwCalls f ! k) = Returning (Inr v))"
    by (rule forward_step_call [OF assms(1)])
  have "call_ok seen h c'" if o: "call_ok seen h (fwCalls f ! k)"
  proof -
    have ch: "set (fcChan c') \<subseteq> set (fcChan (fwCalls f ! k))" "length (fcChan c') \<le> length (fcChan (fwCalls f ! k))"
      using s by auto
    have "answer_of seen (fcID c') v" if v: "fcState c' \<in> {Returning (Inr v), Returned (Inr v)}" for v
      using s
    proof (elim disjE exE conjE)
      fix r assume "fcChan (fwCalls f ! k) = r # fcChan c'" "fcState c' = Returning (response_result r)"
      with v o x show ?thesis by (auto simp: call_ok_def answer_of_def)
    next
      assume "\<forall>v. fcState c' \<in> {Returning (Inr v), Returned (Inr v)} \<longrightarrow> fcState (fwCalls f ! k) = Returning (Inr v)"
      with v have "fcState (fwCalls f ! k) = Returning (Inr v)" by blast
      with o x show ?thesis by (simp add: call_ok_def)
    qed
    with o ch x show ?thesis unfolding call_ok_def by auto
  qed
  with assms(2,3) k c show ?thesis by (simp add: nth_list_update)
qed

lemma forward_step_ids:
  assumes "forward_step cc f f'"
  shows "length (fwCalls f') = length (fwCalls f) \<and>
    (\<forall>j < length (fwCalls f). fcID (fwCalls f' ! j) = fcID (fwCalls f ! j))"
  by (rule forward_step_call [OF assms]) (simp add: nth_list_update)

lemma count_id_snoc [simp]: "count_id x (rs @ [r]) = count_id x rs + (if RespID r = x then 1 else 0)"
  by (simp add: count_id_def)

lemma json_inv_start: "json_inv (json_start input)"
  by (simp add: json_inv_def json_start_def newRPCForwarder_def table_ok_def listed_def)

lemma json_inv_read:
  assumes "json_inv s" and "jsReader s = RScanning"
  shows "json_inv (readLine jsonErr l (s\<lparr>jsInput := ls\<rparr>))"
proof (cases "maxLine \<le> length l")
  case True
  with assms show ?thesis by (simp add: readLine_def json_inv_def held_def)
next
  case False
  show ?thesis
  proof (cases "routeLine jsonErr l")
    case (RouteResponse resp)
    have "pending (jsFwd s) (RespID resp) = Some c \<Longrightarrow>
        c < length (fwCalls (jsFwd s)) \<and> RespID resp = fcID (fwCalls (jsFwd s) ! c)" for c
      using assms(1) by (auto simp: json_inv_def table_ok_def)
    with assms False RouteResponse show ?thesis
      by (cases "deliver_lookup resp (jsFwd s)")
        (auto simp: readLine_def json_inv_def held_def call_ok_def answer_of_def deliver_lookup_def)
  qed (use assms False in \<open>simp_all add: readLine_def json_inv_def held_def\<close>)
qed

lemma table_print [simp]: "table_ok (print_text t f) = table_ok f" "listed (print_text t f) = listed f"
  by (simp_all add: table_ok_def listed_def)

lemma json_inv_fwd:
  assumes "table_ok f" and "listed f"
    and "\<And>i. i < length (fwCalls f) \<Longrightarrow> call_ok (jsSeen s) (held (jsReader s) i) (fwCalls f ! i)"
    and "\<And>c resp. jsReader s = RDeliver c resp \<Longrightarrow>
      c < length (fwCalls f) \<and> resp \<in> set (jsSeen s) \<and> RespID resp = fcID (fwCalls f ! c)"
  shows "json_inv (s\<lparr>jsFwd := f\<rparr>)"
  using assms by (simp add: json_inv_def)

lemma take_result_nth: "j < length (fwCalls f) \<Longrightarrow> fwCalls (take_result i f) ! j =
    (if j = i then (fwCalls f ! j)\<lparr>fcTaken := True\<rparr> else fwCalls f ! j)"
  by (auto simp: take_result_def set_call_def nth_list_update)

lemma take_result_simps [simp]:
  "length (fwCalls (take_result i f)) = length (fwCalls f)" "pending (take_result i f) = pending f"
  "nextID (take_result i f) = nextID f"
  "j < length (fwCalls f) \<Longrightarrow> fcID (fwCalls (take_result i f) ! j) = fcID (fwCalls f ! j)"
  "j < length (fwCalls f) \<Longrightarrow> fcCtx (fwCalls (take_result i f) ! j) = fcCtx (fwCalls f ! j)"
  "j < length (fwCalls f) \<Longrightarrow> fcState (fwCalls (take_result i f) ! j) = fcState (fwCalls f ! j)"
  "j < length (fwCalls f) \<Longrightarrow> fcTaken (fwCalls (take_result i f) ! j) = (j = i \<or> fcTaken (fwCalls f ! j))"
  by (simp_all add: take_result_nth) (simp_all add: take_result_def)

lemma take_result_table [simp]:
  "table_ok (take_result i f) = table_ok f" "listed (take_result i f) = listed f"
  by (auto simp: table_ok_def listed_def call_returned_def)

lemma call_ok_take [simp]: "call_ok seen h (c\<lparr>fcTaken := b\<rparr>) = call_ok seen h c"
  by (simp add: call_ok_def)

lemma json_inv_take: "json_inv s \<Longrightarrow> json_inv (s\<lparr>jsMain := m, jsFwd := take_result i (jsFwd s)\<rparr>)"
  by (auto simp: json_inv_def take_result_nth)

lemma json_inv_register:
  assumes "json_inv s"
  shows "json_inv (s\<lparr>jsFwd := forward_register x m p (jsFwd s)\<rparr>)"
proof -
  let ?f = "forward_register x m p (jsFwd s)"
  have c: "fwCalls ?f = fwCalls (jsFwd s) @ [\<lparr>fcID = nextID (jsFwd s) + 1, fcMethod = m, fcParams = p,
      fcState = Registered, fcChan = [], fcCtx = x, fcTaken = False\<rparr>]" by (simp add: forward_register_def Let_def)
  have "table_ok ?f" "listed ?f" using register_keeps assms by (auto simp: json_inv_def)
  moreover have "call_ok (jsSeen s) (held (jsReader s) i) (fwCalls ?f ! i)" if "i < length (fwCalls ?f)" for i
  proof (cases "i < length (fwCalls (jsFwd s))")
    case True
    with assms show ?thesis by (simp add: json_inv_def c nth_append)
  next
    case False
    with that have i: "i = length (fwCalls (jsFwd s))" by (simp add: c)
    have "held (jsReader s) i = 0"
      using assms by (cases "jsReader s") (auto simp: json_inv_def held_def i)
    then show ?thesis by (simp add: c i call_ok_def)
  qed
  moreover have "c < length (fwCalls ?f) \<and> resp \<in> set (jsSeen s) \<and> RespID resp = fcID (fwCalls ?f ! c)"
    if "jsReader s = RDeliver c resp" for c resp
  proof -
    have "c < length (fwCalls (jsFwd s)) \<and> resp \<in> set (jsSeen s) \<and> RespID resp = fcID (fwCalls (jsFwd s) ! c)"
      using assms that unfolding json_inv_def by blast
    then show ?thesis by (simp add: c nth_append)
  qed
  ultimately show ?thesis by (intro json_inv_fwd) auto
qed

lemma json_inv_deliver:
  assumes "jsReader s = RDeliver c resp" and "deliver_send c resp (jsFwd s) = Some f" and "json_inv s"
  shows "json_inv (s\<lparr>jsReader := RScanning, jsFwd := f\<rparr>)"
proof -
  let ?f = "jsFwd s"
  have f: "f = set_call c (\<lambda>c. c\<lparr>fcChan := [resp]\<rparr>) ?f" and e: "fcChan (fwCalls ?f ! c) = []"
    using assms(2) by (auto simp: deliver_send_def split: if_splits)
  from assms(1,3) have r: "c < length (fwCalls ?f)" "resp \<in> set (jsSeen s)" "RespID resp = fcID (fwCalls ?f ! c)"
    by (auto simp: json_inv_def)
  have "table_ok f" "listed f"
    using assms(3) r by (auto simp: f json_inv_def table_ok_def listed_def call_returned_def)
  moreover have "call_ok (jsSeen s) 0 (fwCalls f ! i)" if "i < length (fwCalls ?f)" for i
  proof -
    have "call_ok (jsSeen s) (held (jsReader s) i) (fwCalls ?f ! i)"
      using assms(3) that by (simp add: json_inv_def)
    with that r e assms(1) show ?thesis
      by (cases "i = c") (simp_all add: f call_ok_def held_def)
  qed
  ultimately show ?thesis by (simp add: json_inv_def held_def f)
qed

lemma json_inv_forward:
  assumes "forward_step cc (jsFwd s) f" and "json_inv s"
  shows "json_inv (s\<lparr>jsFwd := f\<rparr>)"
proof -
  note l = forward_step_ids [OF assms(1), THEN conjunct1] and x = forward_step_ids [OF assms(1), THEN conjunct2]
  have "table_ok f \<and> listed f" using forward_step_table [OF assms(1)] assms(2) by (simp add: json_inv_def)
  moreover have "call_ok (jsSeen s) (held (jsReader s) i) (fwCalls f ! i)" if "i < length (fwCalls f)" for i
    using forward_step_calls_ok [OF assms(1)] assms(2) that by (simp add: json_inv_def l)
  moreover have "c < length (fwCalls f) \<and> resp \<in> set (jsSeen s) \<and> RespID resp = fcID (fwCalls f ! c)"
    if "jsReader s = RDeliver c resp" for c resp
    using assms(2) that x l unfolding json_inv_def by auto
  ultimately show ?thesis by (intro json_inv_fwd) auto
qed

lemma json_inv_step: "json_step jsonErr s t \<Longrightarrow> json_inv s \<Longrightarrow> json_inv t"
proof (induction rule: json_step.induct)
  case (read s l ls)
  then show ?case by (simp add: json_inv_read)
next
  case (deliver s c resp f)
  then show ?case by (blast intro: json_inv_deliver)
next
  case (sync_call s cmd n m p)
  then show ?case using json_inv_register [of s None m p] by (simp add: json_inv_def)
next
  case (start s xs k m p ys)
  then show ?case using json_inv_register [of s "Some k" m p] by (simp add: json_inv_def)
next
  case (forward s f)
  then show ?case by (blast intro: json_inv_forward)
next
  case (sync_return s cmd i n)
  then show ?case by (blast intro: json_inv_take)
next
  case (feed s cmd n i)
  then show ?case by (blast intro: json_inv_take)
qed (simp_all add: json_inv_def held_def)

lemma json_reach_inv: "json_reach jsonErr (json_start input) s \<Longrightarrow> json_inv s"
  by (induction rule: json_reach.induct) (auto simp: json_inv_start dest: json_inv_step)


subsection \<open>The calls in flight\<close>

lemma owed_register:
  "owed_calls k (forward_register x m p f) = owed_calls k f @ (if x = Some k then [length (fwCalls f)] else [])"
proof -
  have "filter (\<lambda>i. fcCtx (fwCalls (forward_register x m p f) ! i) = Some k \<and>
      \<not> fcTaken (fwCalls (forward_register x m p f) ! i)) [0..<length (fwCalls f)] = owed_calls k f"
    unfolding owed_calls_def by (rule filter_cong) (simp_all add: forward_register_def Let_def nth_append)
  then show ?thesis by (simp add: owed_calls_def forward_register_def Let_def)
qed

lemma owed_same:
  assumes "length (fwCalls g) = length (fwCalls f)"
    and "\<And>i. i < length (fwCalls f) \<Longrightarrow> fcCtx (fwCalls g ! i) = fcCtx (fwCalls f ! i) \<and> fcTaken (fwCalls g ! i) = fcTaken (fwCalls f ! i)"
  shows "owed_calls k g = owed_calls k f"
  unfolding owed_calls_def assms(1) by (rule filter_cong) (use assms(2) in auto)

lemma owed_print [simp]: "owed_calls k (print_text x f) = owed_calls k f"
  by (rule owed_same) simp_all

lemma owed_deliver: "deliver_send c resp f = Some g \<Longrightarrow> owed_calls k g = owed_calls k f"
  by (rule owed_same) (auto simp: deliver_send_def split: if_splits)

lemma forward_step_ctx:
  assumes "forward_step cc f g" and "i < length (fwCalls f)"
  shows "fcCtx (fwCalls g ! i) = fcCtx (fwCalls f ! i) \<and> fcTaken (fwCalls g ! i) = fcTaken (fwCalls f ! i)"
  by (rule forward_step_call [OF assms(1)]) (simp add: assms(2) nth_list_update)

lemma owed_forward: "forward_step cc f g \<Longrightarrow> owed_calls k g = owed_calls k f"
  by (rule owed_same) (use forward_step_ids forward_step_ctx in blast)+

lemma owed_take:
  assumes "i < length (fwCalls f)"
  shows "owed_calls k (take_result i f) = filter (\<lambda>j. j \<noteq> i) (owed_calls k f)"
proof -
  have "owed_calls k (take_result i f) =
      filter (\<lambda>j. j \<noteq> i \<and> fcCtx (fwCalls f ! j) = Some k \<and> \<not> fcTaken (fwCalls f ! j)) [0..<length (fwCalls f)]"
    unfolding owed_calls_def take_result_simps(1) by (rule filter_cong) auto
  then show ?thesis by (simp add: owed_calls_def conj_commute)
qed

lemma owed_set: "i \<in> set (owed_calls k f) \<longleftrightarrow>
    i < length (fwCalls f) \<and> fcCtx (fwCalls f ! i) = Some k \<and> \<not> fcTaken (fwCalls f ! i)"
  by (auto simp: owed_calls_def)

lemma length_without:
  assumes "distinct xs" and "i \<in> set xs"
  shows "length (filter (\<lambda>j. j \<noteq> i) xs) = length xs - 1"
proof -
  have "filter (\<lambda>j. j \<noteq> i) xs = remove1 i xs"
    using assms(1) by (simp add: distinct_remove1_removeAll removeAll_filter_not_eq neq_commute)
  with assms(2) show ?thesis by (simp add: length_remove1)
qed

lemma owed_taken:
  "fcCtx (fwCalls f ! i) = Some k \<Longrightarrow> i < length (fwCalls f) \<Longrightarrow> \<not> fcTaken (fwCalls f ! i) \<Longrightarrow>
    Suc (length (owed_calls k (take_result i f))) = length (owed_calls k f)"
proof -
  assume i: "fcCtx (fwCalls f ! i) = Some k" "i < length (fwCalls f)" "\<not> fcTaken (fwCalls f ! i)"
  then have m: "i \<in> set (owed_calls k f)" by (simp add: owed_set)
  moreover have "distinct (owed_calls k f)" by (simp add: owed_calls_def)
  moreover have "length (owed_calls k f) \<noteq> 0" using m by auto
  ultimately show ?thesis using i by (simp add: owed_take length_without)
qed

lemma owed_other: "fcCtx (fwCalls f ! i) \<noteq> Some k \<Longrightarrow> i < length (fwCalls f) \<Longrightarrow> owed_calls k (take_result i f) = owed_calls k f"
  by (simp add: owed_take filter_id_conv owed_set) (auto simp: filter_id_conv owed_set)

lemma main_okI:
  assumes "main_ok s" and "jsMain t = jsMain s" and "in_flight t = in_flight s" and "jsCtx t = jsCtx s"
    and "set (jsLaunched t) \<subseteq> set (jsLaunched s)"
    and "length (fwCalls (jsFwd t)) = length (fwCalls (jsFwd s))"
    and "\<And>i. i < length (fwCalls (jsFwd s)) \<Longrightarrow> fcCtx (fwCalls (jsFwd t) ! i) = fcCtx (fwCalls (jsFwd s) ! i) \<and>
      fcTaken (fwCalls (jsFwd t) ! i) = fcTaken (fwCalls (jsFwd s) ! i)"
  shows "main_ok t"
proof -
  have "(case jsMain t of
      MExec cmd (Export n) \<Rightarrow> n = in_flight t
    | MExec cmd (InSync i n) \<Rightarrow> n = in_flight t \<and> i < length (fwCalls (jsFwd t)) \<and>
        fcCtx (fwCalls (jsFwd t) ! i) = None \<and> \<not> fcTaken (fwCalls (jsFwd t) ! i)
    | MExec cmd (Serving n) \<Rightarrow> n = in_flight t
    | _ \<Rightarrow> True)"
    using assms(1) unfolding main_ok_def assms(2,3,6)
    by (auto simp: assms(7) split: main_state.splits exec_phase.splits)
  then show ?thesis using assms(1,4,5,7) unfolding main_ok_def assms(6) by auto
qed

lemma readLine_keeps: "jsMain (readLine e l s) = jsMain s" "jsCtx (readLine e l s) = jsCtx s"
  "jsLaunched (readLine e l s) = jsLaunched s" "jsFwd (readLine e l s) = jsFwd s" "jsInst (readLine e l s) = jsInst s"
  by (simp_all add: readLine_def split: routed.split)

lemma no_calls_ahead:
  assumes "\<forall>x \<in> set (jsLaunched s). fst x \<le> k" and "\<forall>i < length (fwCalls (jsFwd s)). \<forall>j. fcCtx (fwCalls (jsFwd s) ! i) = Some j \<longrightarrow> j \<le> k"
  shows "filter (\<lambda>x. fst x = Suc k) (jsLaunched s) = [] \<and> owed_calls (Suc k) (jsFwd s) = []"
  using assms by (fastforce simp: owed_calls_def filter_empty_conv)

lemma main_ok_step: "json_step jsonErr s t \<Longrightarrow> main_ok s \<Longrightarrow> main_ok t"
proof (induction rule: json_step.induct)
  case (read s l ls)
  then show ?case by (intro main_okI [OF read(4)]) (simp_all add: readLine_keeps in_flight_def)
next
  case (deliver s c resp f)
  then show ?case
    by (intro main_okI [OF deliver(4)]) (auto simp: in_flight_def owed_deliver deliver_send_def split: if_splits)
next
  case (execute s cmd)
  have "filter (\<lambda>x. fst x = Suc (jsCtx s)) (jsLaunched s) = [] \<and> owed_calls (Suc (jsCtx s)) (jsFwd s) = []"
    by (rule no_calls_ahead) (use execute(4) in \<open>auto simp: main_ok_def\<close>)
  with execute show ?case by (auto simp: main_ok_def in_flight_def intro: le_SucI)
next
  case (sync_call s cmd n m p)
  have c: "fwCalls (forward_register None m p (jsFwd s)) ! i = (if i < length (fwCalls (jsFwd s)) then fwCalls (jsFwd s) ! i
      else \<lparr>fcID = nextID (jsFwd s) + 1, fcMethod = m, fcParams = p, fcState = Registered, fcChan = [], fcCtx = None,
        fcTaken = False\<rparr>)" if "i < Suc (length (fwCalls (jsFwd s)))" for i
    using that by (auto simp: forward_register_def Let_def nth_append)
  have l: "length (fwCalls (forward_register None m p (jsFwd s))) = Suc (length (fwCalls (jsFwd s)))"
    by (simp add: forward_register_def Let_def)
  show ?case using sync_call by (auto simp: main_ok_def in_flight_def owed_register l c)
next
  case (start s xs k m p ys)
  let ?t = "s\<lparr>jsLaunched := xs @ ys, jsFwd := forward_register (Some k) m p (jsFwd s)\<rparr>"
  have c: "fwCalls (forward_register (Some k) m p (jsFwd s)) ! i = (if i < length (fwCalls (jsFwd s)) then fwCalls (jsFwd s) ! i
      else \<lparr>fcID = nextID (jsFwd s) + 1, fcMethod = m, fcParams = p, fcState = Registered, fcChan = [], fcCtx = Some k,
        fcTaken = False\<rparr>)" if "i < Suc (length (fwCalls (jsFwd s)))" for i
    using that by (auto simp: forward_register_def Let_def nth_append)
  have l: "length (fwCalls (forward_register (Some k) m p (jsFwd s))) = Suc (length (fwCalls (jsFwd s)))"
    by (simp add: forward_register_def Let_def)
  have f: "in_flight ?t = in_flight s" by (simp add: in_flight_def owed_register start(2))
  have "(case jsMain ?t of
      MExec cmd (Export n) \<Rightarrow> n = in_flight ?t
    | MExec cmd (InSync i n) \<Rightarrow> n = in_flight ?t \<and> i < length (fwCalls (jsFwd ?t)) \<and>
        fcCtx (fwCalls (jsFwd ?t) ! i) = None \<and> \<not> fcTaken (fwCalls (jsFwd ?t) ! i)
    | MExec cmd (Serving n) \<Rightarrow> n = in_flight ?t
    | _ \<Rightarrow> True)"
    using start(3) unfolding main_ok_def f
    by (auto simp: l c split: main_state.splits exec_phase.splits)
  then show ?case using start unfolding main_ok_def by (auto simp: l c)
next
  case (forward s f)
  then show ?case
    using forward_step_ids [OF forward(2)] forward_step_ctx [OF forward(2)]
    by (intro main_okI [OF forward(3)]) (auto simp: in_flight_def owed_forward)
next
  case (sync_return s cmd i n)
  then show ?case by (auto simp: main_ok_def in_flight_def owed_other)
next
  case (feed s cmd n i)
  then show ?case using owed_taken [of "jsFwd s" i "jsCtx s"] by (auto simp: main_ok_def in_flight_def)
next
  case (launch s cmd n batch)
  then show ?case by (auto simp: main_ok_def in_flight_def)
next
  case (eof s)
  then show ?case by (intro main_okI [OF eof(4)]) (simp_all add: in_flight_def)
next
  case (parse_error s e)
  then show ?case by (intro main_okI [OF parse_error(3)]) (simp_all add: in_flight_def)
qed (simp_all add: main_ok_def)

lemma main_ok_start: "main_ok (json_start input)"
  by (simp add: main_ok_def json_start_def newRPCForwarder_def)

lemma json_reach_main: "json_reach jsonErr (json_start input) s \<Longrightarrow> main_ok s"
  by (induction rule: json_reach.induct) (auto simp: main_ok_start dest: main_ok_step)

subsection \<open>Calls and their responses\<close>

text \<open>
  C9. In every interleaving, a call of a script that returns a value returns the result of a response
  the client sent with the identifier of that very call, identifiers being different for the first
  two to the 64 calls; and while a call has not returned, a response with its identifier is
  routed to it.
\<close>

theorem forward_matching:
  assumes "json_reach jsonErr (json_start input) s" and "length (fwCalls (jsFwd s)) < 2 ^ 64"
    and "i < length (fwCalls (jsFwd s))"
  shows "(case fcState (fwCalls (jsFwd s) ! i) of
      Returned (Inr v) \<Rightarrow> \<exists>resp \<in> set (jsSeen s). RespID resp = fcID (fwCalls (jsFwd s) ! i) \<and> response_result resp = Inr v
    | Returned (Inl e) \<Rightarrow> True
    | _ \<Rightarrow> RespID resp \<noteq> fcID (fwCalls (jsFwd s) ! i) \<or> deliver_lookup resp (jsFwd s) = Some i) \<and>
    (\<forall>j < i. fcID (fwCalls (jsFwd s) ! j) \<noteq> fcID (fwCalls (jsFwd s) ! i))"
proof (intro conjI allI impI)
  let ?c = "fwCalls (jsFwd s) ! i"
  have inv: "json_inv s" by (rule json_reach_inv [OF assms(1)])
  then have xs: "\<forall>j < length (fwCalls (jsFwd s)). fcID (fwCalls (jsFwd s) ! j) = of_nat (Suc j)"
    by (simp add: json_inv_def table_ok_def)
  then have x: "fcID ?c = of_nat (Suc i)" using assms(3) by blast
  have l: "\<not> call_returned ?c \<Longrightarrow> pending (jsFwd s) (fcID ?c) = Some i"
    using inv assms(2,3) unfolding json_inv_def listed_def by (auto simp: x)
  have o: "call_ok (jsSeen s) (held (jsReader s) i) ?c" using inv assms(3) by (simp add: json_inv_def)
  show "case fcState ?c of
      Returned (Inr v) \<Rightarrow> \<exists>resp \<in> set (jsSeen s). RespID resp = fcID ?c \<and> response_result resp = Inr v
    | Returned (Inl e) \<Rightarrow> True
    | _ \<Rightarrow> RespID resp \<noteq> fcID ?c \<or> deliver_lookup resp (jsFwd s) = Some i"
    using l o
    by (cases "fcState ?c") (auto simp: call_returned_def deliver_lookup_def call_ok_def answer_of_def split: sum.splits)
  fix j assume j: "j < i"
  then have "fcID (fwCalls (jsFwd s) ! j) = of_nat (Suc j)" using xs assms(3) less_trans by blast
  moreover have "(of_nat (Suc j) :: u64) \<noteq> of_nat (Suc i)"
    using j assms(2,3) of_nat_eq_word [of "Suc j" "Suc i"] by auto
  ultimately show "fcID (fwCalls (jsFwd s) ! j) \<noteq> fcID ?c" by (metis x)
qed

text \<open>A client that sends at most one response for each identifier never blocks the reader.\<close>

lemma count_distinct: "distinct (map RespID rs) \<Longrightarrow> count_id x rs \<le> 1"
proof (induction rs)
  case (Cons r rs)
  have "count_id x rs = 0" if "RespID r = x"
  proof -
    have "\<forall>y \<in> set rs. RespID y \<noteq> x" using Cons.prems that by (metis distinct.simps(2) image_eqI list.simps(9) set_map)
    then show ?thesis by (simp add: count_id_def filter_empty_conv)
  qed
  with Cons show ?case by (auto simp: count_id_def)
qed (simp add: count_id_def)

lemma deliver_never_blocks:
  assumes "json_inv s" and "distinct (map RespID (jsSeen s))" and "jsReader s = RDeliver c resp"
  shows "c < length (fwCalls (jsFwd s)) \<and> deliver_send c resp (jsFwd s) \<noteq> None"
proof -
  have c: "c < length (fwCalls (jsFwd s))" using assms(1,3) by (auto simp: json_inv_def)
  then have "call_ok (jsSeen s) 1 (fwCalls (jsFwd s) ! c)" using assms(1,3) by (auto simp: json_inv_def held_def)
  then have "length (fcChan (fwCalls (jsFwd s) ! c)) + 1 \<le> 1"
    using count_distinct [OF assms(2), of "fcID (fwCalls (jsFwd s) ! c)"] unfolding call_ok_def by linarith
  with c show ?thesis by (simp add: deliver_send_def)
qed

subsection \<open>Progress and the deadlock\<close>

definition awaits :: "json_sys \<Rightarrow> nat \<Rightarrow> bool" where
  "awaits s i = (i < length (fwCalls (jsFwd s)) \<and> fcState (fwCalls (jsFwd s) ! i) = Waiting \<and>
     fcChan (fwCalls (jsFwd s) ! i) = [])"

text \<open>The reader is not listening: it holds something for the main goroutine, or its input has ended.\<close>

definition reader_away :: "json_sys \<Rightarrow> bool" where
  "reader_away s = (case jsReader s of RScanning \<Rightarrow> False | RDeliver c resp \<Rightarrow> False | _ \<Rightarrow> True)"

text \<open>
  The command that is executed can go on with a response only: its synchronous call awaits one, or
  all its calls in flight do, none having an answer the service loop could take.
\<close>

definition needs_response :: "json_sys \<Rightarrow> bool" where
  "needs_response s = (case jsMain s of
      MExec cmd (InSync i n) \<Rightarrow> awaits s i
    | MExec cmd (Serving n) \<Rightarrow> n \<noteq> 0 \<and> (\<forall>x \<in> set (jsLaunched s). fst x \<noteq> jsCtx s) \<and>
        (\<forall>i \<in> set (owed_calls (jsCtx s) (jsFwd s)). awaits s i)
    | _ \<Rightarrow> False)"

text \<open>The calls scripts have made so far, and a measure of what is left to do without new ones.\<close>

definition calls_made :: "json_sys \<Rightarrow> nat" where
  "calls_made s = length (jsLaunched s) + length (fwCalls (jsFwd s))"

definition call_weight :: "fwd_call \<Rightarrow> nat" where
  "call_weight c = (case fcState c of Registered \<Rightarrow> 5 | Waiting \<Rightarrow> 4 | Returning r \<Rightarrow> 3
     | Returned r \<Rightarrow> if fcTaken c then 0 else 2)"

definition reader_weight :: "reader \<Rightarrow> nat" where
  "reader_weight r = (case r of RScanning \<Rightarrow> 1 | RError e \<Rightarrow> 2 | RCommand cmd \<Rightarrow> 7 | RDeliver c resp \<Rightarrow> 2 | REnd \<Rightarrow> 0)"

definition main_weight :: "main_state \<Rightarrow> nat" where
  "main_weight m = (case m of MSelect \<Rightarrow> 1 | MExec cmd (Export n) \<Rightarrow> 5 | MExec cmd (InSync i n) \<Rightarrow> 4
     | MExec cmd (Serving n) \<Rightarrow> 4 | MExec cmd (Ending r) \<Rightarrow> 2 | _ \<Rightarrow> 0)"

definition json_measure :: "json_sys \<Rightarrow> nat" where
  "json_measure s = 7 * length (jsInput s) + reader_weight (jsReader s) + main_weight (jsMain s)
     + 6 * length (jsLaunched s) + sum_list (map call_weight (fwCalls (jsFwd s)))"

lemma weight_update: "i < length cs \<Longrightarrow>
    sum_list (map call_weight (cs[i := c])) + call_weight (cs ! i) = sum_list (map call_weight cs) + call_weight c"
  by (induction cs arbitrary: i) (auto simp: nth_Cons split: nat.split)

lemma set_call_weight: "i < length (fwCalls f) \<Longrightarrow>
    sum_list (map call_weight (fwCalls (set_call i u f))) + call_weight (fwCalls f ! i)
    = sum_list (map call_weight (fwCalls f)) + call_weight (u (fwCalls f ! i))"
  by (simp add: set_call_def weight_update)

lemma forward_step_weight:
  assumes "forward_step cc f g"
  shows "sum_list (map call_weight (fwCalls g)) < sum_list (map call_weight (fwCalls f))"
proof -
  have u: "sum_list (map call_weight (fwCalls (set_call i u f))) < sum_list (map call_weight (fwCalls f))"
    if "i < length (fwCalls f)" "call_weight (u (fwCalls f ! i)) < call_weight (fwCalls f ! i)" for i u and f :: rpcForwarder
    using set_call_weight [OF that(1), of u] that(2) by linarith
  show ?thesis
    using assms
  proof cases
    case (send_line i err)
    then show ?thesis
      by (cases err) (auto simp: forward_write_def Let_def call_weight_def intro!: u
          u [of i "f\<lparr>fwWriter := w\<rparr>" for w, simplified])
  next
    case (receive i)
    then show ?thesis
      by (auto simp: forward_receive_def call_weight_def intro!: u split: list.split)
  next
    case (cancel i e)
    then show ?thesis by (auto simp: forward_cancel_def call_weight_def intro!: u)
  next
    case (unregister i r)
    then show ?thesis
      using u [of i "f\<lparr>pending := q\<rparr>" for q]
      by (auto simp: forward_unregister_def call_weight_def)
  qed
qed

lemma take_weight: "i < length (fwCalls f) \<Longrightarrow> call_returned (fwCalls f ! i) \<Longrightarrow> \<not> fcTaken (fwCalls f ! i) \<Longrightarrow>
    sum_list (map call_weight (fwCalls (take_result i f))) + 2 = sum_list (map call_weight (fwCalls f))"
  using set_call_weight [of i f "\<lambda>c. c\<lparr>fcTaken := True\<rparr>"]
  by (auto simp: take_result_def call_returned_def call_weight_def split: call_state.splits)

lemma deliver_weight: "c < length (fwCalls f) \<Longrightarrow> deliver_send c resp f = Some g \<Longrightarrow>
    sum_list (map call_weight (fwCalls g)) = sum_list (map call_weight (fwCalls f))"
  using set_call_weight [of c f "\<lambda>c. c\<lparr>fcChan := [resp]\<rparr>"]
  by (auto simp: deliver_send_def call_weight_def split: if_splits)

text \<open>Every step that is not a new call of a script lowers the measure.\<close>

lemma json_step_lowers:
  "json_step jsonErr s t \<Longrightarrow> json_inv s \<Longrightarrow> main_ok s \<Longrightarrow> calls_made t = calls_made s \<Longrightarrow>
    json_measure t < json_measure s"
proof (induction rule: json_step.induct)
  case (read s l ls)
  then show ?case
    by (auto simp: readLine_def json_measure_def reader_weight_def split: routed.split option.split)
next
  case (deliver s c resp f)
  then have "c < length (fwCalls (jsFwd s))" by (auto simp: json_inv_def)
  with deliver show ?case by (simp add: json_measure_def reader_weight_def deliver_weight)
next
  case (sync_return s cmd i n)
  then have "i < length (fwCalls (jsFwd s))" "\<not> fcTaken (fwCalls (jsFwd s) ! i)" by (simp_all add: main_ok_def)
  from take_weight [OF this(1) sync_return(2) this(2)] sync_return(1) show ?case
    by (simp add: json_measure_def main_weight_def)
next
  case (feed s cmd n i)
  from take_weight [OF feed(2,4,5)] feed(1) show ?case by (simp add: json_measure_def main_weight_def)
next
  case (forward s f)
  from forward_step_weight [OF forward(2)] show ?case by (simp add: json_measure_def)
next
  case (sync_call s cmd n m p)
  then show ?case by (simp add: calls_made_def forward_register_def Let_def)
next
  case (start s xs k m p ys)
  then show ?case by (simp add: json_measure_def forward_register_def Let_def call_weight_def)
qed (simp_all add: json_measure_def main_weight_def reader_weight_def calls_made_def print_text_def)

lemma call_moves:
  assumes "i < length (fwCalls f)" and "\<not> call_returned (fwCalls f ! i)"
    and "fcState (fwCalls f ! i) = Waiting \<Longrightarrow> fcChan (fwCalls f ! i) \<noteq> []"
  shows "\<exists>g. forward_step cc f g"
proof (cases "fcState (fwCalls f ! i)")
  case Registered
  show ?thesis by (rule exI, rule forward_step.send_line [OF assms(1) Registered])
next
  case Waiting
  show ?thesis by (rule exI, rule forward_step.receive [OF assms(1) Waiting assms(3) [OF Waiting]])
next
  case (Returning r)
  show ?thesis by (rule exI, rule forward_step.unregister [OF assms(1) Returning])
qed (use assms(2) in \<open>simp add: call_returned_def\<close>)

lemma forward_moves:
  assumes "forward_step (ctx_done s) (jsFwd s) f" and "alive s"
  shows "\<exists>t. json_step jsonErr s t \<and> calls_made t = calls_made s"
  by (rule exI, rule conjI, rule json_step.forward [OF assms(2,1)])
    (use forward_step_ids [OF assms(1)] in \<open>simp add: calls_made_def\<close>)

text \<open>A command that does not need a response can go on by itself.\<close>

lemma exec_moves:
  assumes m: "jsMain s = MExec cmd p" and ok: "main_ok s" and n: "\<not> needs_response s"
  shows "\<exists>t. json_step jsonErr s t \<and> calls_made t = calls_made s"
proof -
  have a: "alive s" by (simp add: alive_def m)
  have same: "\<exists>t. json_step jsonErr s t \<and> calls_made t = calls_made s"
    if "json_step jsonErr s t" "calls_made t = calls_made s" for t
    using that by blast
  show ?thesis
  proof (cases p)
    case (Export n)
    show ?thesis
    proof (cases "runs_script cmd")
      case True
      show ?thesis
        by (rule same [OF json_step.launch [OF m [unfolded Export] True, of _ "[]"]]) (simp add: calls_made_def)
    next
      case False
      show ?thesis
        by (rule same [OF json_step.reset_done [OF m [unfolded Export] False, of _ None]]) (simp add: calls_made_def)
    qed
  next
    case (InSync i n)
    then have i: "i < length (fwCalls (jsFwd s))" using ok m by (simp add: main_ok_def)
    show ?thesis
    proof (cases "call_returned (fwCalls (jsFwd s) ! i)")
      case True
      show ?thesis
        by (rule same [OF json_step.sync_return [OF m [unfolded InSync] True]]) (simp add: calls_made_def)
    next
      case False
      have "\<exists>f. forward_step (ctx_done s) (jsFwd s) f"
        by (rule call_moves [OF i False]) (use n m InSync i in \<open>simp add: needs_response_def awaits_def\<close>)
      then show ?thesis using forward_moves a by blast
    qed
  next
    case (Serving k)
    show ?thesis
    proof (cases k)
      case 0
      show ?thesis
        by (rule same [OF json_step.drained [OF m [unfolded Serving 0]]]) (simp add: calls_made_def)
    next
      case (Suc l)
      show ?thesis
      proof (cases "\<exists>x \<in> set (jsLaunched s). fst x = jsCtx s")
        case True
        then obtain xs u v w ys where x: "jsLaunched s = xs @ (u, v, w) # ys" by (metis prod_cases3 split_list)
        show ?thesis
          by (rule same [OF json_step.start [OF a x]]) (simp add: calls_made_def x forward_register_def Let_def)
      next
        case False
        with n m Serving Suc obtain i where i: "i \<in> set (owed_calls (jsCtx s) (jsFwd s))" "\<not> awaits s i"
          by (auto simp: needs_response_def)
        then have o: "i < length (fwCalls (jsFwd s))" "fcCtx (fwCalls (jsFwd s) ! i) = Some (jsCtx s)"
          "\<not> fcTaken (fwCalls (jsFwd s) ! i)" by (simp_all add: owed_set)
        show ?thesis
        proof (cases "call_returned (fwCalls (jsFwd s) ! i)")
          case True
          show ?thesis
            by (rule same [OF json_step.feed [OF m [unfolded Serving Suc] o(1,2) True o(3)]]) (simp add: calls_made_def)
        next
          case False
          have "\<exists>f. forward_step (ctx_done s) (jsFwd s) f"
            by (rule call_moves [OF o(1) False]) (use i(2) o(1) in \<open>simp add: awaits_def\<close>)
          then show ?thesis using forward_moves a by blast
        qed
      qed
    qed
  next
    case (Ending r)
    show ?thesis
      by (rule same [OF json_step.answered [OF m [unfolded Ending]]]) (simp add: calls_made_def print_text_def)
  qed
qed

text \<open>
  C11. With a client that answers each call at most once, the JSON mode, until it has returned or
  panicked, can always take a step that is not a new call of the running script, unless that script
  can go on with a response only and the reader is away: at the end of the input, or holding the
  next command or a parse error that only the main goroutine takes. Every such step lowers a
  measure, so between new calls there are finitely many. (A script that runs is taken to end.)
\<close>

theorem json_progress:
  assumes "json_reach jsonErr (json_start input) s" and "distinct (map RespID (jsSeen s))"
    and "jsMain s \<noteq> MReturned" and "alive s" and "\<not> (needs_response s \<and> reader_away s)"
  shows "(\<exists>t. json_step jsonErr s t \<and> calls_made t = calls_made s) \<and>
    (\<forall>t. json_step jsonErr s t \<longrightarrow> calls_made t = calls_made s \<longrightarrow> json_measure t < json_measure s)"
proof
  have inv: "json_inv s" and ok: "main_ok s" by (rule json_reach_inv [OF assms(1)], rule json_reach_main [OF assms(1)])
  then show "\<forall>t. json_step jsonErr s t \<longrightarrow> calls_made t = calls_made s \<longrightarrow> json_measure t < json_measure s"
    using json_step_lowers by blast
  have same: "\<exists>t. json_step jsonErr s t \<and> calls_made t = calls_made s"
    if "json_step jsonErr s t" "calls_made t = calls_made s" for t
    using that by blast
  have held: "\<exists>t. json_step jsonErr s t \<and> calls_made t = calls_made s"
    if "reader_away s" "jsMain s = MSelect \<Longrightarrow> \<exists>t. json_step jsonErr s t \<and> calls_made t = calls_made s"
    using that assms(3-5) exec_moves [OF _ ok] by (cases "jsMain s") (auto simp: alive_def)
  show "\<exists>t. json_step jsonErr s t \<and> calls_made t = calls_made s"
  proof (cases "jsReader s")
    case RScanning
    show ?thesis
    proof (cases "jsInput s")
      case Nil
      show ?thesis by (rule same [OF json_step.eof [OF assms(4) RScanning Nil]]) (simp add: calls_made_def)
    next
      case (Cons l ls)
      show ?thesis
        by (rule same [OF json_step.read [OF assms(4) RScanning Cons]]) (simp add: calls_made_def readLine_keeps)
    qed
  next
    case (RDeliver c resp)
    obtain f where f: "deliver_send c resp (jsFwd s) = Some f"
      using deliver_never_blocks [OF inv assms(2) RDeliver] by blast
    show ?thesis
      by (rule same [OF json_step.deliver [OF assms(4) RDeliver f]])
        (use f in \<open>auto simp: calls_made_def deliver_send_def split: if_splits\<close>)
  next
    case (RError e)
    show ?thesis
      by (rule held, simp add: reader_away_def RError, rule same [OF json_step.parse_error [OF _ RError]])
        (simp_all add: calls_made_def)
  next
    case (RCommand cmd)
    show ?thesis
    proof (rule held, simp add: reader_away_def RCommand)
      assume m: "jsMain s = MSelect"
      show ?thesis
      proof (cases "runs_script cmd \<longrightarrow> jsInst s")
        case True
        show ?thesis by (rule same [OF json_step.execute [OF m RCommand True]]) (simp add: calls_made_def)
      next
        case False
        then show ?thesis by (intro same [OF json_step.panic [OF m RCommand]]) (simp_all add: calls_made_def)
      qed
    qed
  next
    case REnd
    show ?thesis
      by (rule held, simp add: reader_away_def REnd, rule same [OF json_step.closed [OF _ REnd]])
        (simp_all add: calls_made_def)
  qed
qed

text \<open>In the exception nothing that can happen changes what the two goroutines wait for.\<close>

lemma awaits_forward:
  assumes "forward_step cc (jsFwd s) f" and "awaits s i" and "\<not> cc (fcCtx (fwCalls (jsFwd s) ! i))"
  shows "awaits (s\<lparr>jsFwd := f\<rparr>) i"
  by (rule forward_step_call [OF assms(1)]) (use assms(2,3) in \<open>auto simp: awaits_def nth_list_update\<close>)

lemma awaits_register: "awaits s i \<Longrightarrow> awaits (s\<lparr>jsLaunched := ls, jsFwd := forward_register x m p (jsFwd s)\<rparr>) i"
  by (auto simp: awaits_def forward_register_def Let_def nth_append)

lemma stuck_step:
  assumes "json_step jsonErr s t" and "main_ok s" and "needs_response s" and "reader_away s"
  shows "jsMain t = jsMain s \<and> jsReader t = jsReader s \<and> needs_response t"
proof -
  obtain cmd p where m: "jsMain s = MExec cmd p" and p: "(\<exists>i n. p = InSync i n) \<or> (\<exists>n. p = Serving (Suc n))"
    using assms(3) by (auto simp: needs_response_def gr0_conv_Suc split: main_state.splits exec_phase.splits)
  have live: "live_ctx s = Some (jsCtx s)" using m p by (auto simp: live_ctx_def)
  show ?thesis
    using assms(1)
  proof cases
    case (start xs k me pa ys)
    have "needs_response t"
      using assms(3) p m start(3) owed_register [of "jsCtx s" "Some k" me pa "jsFwd s"] awaits_register [of s]
      by (auto simp: needs_response_def start(1))
    with start show ?thesis by simp
  next
    case (forward f)
    have "awaits t i" if "awaits s i" "fcCtx (fwCalls (jsFwd s) ! i) \<in> {None, Some (jsCtx s)}" for i
      unfolding forward(1)
      by (rule awaits_forward [OF forward(3) that(1)]) (use that(2) live in \<open>auto simp: ctx_done_def\<close>)
    then have "needs_response t"
      using assms(2,3) p m owed_forward [OF forward(3), of "jsCtx s"]
      by (auto simp: needs_response_def main_ok_def owed_set forward(1))
    with forward show ?thesis by simp
  next
    case (feed cmd' n i)
    then show ?thesis using assms(3) by (auto simp: needs_response_def owed_set awaits_def call_returned_def)
  next
    case (sync_return cmd' i n)
    then show ?thesis using assms(3) by (auto simp: needs_response_def awaits_def call_returned_def)
  qed (use assms(3,4) m p in \<open>auto simp: reader_away_def needs_response_def\<close>)
qed

text \<open>
  C12. The exception is a deadlock, for ever: when the script can go on with a response only (its
  synchronous call, or every call it has in flight, awaits one) and the reader holds the next
  command, which the main goroutine takes only after the script, or a parse error, or has reached the
  end of the input, then the command is never answered and no further line is read.
\<close>

theorem pipelining_deadlock:
  assumes "json_reach jsonErr (json_start input) s" and "needs_response s" and "reader_away s"
    and "json_reach jsonErr s t"
  shows "jsMain t = jsMain s \<and> jsReader t = jsReader s \<and> needs_response t"
proof -
  have "main_ok t \<and> jsMain t = jsMain s \<and> jsReader t = jsReader s \<and> needs_response t"
    using assms(4)
  proof (induction rule: json_reach.induct)
    case refl
    with assms json_reach_main show ?case by blast
  next
    case (step t u)
    moreover have "reader_away t" using step.IH assms(3) by (simp add: reader_away_def)
    ultimately show ?case using stuck_step [of jsonErr t u] main_ok_step [of jsonErr t u] by simp
  qed
  then show ?thesis by blast
qed

subsection \<open>A run\<close>

text \<open>A script that makes one call, with whatever the client sends after the script.\<close>

definition sample_cmd :: command where
  "sample_cmd = \<lparr>cmdType = ''eval'', Source = ''a'', CmdName = [], CmdParams = None\<rparr>"

definition sample_fwd :: rpcForwarder where
  "sample_fwd = forward_write None 0 (forward_register (Some 1) ''m'' (Some ''null'') newRPCForwarder)"

definition sample_waiting :: "string list \<Rightarrow> json_sys" where
  "sample_waiting ls = \<lparr>jsInput = ls, jsReader = RScanning, jsMain = MExec sample_cmd (Serving 1), jsCtx = 1,
     jsLaunched = [], jsInst = True, jsFwd = sample_fwd, jsSeen = []\<rparr>"

lemma sample_fwd_calls: "fwCalls sample_fwd = [\<lparr>fcID = 1, fcMethod = ''m'', fcParams = Some ''null'', fcState = Waiting, fcChan = [], fcCtx = Some 1,
    fcTaken = False\<rparr>]"
  "pending sample_fwd = [1 \<mapsto> 0]"
  by (simp_all add: sample_fwd_def forward_write_def forward_register_def newRPCForwarder_def set_call_def Let_def)

lemma ascii_valid: "\<forall>c \<in> set s. of_char c < (128::nat) \<Longrightarrow> to_valid_utf8 s = s"
  by (intro to_valid_utf8_id valid_utf8_ascii)

lemma sample_routes:
  "routeLine jsonErr (client_line (ClEval ''a'')) = RouteCommand sample_cmd"
  "routeLine jsonErr (client_line (ClResult 1 ''true'')) = RouteResponse \<lparr>RespID = 1, RespResult = Some ''true'', RespError = []\<rparr>"
  using client_understood_aux [of "ClEval ''a''" jsonErr] client_understood_aux [of "ClResult 1 ''true''" jsonErr] reads(3)
  by (auto simp: sample_cmd_def simple_command_def ascii_valid)

lemma esc_ascii_plain:
  assumes "32 \<le> (of_char c :: nat)" and "c \<noteq> dquote" and "c \<noteq> bslash" and "c \<notin> set ''<>&''"
  shows "esc_ascii c = [c]"
proof -
  have "c \<noteq> CHR 0x08" "c \<noteq> CHR 0x0C" "c \<noteq> CHR 0x0A" "c \<noteq> CHR 0x0D" "c \<noteq> CHR 0x09"
    using assms(1) by auto
  then show ?thesis
    using assms(1-3) assms(4) unfolding esc_ascii_def by (simp only: if_False not_less [symmetric] de_Morgan_disj simp_thms)
qed

lemma json_quote_plain:
  "\<forall>c \<in> set s. 32 \<le> (of_char c :: nat) \<and> of_char c < (127::nat) \<and> c \<noteq> dquote \<and> c \<noteq> bslash \<and> c \<notin> set ''<>&'' \<Longrightarrow>
    json_quote s = dquote # s @ [dquote]"
proof -
  assume a: "\<forall>c \<in> set s. 32 \<le> (of_char c :: nat) \<and> of_char c < (127::nat) \<and> c \<noteq> dquote \<and> c \<noteq> bslash \<and> c \<notin> set ''<>&''"
  then have "json_esc s = s"
  proof (induction s)
    case (Cons c s)
    then have "of_char c < (128::nat)" by simp
    moreover have "esc_ascii c = [c]" using Cons.prems by (intro esc_ascii_plain) simp_all
    ultimately show ?case using Cons by (subst json_esc.simps(2)) simp
  qed simp
  then show ?thesis by (simp add: json_quote_def)
qed

lemma sample_short:
  "length (client_line (ClEval ''a'')) < maxLine" "length (client_line (ClResult 1 ''true'')) < maxLine"
  by (simp_all add: maxLine_def json_object_def json_quote_plain dquote_def bslash_def show_nat_small)

lemma sample_run: "json_reach jsonErr (json_start (client_line (ClEval ''a'') # ls)) (sample_waiting ls)"
proof -
  let ?s = "\<lambda>r m k l f. \<lparr>jsInput = ls, jsReader = r, jsMain = m, jsCtx = k, jsLaunched = l, jsInst = True, jsFwd = f, jsSeen = []\<rparr>"
  let ?f = "forward_register (Some 1) ''m'' (Some ''null'') newRPCForwarder"
  note [simp] = not_le [THEN iffD2, OF sample_short(1)] sample_routes alive_def
  have 1: "json_step jsonErr (json_start (client_line (ClEval ''a'') # ls)) (?s (RCommand sample_cmd) MSelect 0 [] newRPCForwarder)"
    using json_step.read [of "json_start (client_line (ClEval ''a'') # ls)" "client_line (ClEval ''a'')" ls jsonErr]
    by (simp add: json_start_def readLine_def del: client_line.simps)
  have 2: "json_step jsonErr (?s (RCommand sample_cmd) MSelect 0 [] newRPCForwarder)
      (?s RScanning (MExec sample_cmd (Export 0)) 1 [] newRPCForwarder)"
    using json_step.execute [of "?s (RCommand sample_cmd) MSelect 0 [] newRPCForwarder" sample_cmd jsonErr] by simp
  have 3: "json_step jsonErr (?s RScanning (MExec sample_cmd (Export 0)) 1 [] newRPCForwarder)
      (?s RScanning (MExec sample_cmd (Serving 1)) 1 [(1, ''m'', Some ''null'')] newRPCForwarder)"
    using json_step.launch [of "?s RScanning (MExec sample_cmd (Export 0)) 1 [] newRPCForwarder" sample_cmd 0 jsonErr
      "[(''m'', Some ''null'')]"]
    by (simp add: runs_script_def sample_cmd_def)
  have 4: "json_step jsonErr (?s RScanning (MExec sample_cmd (Serving 1)) 1 [(1, ''m'', Some ''null'')] newRPCForwarder)
      (?s RScanning (MExec sample_cmd (Serving 1)) 1 [] ?f)"
    using json_step.start [of "?s RScanning (MExec sample_cmd (Serving 1)) 1 [(1, ''m'', Some ''null'')] newRPCForwarder"
      "[]" 1 "''m''" "Some ''null''" "[]" jsonErr] by simp
  have "forward_step cc ?f sample_fwd" for cc
    unfolding sample_fwd_def by (rule forward_step.send_line) (simp_all add: forward_register_def newRPCForwarder_def Let_def)
  then have 5: "json_step jsonErr (?s RScanning (MExec sample_cmd (Serving 1)) 1 [] ?f) (sample_waiting ls)"
    using json_step.forward [of "?s RScanning (MExec sample_cmd (Serving 1)) 1 [] ?f" sample_fwd jsonErr]
    by (simp add: sample_waiting_def)
  show ?thesis
    by (rule json_reach.step [OF json_reach.step [OF json_reach.step [OF json_reach.step [OF json_reach.step
      [OF json_reach.refl 1] 2] 3] 4] 5])
qed

lemma reach_trans: "json_reach jsonErr t u \<Longrightarrow> json_reach jsonErr s t \<Longrightarrow> json_reach jsonErr s u"
  by (induction rule: json_reach.induct) (auto intro: json_reach.step)

lemma sample_second: "json_reach jsonErr (json_start [client_line (ClEval ''a''), client_line (ClEval ''a'')])
    (sample_waiting []\<lparr>jsReader := RCommand sample_cmd\<rparr>)"
proof -
  let ?l = "client_line (ClEval ''a'')"
  have "json_step jsonErr (sample_waiting [?l]) (sample_waiting []\<lparr>jsReader := RCommand sample_cmd\<rparr>)"
    using json_step.read [of "sample_waiting [?l]" ?l "[]" jsonErr] sample_short(1) sample_routes(1) [of jsonErr]
    by (simp add: sample_waiting_def readLine_def not_le alive_def del: client_line.simps)
  then show ?thesis by (rule json_reach.step [OF sample_run])
qed

text \<open>The script waits, the next command has been read: the response that follows never arrives.\<close>

theorem pipelining_deadlock_witness:
  "\<exists>s. json_reach (\<lambda>s. []) (json_start [client_line (ClEval ''a''), client_line (ClEval ''a'')]) s \<and>
     jsMain s = MExec sample_cmd (Serving 1) \<and> awaits s 0 \<and> (\<nexists>t. json_reach (\<lambda>s. []) s t \<and> jsMain t = MReturned)"
proof -
  let ?s = "sample_waiting []\<lparr>jsReader := RCommand sample_cmd\<rparr>"
  have s: "jsMain ?s = MExec sample_cmd (Serving 1)" "awaits ?s 0" "reader_away ?s"
    by (simp_all add: sample_waiting_def awaits_def sample_fwd_calls reader_away_def)
  moreover have "needs_response ?s"
    using s(2) by (auto simp: needs_response_def owed_set sample_waiting_def sample_fwd_calls)
  ultimately show ?thesis
    using sample_second pipelining_deadlock [OF sample_second [of "\<lambda>s. []"], of _]
    by (intro exI [of _ ?s]) fastforce
qed

text \<open>While the reader still scans, the mode is not stuck, whatever the script waits for.\<close>

theorem json_progress_witness:
  "\<exists>t. json_step (\<lambda>s. []) (sample_waiting []) t \<and> calls_made t = 1 \<and>
     json_measure t < json_measure (sample_waiting [])"
proof -
  have "calls_made (sample_waiting []) = 1" by (simp add: calls_made_def sample_waiting_def sample_fwd_calls)
  moreover have "distinct (map RespID (jsSeen (sample_waiting [])))" "jsMain (sample_waiting []) \<noteq> MReturned"
    "alive (sample_waiting [])" "\<not> (needs_response (sample_waiting []) \<and> reader_away (sample_waiting []))"
    by (simp_all add: sample_waiting_def alive_def reader_away_def)
  ultimately show ?thesis
    using json_progress [OF sample_run [of "\<lambda>s. []" "[]"]] by auto
qed

lemma sample_answered:
  "json_reach jsonErr (json_start [client_line (ClEval ''a''), client_line (ClResult 1 ''true'')])
     (sample_waiting []\<lparr>jsFwd := forward_unregister 0 (forward_receive 0
        (set_call 0 (\<lambda>c. c\<lparr>fcChan := [\<lparr>RespID = 1, RespResult = Some ''true'', RespError = []\<rparr>]\<rparr>) sample_fwd)),
        jsSeen := [\<lparr>RespID = 1, RespResult = Some ''true'', RespError = []\<rparr>]\<rparr>)"
proof -
  let ?l = "client_line (ClResult 1 ''true'')"
  let ?r = "\<lparr>RespID = 1, RespResult = Some ''true'', RespError = []\<rparr> :: rpcResponseMsg"
  let ?s = "\<lambda>r f. \<lparr>jsInput = [], jsReader = r, jsMain = MExec sample_cmd (Serving 1), jsCtx = 1,
      jsLaunched = [], jsInst = True, jsFwd = f, jsSeen = [?r]\<rparr>"
  let ?f = "set_call 0 (\<lambda>c. c\<lparr>fcChan := [?r]\<rparr>) sample_fwd"
  have 1: "json_step jsonErr (sample_waiting [?l]) (?s (RDeliver 0 ?r) sample_fwd)"
    using json_step.read [of "sample_waiting [?l]" ?l "[]" jsonErr] sample_short(2) sample_routes(2) [of jsonErr]
    by (simp add: sample_waiting_def readLine_def not_le alive_def deliver_lookup_def sample_fwd_calls del: client_line.simps)
  have 2: "json_step jsonErr (?s (RDeliver 0 ?r) sample_fwd) (?s RScanning ?f)"
    using json_step.deliver [of "?s (RDeliver 0 ?r) sample_fwd" 0 ?r ?f jsonErr]
    by (simp add: deliver_send_def alive_def sample_fwd_calls)
  have "forward_step cc ?f (forward_receive 0 ?f)" for cc
    by (rule forward_step.receive) (simp_all add: set_call_def sample_fwd_calls)
  then have 3: "json_step jsonErr (?s RScanning ?f) (?s RScanning (forward_receive 0 ?f))"
    using json_step.forward [of "?s RScanning ?f" "forward_receive 0 ?f" jsonErr] by (simp add: alive_def)
  have "forward_step cc (forward_receive 0 ?f) (forward_unregister 0 (forward_receive 0 ?f))" for cc
    by (rule forward_step.unregister) (simp_all add: forward_receive_def set_call_def sample_fwd_calls)
  then have 4: "json_step jsonErr (?s RScanning (forward_receive 0 ?f)) (?s RScanning (forward_unregister 0 (forward_receive 0 ?f)))"
    using json_step.forward [of "?s RScanning (forward_receive 0 ?f)" _ jsonErr] by (simp add: alive_def)
  have e: "?s RScanning g = sample_waiting []\<lparr>jsFwd := g, jsSeen := [?r]\<rparr>" for g by (simp add: sample_waiting_def)
  show ?thesis
    using json_reach.step [OF json_reach.step [OF json_reach.step [OF json_reach.step [OF sample_run 1] 2] 3] 4]
    by (simp only: e)
qed

theorem forward_matching_witness:
  "\<exists>s. json_reach (\<lambda>s. []) (json_start [client_line (ClEval ''a''), client_line (ClResult 1 ''true'')]) s \<and>
     fcState (fwCalls (jsFwd s) ! 0) = Returned (Inr (Some ''true'')) \<and>
     (\<exists>resp \<in> set (jsSeen s). RespID resp = 1 \<and> response_result resp = Inr (Some ''true''))"
proof -
  let ?r = "\<lparr>RespID = 1, RespResult = Some ''true'', RespError = []\<rparr> :: rpcResponseMsg"
  let ?f = "forward_unregister 0 (forward_receive 0 (set_call 0 (\<lambda>c. c\<lparr>fcChan := [?r]\<rparr>) sample_fwd))"
  have f: "fwCalls ?f = [\<lparr>fcID = 1, fcMethod = ''m'', fcParams = Some ''null'',
      fcState = Returned (Inr (Some ''true'')), fcChan = [], fcCtx = Some 1, fcTaken = False\<rparr>]"
    by (simp add: forward_unregister_def forward_receive_def set_call_def sample_fwd_calls response_result_def)
  show ?thesis
    using forward_matching [OF sample_answered [of "\<lambda>s. []"], of 0 ?r] sample_answered [of "\<lambda>s. []"]
    by (intro exI [of _ "sample_waiting []\<lparr>jsFwd := ?f, jsSeen := [?r]\<rparr>"]) (simp add: f)
qed

end
