(* ===== verification/Cli_Interactive.thy ===== *)
theory Cli_Interactive
  imports Cli_Json Go_Text
begin

text \<open>
  \<open>kafig-cli/interactive.go\<close>: the prompt's input (when a text is complete, which command it is, the
  lines collected into one source) and the printing of results. The prompt and the styling are
  packages outside the repository: what they compute is a parameter.
\<close>

subsection \<open>Text functions of the Go standard library\<close>

text \<open>The encodings of the runes \<open>unicode.IsSpace\<close> accepts.\<close>

definition space_texts :: "string list" where
  "space_texts =
     map (\<lambda>c. [c]) [CHR 0x20, CHR 0x09, CHR 0x0A, CHR 0x0B, CHR 0x0C, CHR 0x0D] @
     [[CHR 0xC2, CHR 0x85], [CHR 0xC2, CHR 0xA0], [CHR 0xE1, CHR 0x9A, CHR 0x80]] @
     map (\<lambda>n. [CHR 0xE2, CHR 0x80, char_of n]) ([128..<139] @ [168, 169, 175 :: nat]) @
     [[CHR 0xE2, CHR 0x81, CHR 0x9F], [CHR 0xE3, CHR 0x80, CHR 0x80]]"

definition starts_with :: "string \<Rightarrow> string \<Rightarrow> bool" where
  "starts_with s t = (take (length t) s = t)"

function trim_with :: "string list \<Rightarrow> string \<Rightarrow> string" where
  "trim_with ts s = (case find (\<lambda>t. t \<noteq> [] \<and> starts_with s t) ts of
     None \<Rightarrow> s | Some t \<Rightarrow> trim_with ts (drop (length t) s))"
  by pat_completeness auto
termination
proof (relation "measure (\<lambda>(ts, s). length s)")
  fix ts s t assume "find (\<lambda>t. t \<noteq> [] \<and> starts_with s t) ts = Some t"
  then have "t \<noteq> []" "take (length t) s = t" by (auto simp: find_Some_iff starts_with_def)
  then have "0 < length t" "s \<noteq> []" by auto
  then show "((ts, drop (length t) s), ts, s) \<in> measure (\<lambda>(ts, s). length s)" by simp
qed simp

declare trim_with.simps [simp del]

definition trimSpace :: "string \<Rightarrow> string" where
  "trimSpace s = rev (trim_with (map rev space_texts) (rev (trim_with space_texts s)))"

text \<open>\<open>strings.SplitN(s, " ", n)\<close> for a positive \<open>n\<close>.\<close>

fun splitN :: "nat \<Rightarrow> string \<Rightarrow> string list" where
  "splitN (Suc (Suc n)) s =
     (if CHR '' '' \<in> set s
      then takeWhile (\<lambda>c. c \<noteq> CHR '' '') s # splitN (Suc n) (tl (dropWhile (\<lambda>c. c \<noteq> CHR '' '') s))
      else [s])"
| "splitN n s = [s]"

definition json_valid :: "string \<Rightarrow> bool" where
  "json_valid s = (parse_json s \<noteq> None)"

subsection \<open>Complete inputs\<close>

text \<open>The loop of \<open>isComplete\<close>, over the depth, the quote of an open string and the escape flag.\<close>

fun complete_loop :: "int \<Rightarrow> char option \<Rightarrow> bool \<Rightarrow> string \<Rightarrow> bool" where
  "complete_loop depth str escaped [] = (depth \<le> 0 \<and> str = None)"
| "complete_loop depth str escaped (c # cs) =
     (if escaped then complete_loop depth str False cs
      else if c = bslash \<and> str \<noteq> None then complete_loop depth str True cs
      else case str of
        Some q \<Rightarrow> complete_loop depth (if c = q then None else Some q) False cs
      | None \<Rightarrow>
        if c \<in> {dquote, CHR 0x27, CHR 0x60} then complete_loop depth (Some c) False cs
        else if c \<in> set ''{(['' then complete_loop (depth + 1) None False cs
        else if c \<in> set ''})]'' then complete_loop (depth - 1) None False cs
        else complete_loop depth None False cs)"

definition isComplete :: "string \<Rightarrow> bool" where
  "isComplete input = complete_loop 0 None False input"

subsection \<open>Commands\<close>

definition parseInteractive :: "string \<Rightarrow> command option" where
  "parseInteractive inp =
     (let input = trimSpace inp in
      if input = [] then None
      else if \<not> starts_with input ''.'' then Some ((simple_command ''eval'')\<lparr>Source := input\<rparr>)
      else
        (let parts = splitN 3 input in
         if parts ! 0 = ''.help'' then Some (simple_command ''help'')
         else if parts ! 0 = ''.dispatch'' then
           (if length parts < 2 then None
            else if length parts = 3 \<and> \<not> json_valid (trimSpace (parts ! 2)) then None
            else Some ((simple_command ''dispatch'')\<lparr>CmdName := parts ! 1,
              CmdParams := Some (if length parts = 3 then trimSpace (parts ! 2) else ''null'')\<rparr>))
         else if parts ! 0 = ''.reset'' then Some (simple_command ''reset'')
         else if parts ! 0 = ''.clear'' then Some (simple_command ''clear'')
         else if parts ! 0 = ''.exit'' then Some (simple_command ''exit'')
         else None))"

subsection \<open>Statistics\<close>

fun group_digits :: "nat \<Rightarrow> nat \<Rightarrow> string \<Rightarrow> string" where
  "group_digits len i [] = []"
| "group_digits len i (c # cs) =
     (if 0 < i \<and> (len - i) mod 3 = 0 then [CHR '','', c] else [c]) @ group_digits len (i + 1) cs"

definition formatNumber :: "u64 \<Rightarrow> string" where
  "formatNumber n =
     (let s = show_nat (unat n) in if length s \<le> 3 then s else group_digits (length s) 0 s)"

text \<open>
  Division of natural numbers, rounded to the nearest with ties to even; and rounding of a quotient
  of at least \<open>2^-64\<close> to a \<open>float64\<close> in its normal range: 53 significant bits, as a fraction.
\<close>

definition div_even :: "nat \<Rightarrow> nat \<Rightarrow> nat" where
  "div_even a b = (let q = a div b; r = a mod b in if 2 * r < b \<or> (2 * r = b \<and> even q) then q else q + 1)"

fun bits :: "nat \<Rightarrow> nat" where
  "bits n = (if n = 0 then 0 else Suc (bits (n div 2)))"

declare bits.simps [simp del]

definition float64 :: "nat \<times> nat \<Rightarrow> nat \<times> nat" where
  "float64 x = (case x of (n, d) \<Rightarrow>
     (let k = bits (n * 2 ^ 64 div d) in
      if k \<le> 117 then (div_even (n * 2 ^ (117 - k)) d, 2 ^ (117 - k))
      else (div_even n (d * 2 ^ (k - 117)) * 2 ^ (k - 117), 1)))"

text \<open>The verb \<open>%.2f\<close>: the exact value of the number, rounded to hundredths.\<close>

definition format_2f :: "nat \<times> nat \<Rightarrow> string" where
  "format_2f x = (case x of (n, d) \<Rightarrow>
     (let h = div_even (100 * n) d in show_nat (h div 100) @ ''.'' @ [digit (h div 10 mod 10), digit (h mod 10)]))"

text \<open>\<open>float64(cpuTimeUs) / 1000.0\<close>\<close>

definition cpuMs :: "u64 \<Rightarrow> nat \<times> nat" where
  "cpuMs cpuTimeUs = (case float64 (unat cpuTimeUs, 1) of (n, d) \<Rightarrow> float64 (n, d * 1000))"

definition formatStats :: "u64 \<Rightarrow> u64 \<Rightarrow> string" where
  "formatStats opcodes cpuTimeUs =
     formatNumber opcodes @ '' opcodes | '' @ format_2f (cpuMs cpuTimeUs) @ ''ms CPU''"

subsection \<open>Printing a result\<close>

datatype style = StyleResult | StyleError | StyleStack | StyleStats | StyleBanner | StyleEmpty

text \<open>\<open>json.Indent\<close> on the tokens of a text: \<open>need\<close> is set after an opening bracket.\<close>

definition indent_line :: "nat \<Rightarrow> string" where
  "indent_line depth = newline @ ''   '' @ concat (replicate depth ''  '')"

fun indent_tokens :: "bool \<Rightarrow> nat \<Rightarrow> token list \<Rightarrow> string" where
  "indent_tokens need depth [] = []"
| "indent_tokens need depth (TWs c # ts) = indent_tokens need depth ts"
| "indent_tokens need depth (t # ts) =
     (if t = TPunct CHR ''}'' \<or> t = TPunct CHR '']'' then
        (if need then token_text t @ indent_tokens False depth ts
         else indent_line (depth - 1) @ token_text t @ indent_tokens False (depth - 1) ts)
      else
        (let depth' = (if need then depth + 1 else depth) in
         (if need then indent_line depth' else []) @ token_text t @
         (if t = TPunct CHR ''{'' \<or> t = TPunct CHR ''['' then indent_tokens True depth' ts
          else if t = TPunct CHR '','' then indent_line depth' @ indent_tokens False depth' ts
          else if t = TPunct CHR '':'' then '' '' @ indent_tokens False depth' ts
          else indent_tokens False depth' ts)))"

text \<open>\<open>json.MarshalIndent\<close> of a raw message.\<close>

definition marshalIndent :: "string \<Rightarrow> string option" where
  "marshalIndent v = (case parse_json v of None \<Rightarrow> None
     | Some _ \<Rightarrow> map_option (indent_tokens False 0) (lex LNone v))"

definition println :: "string \<Rightarrow> string" where
  "println s = s @ newline"

text \<open>What \<open>printInteractive\<close> writes; \<open>render\<close> is \<open>Style.Render\<close> of the styling package.\<close>

definition print_error :: "(style \<Rightarrow> string \<Rightarrow> string) \<Rightarrow> go_error \<Rightarrow> string" where
  "print_error render e =
     (case as_JsError e of
        Some j \<Rightarrow> println (render StyleError (Name j @ '': '' @ Message j)) @
          (case Stack j of None \<Rightarrow> [] | Some st \<Rightarrow> if st = [] then [] else println (render StyleStack st))
      | None \<Rightarrow>
     (case as_RuntimeError e of
        Some r \<Rightarrow> println (render StyleError (Code r @ '': '' @ RtMessage r))
      | None \<Rightarrow> println (render StyleError (error_text e))))"

definition print_value :: "(style \<Rightarrow> string \<Rightarrow> string) \<Rightarrow> string \<Rightarrow> string" where
  "print_value render v = println (render StyleResult
     (''=> '' @ (case marshalIndent v of None \<Rightarrow> v | Some indented \<Rightarrow> indented)))"

definition printInteractive :: "(style \<Rightarrow> string \<Rightarrow> string) \<Rightarrow> result \<Rightarrow> string" where
  "printInteractive render r =
     (if resText r \<noteq> [] then
        (if resText r = clearText then resText r else println (resText r)) @
        (if resText r \<noteq> helpText then newline else [])
      else
        (case resError r of
           Some e \<Rightarrow> print_error render e
         | None \<Rightarrow> (case resValue r of
             Some v \<Rightarrow> print_value render v
           | None \<Rightarrow> println (render StyleEmpty ''   (no result)''))) @
        (case resStats r of
           None \<Rightarrow> []
         | Some st \<Rightarrow> println (render StyleStats (''   '' @ formatStats (Opcodes st) (CPUTimeUs st)))) @
        newline)"

end
