(* ===== verification/Cli_Main.thy ===== *)
theory Cli_Main
  imports Cli_Interactive Cli_Forward
begin

text \<open>
  The modes of the command line client: the prompt's \<open>executor\<close> and callbacks
  (\<open>kafig-cli/interactive.go\<close>), the start of the JSON mode (\<open>kafig-cli/json.go\<close>), the file mode and
  the choice between them (\<open>kafig-cli/main.go\<close>).
\<close>

subsection \<open>The prompt\<close>

record repl =
  multiLine :: string
  inMultiLine :: bool

definition repl_start :: repl where
  "repl_start = \<lparr>multiLine = [], inMultiLine = False\<rparr>"

text \<open>What \<open>executor\<close> does with an input: nothing, print error and hint lines, or execute a command.\<close>

datatype repl_action = Silent | Report "(style \<times> string) list" | Run command

definition eval_command :: "string \<Rightarrow> command" where
  "eval_command src = (simple_command ''eval'')\<lparr>Source := src\<rparr>"

definition dot_command :: "string \<Rightarrow> repl_action" where
  "dot_command trimmed =
     (let parts = splitN 3 trimmed in
      if parts ! 0 = ''.dispatch'' \<and> length parts < 2 then
        Report [(StyleError, ''usage: .dispatch <name> [json_params]''),
                (StyleStats, ''  example: .dispatch greet {'' @ dquote # ''name'' @ dquote # '': '' @ dquote # ''world'' @ dquote # ''}'')]
      else if parts ! 0 = ''.dispatch'' \<and> length parts = 3 \<and> \<not> json_valid (trimSpace (parts ! 2)) then
        Report [(StyleError, ''invalid JSON params: '' @ trimSpace (parts ! 2))]
      else (case parseInteractive trimmed of
          None \<Rightarrow> Report [(StyleError, ''unknown command: '' @ parts ! 0)]
        | Some cmd \<Rightarrow> Run cmd))"

definition executor_action :: "string \<Rightarrow> repl \<Rightarrow> repl \<times> repl_action" where
  "executor_action input s =
     (if inMultiLine s then
        (let text = multiLine s @ newline @ input in
         if isComplete text then (repl_start, Run (eval_command text)) else (s\<lparr>multiLine := text\<rparr>, Silent))
      else
        (let trimmed = trimSpace input in
         if trimmed = [] then (s, Silent)
         else if starts_with trimmed ''.'' then (s, dot_command trimmed)
         else if \<not> isComplete trimmed then (\<lparr>multiLine = trimmed, inMultiLine = True\<rparr>, Silent)
         else (s, Run (eval_command trimmed))))"

text \<open>The result: the states, what is printed, and whether the process exits.\<close>

definition executor :: "(style \<Rightarrow> string \<Rightarrow> string) \<Rightarrow> 'w host_env \<Rightarrow> limits \<Rightarrow> string \<Rightarrow>
    repl \<times> ('g, 'w) session \<Rightarrow> ((repl \<times> ('g, 'w) session) \<times> string \<times> bool) outcome_of_run" where
  "executor render E L input st =
     (case st of (p, s) \<Rightarrow>
     (case executor_action input p of
        (p', Silent) \<Rightarrow> Finished ((p', s), [], False)
      | (p', Report ls) \<Rightarrow> Finished ((p', s), concat (map (\<lambda>(y, t). println (render y t)) ls), False)
      | (p', Run cmd) \<Rightarrow>
          (case exec E L cmd s of
             NilPanic \<Rightarrow> NilPanic
           | Diverges \<Rightarrow> Diverges
           | Finished (s', r) \<Rightarrow>
               (if cmdType cmd = ''exit'' then Finished ((p', s'), println (resText r), True)
                else Finished ((p', s'), printInteractive render r, False)))))"

text \<open>Enter executes the buffer, or inserts a newline and \<open>indentSize\<close> blanks.\<close>

definition shouldExecute :: "repl \<Rightarrow> string \<Rightarrow> int \<Rightarrow> int \<times> bool" where
  "shouldExecute s input indentSize =
     (if inMultiLine s then
        (if isComplete (multiLine s @ newline @ input) then (0, True) else (indentSize, False))
      else
        (let trimmed = trimSpace input in
         if trimmed = [] \<or> starts_with trimmed ''.'' then (0, True)
         else if isComplete trimmed then (0, True) else (indentSize, False)))"

text \<open>
  The document of the prompt package: the text and the word before the cursor and the cursor's
  index in runes; \<open>runeCount\<close> and \<open>filterHasPrefix\<close> are functions of that package.
\<close>

record document =
  textBeforeCursor :: string
  wordBeforeCursor :: string
  currentRuneIndex :: int

definition suggestions :: "(string \<times> string) list" where
  "suggestions = [(''.help'', ''Show available commands''),
     (''.dispatch'', ''Dispatch event: .dispatch <name> [json_params]''),
     (''.reset'', ''Reset JS instance (clear all state)''),
     (''.clear'', ''Clear the screen''), (''.exit'', ''Exit the REPL'')]"

definition completer :: "(string \<Rightarrow> int) \<Rightarrow> ((string \<times> string) list \<Rightarrow> string \<Rightarrow> bool \<Rightarrow> (string \<times> string) list) \<Rightarrow>
    document \<Rightarrow> (string \<times> string) list \<times> int \<times> int" where
  "completer runeCount filterHasPrefix d =
     (let endIndex = currentRuneIndex d;
          w = wordBeforeCursor d;
          startIndex = endIndex - runeCount w
      in if \<not> starts_with (textBeforeCursor d) ''.'' then ([], 0, 0)
         else (filterHasPrefix suggestions w True, startIndex, endIndex))"

subsection \<open>Starting the modes\<close>

text \<open>A mode that starts serves a session; one that does not prints, and exits with code 1.\<close>

datatype ('g, 'w) started = ExitOne (on_stdout: string) (on_stderr: string) | Serving "('g, 'w) session" (greeting: string)

text \<open>The session is started twice over: with \<open>newSession\<close>, then reset with the fallback in its router.\<close>

definition start_forwarding :: "'g engine \<Rightarrow> os_env \<Rightarrow> 'w host_env \<Rightarrow> limits \<Rightarrow> 'w RPCFallbackCallback \<Rightarrow> 'w \<Rightarrow> host \<Rightarrow>
    (host \<times> (go_error + ('g, 'w) session)) option" where
  "start_forwarding W OS E L f w h = do {
     (h', res) \<leftarrow> newSession W OS E L w h;
     (case res of
        Inl e \<Rightarrow> Some (h', Inl e)
      | Inr s \<Rightarrow> do {
          (s', err) \<leftarrow> reset E L (s\<lparr>rpcFallback := Some f\<rparr>);
          Some (h', case err of None \<Rightarrow> Inr s' | Some e \<Rightarrow> Inl e)
        })
   }"

definition runJSON_start :: "'g engine \<Rightarrow> os_env \<Rightarrow> 'w host_env \<Rightarrow> limits \<Rightarrow> 'w RPCFallbackCallback \<Rightarrow> 'w \<Rightarrow> host \<Rightarrow>
    (host \<times> ('g, 'w) started) option" where
  "runJSON_start W OS E L f w h =
     map_option (\<lambda>(h', res). (h', case res of Inl e \<Rightarrow> ExitOne (printJSON (error_result e)) [] | Inr s \<Rightarrow> Serving s []))
       (start_forwarding W OS E L f w h)"

definition banner :: "(style \<Rightarrow> string \<Rightarrow> string) \<Rightarrow> string" where
  "banner render = println (render StyleBanner ''kafig'' @ '' interactive JavaScript runtime'') @
     println (render StyleStats ''Type .help for commands, Ctrl+D to exit'') @ newline"

definition runInteractive_start :: "(style \<Rightarrow> string \<Rightarrow> string) \<Rightarrow> 'g engine \<Rightarrow> os_env \<Rightarrow> 'w host_env \<Rightarrow> limits \<Rightarrow>
    'w RPCFallbackCallback \<Rightarrow> 'w \<Rightarrow> host \<Rightarrow> (host \<times> ('g, 'w) started) option" where
  "runInteractive_start render W OS E L f w h =
     map_option (\<lambda>(h', res). (h', case res of Inl e \<Rightarrow> ExitOne [] (println (error_text e)) | Inr s \<Rightarrow> Serving s (banner render)))
       (start_forwarding W OS E L f w h)"

subsection \<open>The file mode\<close>

record process_end =
  stdout :: string
  stderr :: string
  exitCode :: int

definition run_error :: "string \<Rightarrow> process_end" where
  "run_error t = \<lparr>stdout = [], stderr = println t, exitCode = 1\<rparr>"

text \<open>\<open>readFile\<close> is the content of the file or the error; \<^const>\<open>None\<close>: a call never returns.\<close>

definition runFile :: "(style \<Rightarrow> string \<Rightarrow> string) \<Rightarrow> bool \<Rightarrow> 'g engine \<Rightarrow> os_env \<Rightarrow> 'w host_env \<Rightarrow> limits \<Rightarrow>
    (string \<Rightarrow> go_error + string) \<Rightarrow> string \<Rightarrow> 'w \<Rightarrow> host \<Rightarrow> (host \<times> process_end) outcome_of_run" where
  "runFile render jsonMode W OS E L readFile path w h =
     (case readFile path of
        Inl e \<Rightarrow> Finished (h, run_error (''error reading file: '' @ error_text e))
      | Inr source \<Rightarrow>
     (case newSession W OS E L w h of
        None \<Rightarrow> Diverges
      | Some (h', Inl e) \<Rightarrow> Finished (h', run_error (error_text e))
      | Some (h', Inr s) \<Rightarrow>
     (case exec E L (eval_command source) s of
        NilPanic \<Rightarrow> NilPanic
      | Diverges \<Rightarrow> Diverges
      | Finished (s', r) \<Rightarrow> Finished (closeSession W s' h',
          \<lparr>stdout = (if jsonMode then printJSON r else printInteractive render r), stderr = [], exitCode = 0\<rparr>))))"

subsection \<open>The choice of a mode\<close>

text \<open>The flags, with the arguments after them and whether the standard input is a terminal (\<^const>\<open>None\<close>: unknown).\<close>

record flags =
  maxOpcFlag :: u64
  maxCPUFlag :: u64
  jsonFlag :: bool
  fileArgs :: "string list"
  stdinIsTTY :: "bool option"

definition flag_defaults :: "string list \<Rightarrow> bool option \<Rightarrow> flags" where
  "flag_defaults as tty = \<lparr>maxOpcFlag = 0, maxCPUFlag = 5000, jsonFlag = False, fileArgs = as, stdinIsTTY = tty\<rparr>"

datatype mode = FileMode string bool | JSONMode | InteractiveMode

definition main_mode :: "flags \<Rightarrow> limits \<times> mode" where
  "main_mode F =
     (let jsonMode = jsonFlag F \<or> (fileArgs F = [] \<and> stdinIsTTY F = Some False)
      in (flag_limits (maxOpcFlag F) (maxCPUFlag F),
          case fileArgs F of path # _ \<Rightarrow> FileMode path jsonMode
          | [] \<Rightarrow> if jsonMode then JSONMode else InteractiveMode))"

end
