(* ===== verification/Interactive_Spec.thy ===== *)
theory Interactive_Spec
  imports Cli_Main
begin

text \<open>
  What the prompt guarantees: which texts are complete, what a source typed over several lines
  becomes, that a command always has a known type, and how statistics are printed.
\<close>

subsection \<open>Complete texts\<close>

text \<open>
  The reference: the text without its string literals, \<^const>\<open>None\<close> when one is not closed.
\<close>

fun after_string :: "char \<Rightarrow> string \<Rightarrow> string option" where
  "after_string q [] = None"
| "after_string q (c # cs) =
     (if c = bslash then (case cs of [] \<Rightarrow> None | d # ds \<Rightarrow> after_string q ds)
      else if c = q then Some cs else after_string q cs)"

lemma after_string_shorter: "after_string q s = Some t \<Longrightarrow> length t < length s"
  by (induction q s rule: after_string.induct) (force split: if_splits list.splits)+

function code_text :: "string \<Rightarrow> string option" where
  "code_text [] = Some []"
| "code_text (c # cs) =
     (if c \<in> {dquote, CHR 0x27, CHR 0x60}
      then (case after_string c cs of None \<Rightarrow> None | Some t \<Rightarrow> code_text t)
      else map_option ((#) c) (code_text cs))"
  by pat_completeness auto
termination
  by (relation "measure length") (auto dest: after_string_shorter)

definition opens :: "char \<Rightarrow> bool" where "opens c = (c \<in> set ''{(['')"
definition closes :: "char \<Rightarrow> bool" where "closes c = (c \<in> set ''})]'')"

definition how_many :: "(char \<Rightarrow> bool) \<Rightarrow> string \<Rightarrow> nat" where
  "how_many P s = length (filter P s)"

lemma how_many_Cons: "how_many P (c # s) = how_many P s + (if P c then 1 else 0)"
  by (simp add: how_many_def)

lemma complete_char:
  "c \<notin> {dquote, CHR 0x27, CHR 0x60} \<Longrightarrow> complete_loop d None False (c # cs) =
     complete_loop (if opens c then d + 1 else if closes c then d - 1 else d) None False cs"
  by (simp add: opens_def closes_def)

lemma opens_not_closes: "opens c \<Longrightarrow> \<not> closes c"
  by (auto simp: opens_def closes_def)

lemma complete_string:
  "q \<noteq> bslash \<Longrightarrow> complete_loop d (Some q) False s =
     (case after_string q s of None \<Rightarrow> False | Some t \<Rightarrow> complete_loop d None False t)"
proof (induction q s rule: after_string.induct)
  case (2 q c cs)
  show ?case
  proof (cases "c = bslash")
    case True
    then show ?thesis using 2 by (cases cs) auto
  next
    case False
    then show ?thesis using 2 by auto
  qed
qed simp

lemma quote_not_bslash: "c \<in> {dquote, CHR 0x27, CHR 0x60} \<Longrightarrow> c \<noteq> bslash"
  by (auto simp: bslash_def dquote_def)

lemma complete_code:
  "complete_loop d None False s = (case code_text s of None \<Rightarrow> False
     | Some t \<Rightarrow> d + int (how_many opens t) \<le> int (how_many closes t))"
proof (induction s arbitrary: d rule: code_text.induct)
  case 1
  then show ?case by (simp add: how_many_def)
next
  case (2 c cs)
  show ?case
  proof (cases "c \<in> {dquote, CHR 0x27, CHR 0x60}")
    case True
    note q = quote_not_bslash [OF True]
    from True q have "complete_loop d None False (c # cs) = complete_loop d (Some c) False cs" by simp
    with True complete_string [OF q, of d cs] 2(1) [OF True]
    show ?thesis by (simp split: option.splits)
  next
    case False
    have c: "code_text (c # cs) = map_option ((#) c) (code_text cs)" using False by simp
    show ?thesis
      unfolding complete_char [OF False] 2(2) [OF False] c
      using opens_not_closes [of c]
      by (cases "code_text cs") (auto simp: how_many_Cons)
  qed
qed

text \<open>
  C33. The one-pass loop of \<open>isComplete\<close> computes what it means to: a text is complete exactly when
  every string literal in it is closed and, outside the literals, no more brackets are opened than
  are closed.
\<close>

theorem isComplete_reference:
  "isComplete s = (case code_text s of None \<Rightarrow> False
     | Some t \<Rightarrow> how_many opens t \<le> how_many closes t)"
  unfolding isComplete_def complete_code by (simp split: option.splits)

subsection \<open>Several lines\<close>

lemma starts_with_Nil [simp]: "starts_with s [] = True"
  by (simp add: starts_with_def)

text \<open>The prompt after a sequence of inputs, and what each of them did.\<close>

fun feed :: "string list \<Rightarrow> repl \<Rightarrow> repl \<times> repl_action list" where
  "feed [] s = (s, [])"
| "feed (x # xs) s = (case executor_action x s of (s', a) \<Rightarrow> (case feed xs s' of (t, as) \<Rightarrow> (t, a # as)))"

definition joined :: "string \<Rightarrow> string list \<Rightarrow> string" where
  "joined l ls = l @ concat (map (\<lambda>x. newline @ x) ls)"

lemma feed_multi:
  assumes "\<forall>k \<le> length ls. \<not> isComplete (joined t (take k ls))"
  shows "feed ls \<lparr>multiLine = t, inMultiLine = True\<rparr> =
    (\<lparr>multiLine = joined t ls, inMultiLine = True\<rparr>, replicate (length ls) Silent)"
  using assms
proof (induction ls arbitrary: t)
  case Nil
  then show ?case by (simp add: joined_def)
next
  case (Cons x xs)
  have j: "joined t (x # xs) = joined (t @ newline @ x) xs" "joined t (take (Suc k) (x # xs)) = joined (t @ newline @ x) (take k xs)" for k
    by (simp_all add: joined_def)
  have "\<not> isComplete (t @ newline @ x)"
    using Cons.prems [rule_format, of 1] by (simp add: joined_def)
  moreover have "\<forall>k \<le> length xs. \<not> isComplete (joined (t @ newline @ x) (take k xs))"
    using Cons.prems [rule_format, of "Suc k" for k] j(2) by auto
  ultimately show ?case
    using Cons.IH [of "t @ newline @ x"] by (simp add: executor_action_def j(1) Let_def)
qed

text \<open>
  C35. A source typed over several inputs is evaluated once and as a whole: while what was typed is
  incomplete nothing is executed, and the input that completes it runs one evaluation of the first
  input, trimmed, and the further ones, joined by newlines, after which the prompt starts afresh.
\<close>

theorem multi_line_joined:
  assumes "trimSpace l \<noteq> []" and "\<not> starts_with (trimSpace l) ''.''"
    and "\<forall>k \<le> length ls. \<not> isComplete (joined (trimSpace l) (take k ls))"
    and "isComplete (joined (trimSpace l) (ls @ [x]))"
  shows "feed ((l # ls) @ [x]) repl_start =
    (repl_start, replicate (Suc (length ls)) Silent @ [Run (eval_command (joined (trimSpace l) (ls @ [x])))])"
proof -
  have app: "feed (xs @ ys) s = (case feed xs s of (s', as) \<Rightarrow> (case feed ys s' of (t, bs) \<Rightarrow> (t, as @ bs)))" for xs ys s
    by (induction xs arbitrary: s) (simp_all split: prod.splits)
  have "\<not> isComplete (trimSpace l)" using assms(3) [rule_format, of 0] by (simp add: joined_def)
  with assms(1,2) have 1: "executor_action l repl_start = (\<lparr>multiLine = trimSpace l, inMultiLine = True\<rparr>, Silent)"
    by (simp add: executor_action_def repl_start_def Let_def)
  have 2: "joined (trimSpace l) (ls @ [x]) = joined (trimSpace l) ls @ newline @ x" by (simp add: joined_def)
  have 3: "executor_action x \<lparr>multiLine = joined (trimSpace l) ls, inMultiLine = True\<rparr> =
      (repl_start, Run (eval_command (joined (trimSpace l) (ls @ [x]))))"
    using assms(4) by (simp add: executor_action_def 2 Let_def)
  show ?thesis
    by (simp add: app 1 feed_multi [OF assms(3)] 3)
qed

theorem multi_line_joined_witness:
  "feed [''f('', ''1'', '')''] repl_start =
    (repl_start, [Silent, Silent, Run (eval_command (''f('' @ newline @ ''1'' @ newline @ '')''))])"
proof -
  have t: "trimSpace ''f('' = ''f(''" by (simp add: trimSpace_def trim_with.simps space_texts_def starts_with_def)
  have c: "complete_loop 0 None False (joined ''f('' (take k [''1''])) = False" if "k \<le> 1" for k
    using that by (cases k) (simp_all add: joined_def newline_def dquote_def bslash_def)
  show ?thesis
    using multi_line_joined [of "''f(''" "[''1'']" "'')''"] t c
    by (simp add: starts_with_def isComplete_def joined_def newline_def dquote_def bslash_def)
qed

inductive prompt_reach :: "repl \<Rightarrow> bool" where
  start: "prompt_reach repl_start"
| enter: "prompt_reach s \<Longrightarrow> snd (shouldExecute s input n) \<Longrightarrow> prompt_reach (fst (executor_action input s))"

lemma prompt_reach_start: "prompt_reach s \<Longrightarrow> s = repl_start"
  by (induction rule: prompt_reach.induct)
    (auto simp: shouldExecute_def executor_action_def repl_start_def Let_def split: if_splits)

text \<open>
  C34. At the prompt itself the lines are collected by the prompt, not by the executor: as Enter
  executes only what \<open>shouldExecute\<close> accepts, the executor never enters its multi-line mode, and every
  input it is given that is not blank is executed or reported at once.
\<close>

theorem prompt_executes_at_once:
  assumes "prompt_reach s" and "snd (shouldExecute s input n)"
  shows "fst (executor_action input s) = repl_start \<and>
    (snd (executor_action input s) = Silent) = (trimSpace input = [])"
proof -
  have d: "dot_command t \<noteq> Silent" for t by (simp add: dot_command_def Let_def split: option.splits)
  show ?thesis
    using assms(2) d prompt_reach_start [OF assms(1)]
    by (auto simp: shouldExecute_def executor_action_def repl_start_def Let_def split: if_splits)
qed

theorem prompt_executes_at_once_witness:
  "snd (executor_action ''1'' repl_start) \<noteq> Silent"
proof -
  have t: "trimSpace ''1'' = ''1''" by (simp add: trimSpace_def trim_with.simps space_texts_def starts_with_def)
  have "snd (shouldExecute repl_start ''1'' 2)"
    by (simp add: shouldExecute_def repl_start_def t starts_with_def isComplete_def dquote_def bslash_def Let_def)
  then show ?thesis
    using prompt_executes_at_once [OF prompt_reach.start] t by simp
qed

subsection \<open>Typed commands\<close>

definition typed_command :: "command \<Rightarrow> bool" where
  "typed_command cmd = (case cmdType cmd of t \<Rightarrow>
     if t = ''eval'' then Source cmd \<noteq> []
     else if t = ''dispatch'' then CmdParams cmd \<noteq> None
     else t \<in> {''reset'', ''help'', ''clear'', ''exit''})"

text \<open>
  C36. Every command the JSON mode or the prompt hands to the session is well typed: it is of one of
  the six types the session executes, an evaluation has a source that is not empty, and a dispatch
  has parameters.
\<close>

theorem commands_typed:
  assumes "routeLine jsonErr input = RouteCommand cmd \<or> snd (executor_action input p) = Run cmd"
  shows "typed_command cmd"
  using assms
proof
  assume "routeLine jsonErr input = RouteCommand cmd"
  then show ?thesis
    by (auto simp: routeLine_def parseJSONInput_def typed_command_def simple_command_def Let_def
        split: option.splits sum.splits if_splits)
next
  have d: "typed_command c" if "parseInteractive t = Some c" for t c
    using that by (auto simp: parseInteractive_def typed_command_def simple_command_def Let_def split: if_splits)
  have e: "typed_command (eval_command t) = (t \<noteq> [])" for t
    by (simp add: typed_command_def eval_command_def simple_command_def)
  assume "snd (executor_action input p) = Run cmd"
  then show ?thesis
    by (auto simp: executor_action_def dot_command_def e newline_def Let_def split: if_splits option.splits dest: d)
qed

theorem commands_typed_witness: "typed_command (simple_command ''help'')"
proof -
  have t: "trimSpace ''.help'' = ''.help''" by (simp add: trimSpace_def trim_with.simps space_texts_def starts_with_def)
  have "snd (executor_action ''.help'' repl_start) = Run (simple_command ''help'')"
    by (simp add: executor_action_def repl_start_def t starts_with_def dot_command_def parseInteractive_def
        numeral_3_eq_3 Let_def)
  then show ?thesis using commands_typed [of "\<lambda>s. []" "''.help''" _ repl_start] by simp
qed

end
