(* ===== verification/Stats_Spec.thy ===== *)
theory Stats_Spec
  imports Cli_Main Json_Values
begin

text \<open>
  The statistics the prompt prints: the grouping of a number's digits and the rounding of the CPU
  time, which passes through two \<open>float64\<close> roundings and one to hundredths.
\<close>

subsection \<open>Grouping\<close>

abbreviation is_comma :: "char \<Rightarrow> bool" where
  "is_comma c \<equiv> c = CHR '',''"

text \<open>The commas of the grouped text, read from its end: every fourth character.\<close>

definition grouped :: "string \<Rightarrow> bool" where
  "grouped t = (map is_comma (rev t) = map (\<lambda>k. k mod 4 = 3) [0..<length t])"

lemma grouped_Cons: "grouped (c # t) = (is_comma c = (length t mod 4 = 3) \<and> grouped t)"
  by (auto simp: grouped_def)

lemma thirds:
  assumes "r < 3"
  shows "((3 * q + Suc r) mod 3 = 0) = (r = 2)" and "(3 * q + Suc r) div 3 = q + (if r = 2 then 1 else 0)"
  using assms by presburger+

lemma group_digits_grouped:
  assumes "\<forall>c \<in> set s. \<not> is_comma c" and "0 < i"
  shows "grouped (group_digits (i + length s) i s) \<and>
    length (group_digits (i + length s) i s) = length s + length s div 3"
  using assms
proof (induction s arbitrary: i)
  case Nil
  then show ?case by (simp add: grouped_def)
next
  case (Cons c cs)
  let ?m = "length cs"
  let ?t = "group_digits (i + length (c # cs)) (i + 1) cs"
  have t: "grouped ?t" "length ?t = ?m + ?m div 3"
    using Cons.IH [of "i + 1"] Cons.prems by (simp_all add: add.commute add.left_commute)
  obtain q r where m: "?m = 3 * q + r" "r < 3" by (metis mod_less_divisor mult_div_mod_eq zero_less_numeral)
  then have "?m + ?m div 3 = 4 * q + r" by simp
  then have l: "length ?t = 4 * q + r" using t(2) by (simp only:)
  from m(2) have p: "length ?t mod 4 \<noteq> 3" "(Suc (length ?t) mod 4 = 3) = (r = 2)" unfolding l by presburger+
  have e: "(Suc ?m mod 3 = 0) = (r = 2)" "Suc ?m div 3 = q + (if r = 2 then 1 else 0)"
  proof -
    have s: "Suc ?m = 3 * q + Suc r" by (simp add: m(1))
    show "(Suc ?m mod 3 = 0) = (r = 2)" "Suc ?m div 3 = q + (if r = 2 then 1 else 0)"
      unfolding s by (rule thirds [OF m(2)])+
  qed
  have g: "group_digits (i + length (c # cs)) i (c # cs) = (if r = 2 then [CHR '','', c] else [c]) @ ?t"
    using Cons.prems(2) e(1) by simp
  have c: "\<not> is_comma c" using Cons.prems(1) by simp
  have n: "length (c # cs) + length (c # cs) div 3 = Suc (4 * q + r) + (if r = 2 then 1 else 0)"
    unfolding list.size(4) add_Suc_right add_0_right e(2) using m(1) by linarith
  show ?case
    unfolding g n
  proof
    show "grouped ((if r = 2 then [CHR '','', c] else [c]) @ ?t)"
      using t(1) c p by (simp add: grouped_Cons)
    show "length ((if r = 2 then [CHR '','', c] else [c]) @ ?t) = Suc (4 * q + r) + (if r = 2 then 1 else 0)"
      using l by simp
  qed
qed

lemma filter_group_digits:
  "\<forall>c \<in> set s. \<not> is_comma c \<Longrightarrow> filter (\<lambda>c. \<not> is_comma c) (group_digits len i s) = s"
  by (induction len i s rule: group_digits.induct) auto

lemma show_nat_commas: "\<forall>c \<in> set (show_nat n). \<not> is_comma c"
  using show_nat_digits [of n] by (auto simp: list_all_iff is_digit_def)

text \<open>
  C38. A number is printed as its decimal digits, which reading the text without its commas gives
  back, and the commas are exactly every fourth character from the end, so none is leading.
\<close>

theorem formatNumber_grouped:
  "filter (\<lambda>c. \<not> is_comma c) (formatNumber n) = show_nat (unat n) \<and> grouped (formatNumber n) \<and>
   \<not> is_comma (hd (formatNumber n))"
proof -
  let ?s = "show_nat (unat n)"
  note c = show_nat_commas [of "unat n"]
  obtain d ds where s: "?s = d # ds" using show_nat_nonempty [of "unat n"] by (cases ?s) auto
  have d: "\<not> is_comma d" "\<forall>c \<in> set ds. \<not> is_comma c" using c s by auto
  show ?thesis
  proof (cases "length ?s \<le> 3")
    case True
    have "grouped t" if "length t \<le> 3" "\<forall>c \<in> set t. \<not> is_comma c" for t
      using that by (induction t) (auto simp: grouped_Cons grouped_def)
    with True c d s show ?thesis by (simp add: formatNumber_def)
  next
    case False
    let ?t = "group_digits (1 + length ds) 1 ds"
    have f: "formatNumber n = d # ?t" using False by (simp add: formatNumber_def s)
    have t: "grouped ?t" "length ?t = length ds + length ds div 3"
      using group_digits_grouped [OF d(2), of 1] by simp_all
    obtain q r where m: "length ds = 3 * q + r" "r < 3" by (metis mod_less_divisor mult_div_mod_eq zero_less_numeral)
    then have "length ds + length ds div 3 = 4 * q + r" by simp
    then have "length ?t = 4 * q + r" by (simp only: t(2))
    with m(2) have "length ?t mod 4 \<noteq> 3" by presburger
    then have "grouped (formatNumber n)" using t d by (simp add: f grouped_Cons)
    moreover have "filter (\<lambda>c. \<not> is_comma c) (formatNumber n) = ?s"
      using filter_group_digits [OF d(2), of "1 + length ds" 1] d by (simp add: f s)
    ultimately show ?thesis using d by (simp add: f)
  qed
qed

subsection \<open>Rounding\<close>

lemma div_even_close: "0 < b \<Longrightarrow> \<bar>int (div_even a b) * int b - int a\<bar> * 2 \<le> int b"
proof -
  assume b: "0 < b"
  have a: "int a = int (a div b) * int b + int (a mod b)"
    by (metis div_mult_mod_eq of_nat_add of_nat_mult)
  have r: "int (a mod b) < int b" using b by simp
  show ?thesis
  proof (cases "2 * (a mod b) < b \<or> (2 * (a mod b) = b \<and> even (a div b))")
    case True
    then have "div_even a b = a div b" by (simp add: div_even_def Let_def)
    with a True show ?thesis by auto
  next
    case False
    then have d: "div_even a b = a div b + 1" by (simp add: div_even_def Let_def)
    have "int (div_even a b) * int b - int a = int b - int (a mod b)"
      using a by (simp add: d distrib_right)
    with r False show ?thesis by auto
  qed
qed

lemma bits_le: "bits n \<le> k \<longleftrightarrow> n < 2 ^ k"
proof (induction n arbitrary: k rule: bits.induct)
  case (1 n)
  show ?case
  proof (cases "n = 0")
    case True
    then show ?thesis by (simp add: bits.simps)
  next
    case False
    show ?thesis
    proof (cases k)
      case 0
      then show ?thesis using False by (subst bits.simps) simp
    next
      case (Suc j)
      have "bits n \<le> k \<longleftrightarrow> n div 2 < 2 ^ j" using 1 [OF False, of j] False Suc by (subst bits.simps) simp
      also have "\<dots> \<longleftrightarrow> n < 2 ^ k" by (simp add: Suc div_less_iff_less_mult mult.commute)
      finally show ?thesis .
    qed
  qed
qed

text \<open>Both roundings to a \<open>float64\<close>: the first is exact, the second is off by half a unit of its last place.\<close>

lemma float64_small: "bits (n * 2 ^ 64 div d) \<le> 117 \<Longrightarrow> float64 (n, d) =
    (div_even (n * 2 ^ (117 - bits (n * 2 ^ 64 div d))) d, 2 ^ (117 - bits (n * 2 ^ 64 div d)))"
  by (simp add: float64_def Let_def)

lemma close_trans:
  "\<bar>x - 100 * m\<bar> * 2 \<le> (d :: int) \<Longrightarrow> \<bar>1000 * m - y\<bar> \<le> 500 \<Longrightarrow> 512 \<le> d \<Longrightarrow> \<bar>10 * x - y\<bar> < 6 * d"
proof -
  assume a: "\<bar>x - 100 * m\<bar> * 2 \<le> d" and b: "\<bar>1000 * m - y\<bar> \<le> 500" and c: "512 \<le> d"
  have "\<bar>(x - 100 * m) * 2\<bar> \<le> d" using a by (simp only: abs_mult abs_numeral)
  then have "2 * x - 200 * m \<le> d" "200 * m - 2 * x \<le> d" by (simp_all add: abs_le_iff left_diff_distrib)
  moreover have "1000 * m - y \<le> 500" "y - 1000 * m \<le> 500" using b by (simp_all add: abs_le_iff)
  ultimately show ?thesis using c unfolding abs_less_iff by (intro conjI) linarith+
qed

lemma cpuMs_close:
  assumes "unat us < 2 ^ 53"
  obtains m s where "cpuMs us = (m, 2 ^ s)" and "9 \<le> s" and "\<bar>1000 * int m - int (unat us) * 2 ^ s\<bar> \<le> 500"
proof -
  let ?t = "unat us"
  let ?k = "bits (?t * 2 ^ 64)"
  have "?t * 2 ^ 64 < 2 ^ 117" using assms by simp
  then have k: "?k \<le> 117" by (simp only: bits_le)
  have "div_even a 1 = a" for a by (simp add: div_even_def)
  with float64_small [of ?t 1] k have f1: "float64 (?t, 1) = (?t * 2 ^ (117 - ?k), 2 ^ (117 - ?k))"
    by (simp only: div_by_1)
  let ?d = "2 ^ (117 - ?k) :: nat"
  let ?k2 = "bits (?t * ?d * 2 ^ 64 div (?d * 1000))"
  have q: "?t * ?d * 2 ^ 64 div (?d * 1000) = ?t * 2 ^ 64 div 1000"
  proof -
    have "?t * ?d * 2 ^ 64 = ?d * (?t * 2 ^ 64)" by (simp add: ac_simps)
    then show ?thesis by (simp only: div_mult_mult1) simp
  qed
  have "?t * 2 ^ 64 div 1000 < 2 ^ 108" using assms by (simp add: div_less_iff_less_mult)
  then have k2: "?k2 \<le> 108" by (simp only: q bits_le)
  let ?s = "117 - ?k2"
  let ?m = "div_even (?t * ?d * 2 ^ ?s) (?d * 1000)"
  have "cpuMs us = float64 (?t * ?d, ?d * 1000)" by (simp only: cpuMs_def f1 prod.case)
  also have "\<dots> = (?m, 2 ^ ?s)" by (rule float64_small) (use k2 in linarith)
  finally have "cpuMs us = (?m, 2 ^ ?s)" .
  moreover have "9 \<le> ?s" using k2 by simp
  moreover have "\<bar>1000 * int ?m - int ?t * 2 ^ ?s\<bar> \<le> 500"
  proof -
    have "\<bar>int ?m * int (?d * 1000) - int (?t * ?d * 2 ^ ?s)\<bar> * 2 \<le> int (?d * 1000)"
      by (rule div_even_close) simp
    moreover have "int ?m * int (?d * 1000) - int (?t * ?d * 2 ^ ?s) = int ?d * (1000 * int ?m - int ?t * 2 ^ ?s)"
      by (simp add: algebra_simps)
    ultimately have "int ?d * (\<bar>1000 * int ?m - int ?t * 2 ^ ?s\<bar> * 2) \<le> int ?d * 1000"
      by (simp add: abs_mult mult.assoc)
    then have "\<bar>1000 * int ?m - int ?t * 2 ^ ?s\<bar> * 2 \<le> 1000" by (subst (asm) mult_le_cancel_left_pos) simp_all
    then show ?thesis by simp
  qed
  ultimately show thesis by (rule that)
qed

text \<open>
  C37. The CPU time is printed as milliseconds with two decimals, which are the nearest hundredth
  in spite of the binary floating point it passes through: off by at most five microseconds, for
  every time below two to the 53 microseconds (285 years).
\<close>

theorem cpu_time_rounded:
  assumes "unat us < 2 ^ 53"
  shows "\<exists>h. formatStats opcodes us = formatNumber opcodes @ '' opcodes | '' @
      show_nat (h div 100) @ ''.'' @ [digit (h div 10 mod 10), digit (h mod 10)] @ ''ms CPU'' \<and>
    10 * h \<le> unat us + 5 \<and> unat us \<le> 10 * h + 5"
proof -
  obtain m s where c: "cpuMs us = (m, 2 ^ s)" and s: "9 \<le> s"
    and m: "\<bar>1000 * int m - int (unat us) * 2 ^ s\<bar> \<le> 500"
    by (rule cpuMs_close [OF assms])
  let ?h = "div_even (100 * m) (2 ^ s)"
  have h: "\<bar>int ?h * 2 ^ s - 100 * int m\<bar> * 2 \<le> 2 ^ s"
    using div_even_close [of "2 ^ s" "100 * m"] by simp
  have "(2::int) ^ 9 \<le> 2 ^ s" using s by (rule power_increasing) simp
  then have D: "512 \<le> (2::int) ^ s" by simp
  have "\<bar>10 * int ?h - int (unat us)\<bar> * 2 ^ s = \<bar>10 * (int ?h * 2 ^ s) - int (unat us) * 2 ^ s\<bar>"
  proof -
    have "10 * (int ?h * 2 ^ s) - int (unat us) * 2 ^ s = (10 * int ?h - int (unat us)) * 2 ^ s"
      by (simp only: left_diff_distrib mult.assoc)
    then show ?thesis by (simp only: abs_mult abs_of_pos zero_less_power zero_less_numeral)
  qed
  also have "\<dots> < 6 * 2 ^ s" by (rule close_trans [OF h m D])
  finally have "\<bar>10 * int ?h - int (unat us)\<bar> < 6" by (subst (asm) mult_less_cancel_right_pos) simp_all
  then have b: "10 * ?h \<le> unat us + 5 \<and> unat us \<le> 10 * ?h + 5" by linarith
  show ?thesis
    by (intro exI [of _ ?h] conjI) (use b in \<open>simp_all add: formatStats_def format_2f_def c Let_def\<close>)
qed

theorem cpu_time_rounded_witness:
  "\<exists>h. formatStats 7 12345 = formatNumber 7 @ '' opcodes | '' @
      show_nat (h div 100) @ ''.'' @ [digit (h div 10 mod 10), digit (h mod 10)] @ ''ms CPU'' \<and>
    10 * h \<le> 12350 \<and> 12345 \<le> 10 * h + 5"
  using cpu_time_rounded [of 12345 7] by simp

end
