(* ===== verification/Guest_Prelude.thy ===== *)
theory Guest_Prelude
  imports Json_Values
begin

text \<open>
  \<open>kafig-runtime/src/prelude.js\<close>: the script that runs before any other in the guest and keeps, in a
  closure, the table of RPC promises that await an answer and the event handlers. The built-in
  objects it uses (\<open>Map\<close>, \<open>JSON\<close>, \<open>Promise\<close>) are those of the language, as long as no script replaces
  their methods.

  A promise is the pair of its resolving functions, of any type \<open>'p\<close>; \<open>'f\<close> is what a script may
  register as a handler.
\<close>

record ('p, 'f) prelude_state =
  pendingRpcs :: "int \<Rightarrow> 'p option"
  nextRpcId :: nat
  eventHandlers :: "string \<Rightarrow> 'f option"

definition prelude_init :: "('p, 'f) prelude_state" where
  "prelude_init = \<lparr>pendingRpcs = Map.empty, nextRpcId = 1, eventHandlers = Map.empty\<rparr>"

text \<open>
  \<open>n++\<close> on a number that is an integer: exact up to \<open>2^53\<close>, where adding one rounds back. The mask
  \<open>0x7FFFFFFF\<close> keeps the low 31 bits of the integer.
\<close>

definition js_inc :: "nat \<Rightarrow> nat" where
  "js_inc n = (if n < 2 ^ 53 then n + 1 else n)"

definition rpc_id :: "nat \<Rightarrow> int" where
  "rpc_id n = int (n mod 2 ^ 31)"

text \<open>
  What \<open>makeRpcPromise\<close> does before it calls the host: it takes an identifier and enters the new
  promise under it.
\<close>

definition enterRpc :: "'p \<Rightarrow> ('p, 'f) prelude_state \<Rightarrow> ('p, 'f) prelude_state \<times> int" where
  "enterRpc p t =
     (let i = rpc_id (nextRpcId t);
          t1 = t\<lparr>nextRpcId := js_inc (nextRpcId t)\<rparr>
      in (t1\<lparr>pendingRpcs := (pendingRpcs t1)(i \<mapsto> p)\<rparr>, i))"

text \<open>
  The answers. A promise is resolved with the value of a JSON text and rejected with an \<open>Error\<close> whose
  message is a text, or the value of a JSON text (the member \<open>message\<close> of the payload).
\<close>

datatype js_message = Text string | ValueOf string

datatype 'p settlement = Resolve 'p string | Reject 'p js_message

fun settled :: "'p settlement \<Rightarrow> 'p" where
  "settled (Resolve p v) = p"
| "settled (Reject p m) = p"

definition resolveRpc :: "int \<Rightarrow> string \<Rightarrow> ('p, 'f) prelude_state \<Rightarrow> ('p, 'f) prelude_state \<times> 'p settlement option" where
  "resolveRpc i resultJson t =
     (case pendingRpcs t i of
        None \<Rightarrow> (t, None)
      | Some p \<Rightarrow> (t\<lparr>pendingRpcs := (pendingRpcs t)(i := None)\<rparr>,
          Some (Resolve p (if parse_json resultJson = None then ''null'' else resultJson))))"

text \<open>
  \<open>JSON.parse(errorJson)?.message ?? String(errorJson)\<close>: only an object can have the member, the last
  one of the name counts, and \<open>null\<close> counts as none.
\<close>

definition lastMember :: "string \<Rightarrow> fields \<Rightarrow> (string \<times> json) option" where
  "lastMember name fs = map_of (rev fs) name"

definition reject_message :: "string \<Rightarrow> js_message" where
  "reject_message errorJson =
     (case parse_json errorJson of
        Some (JObj fs, _) \<Rightarrow>
          (case lastMember ''message'' fs of
             None \<Rightarrow> Text errorJson
           | Some (r, v) \<Rightarrow> if v = JNull then Text errorJson else ValueOf r)
      | _ \<Rightarrow> Text errorJson)"

definition rejectRpc :: "int \<Rightarrow> string \<Rightarrow> ('p, 'f) prelude_state \<Rightarrow> ('p, 'f) prelude_state \<times> 'p settlement option" where
  "rejectRpc i errorJson t =
     (case pendingRpcs t i of
        None \<Rightarrow> (t, None)
      | Some p \<Rightarrow> (t\<lparr>pendingRpcs := (pendingRpcs t)(i := None)\<rparr>, Some (Reject p (reject_message errorJson))))"

text \<open>\<open>__reset\<close> and \<open>host.on\<close>.\<close>

definition reset_prelude :: "('p, 'f) prelude_state \<Rightarrow> ('p, 'f) prelude_state" where
  "reset_prelude t = t\<lparr>pendingRpcs := Map.empty\<rparr>"

definition host_on :: "string \<Rightarrow> 'f \<Rightarrow> ('p, 'f) prelude_state \<Rightarrow> ('p, 'f) prelude_state" where
  "host_on name handler t = t\<lparr>eventHandlers := (eventHandlers t)(name \<mapsto> handler)\<rparr>"

text \<open>The handlers are a keyed table, as the routers of the host are: the last registration counts.\<close>

interpretation events: keyed_table host_on eventHandlers
  by unfold_locales (simp add: host_on_def)

lemma events_last: "eventHandlers (host_on name g (host_on name f t)) name = Some g"
  by (rule events.get_put_same)

text \<open>The identifier survives the trip to the host and back as an \<open>i32\<close>.\<close>

lemma rpc_id_range: "0 \<le> rpc_id n \<and> rpc_id n < 2 ^ 31"
  by (simp add: rpc_id_def)

lemma rpc_id_word: "sint (of_int (rpc_id n) :: u32) = rpc_id n"
proof -
  have "signed_take_bit 31 (rpc_id n) = rpc_id n"
    using rpc_id_range [of n] by (intro signed_take_bit_int_eq_self) auto
  then show ?thesis by (simp add: signed_of_int)
qed

subsection \<open>Sequences of calls and answers\<close>

text \<open>
  What a script and the host do to the table, in any order: a call of \<open>host.rpc\<close>, an answer under any
  identifier, a reset, a registration. Promises are numbered in the order of their creation; the history keeps each
  settlement with the identifier it came under.
\<close>

datatype 'f table_op = MakeRpc | ResolveRpc u32 string | RejectRpc u32 string | ResetTable | OnEvent string 'f

record 'f rpc_history =
  rpcTable :: "(nat, 'f) prelude_state"
  made :: nat
  history :: "(int \<times> nat settlement) list"

definition record_settlement ::
  "int \<Rightarrow> (nat, 'f) prelude_state \<times> nat settlement option \<Rightarrow> 'f rpc_history \<Rightarrow> 'f rpc_history" where
  "record_settlement i r h = h\<lparr>rpcTable := fst r,
     history := history h @ (case snd r of None \<Rightarrow> [] | Some s \<Rightarrow> [(i, s)])\<rparr>"

fun table_step :: "'f table_op \<Rightarrow> 'f rpc_history \<Rightarrow> 'f rpc_history" where
  "table_step MakeRpc h = h\<lparr>rpcTable := fst (enterRpc (made h) (rpcTable h)), made := Suc (made h)\<rparr>"
| "table_step (ResolveRpc w v) h = record_settlement (sint w) (resolveRpc (sint w) v (rpcTable h)) h"
| "table_step (RejectRpc w e) h = record_settlement (sint w) (rejectRpc (sint w) e (rpcTable h)) h"
| "table_step ResetTable h = h\<lparr>rpcTable := reset_prelude (rpcTable h)\<rparr>"
| "table_step (OnEvent e f) h = h\<lparr>rpcTable := host_on e f (rpcTable h)\<rparr>"

definition table_run :: "'f table_op list \<Rightarrow> 'f rpc_history" where
  "table_run ops = fold table_step ops \<lparr>rpcTable = prelude_init, made = 0, history = []\<rparr>"

text \<open>
  The invariant: identifiers are numbered as promises are (up to the mask), a pending promise exists,
  stands under its own identifier and has not been settled.
\<close>

definition id_of :: "nat \<Rightarrow> int" where
  "id_of n = rpc_id (min (Suc n) (2 ^ 53))"

definition pending_ok :: "'f rpc_history \<Rightarrow> bool" where
  "pending_ok h = (\<forall>i n. pendingRpcs (rpcTable h) i = Some n \<longrightarrow>
     n < made h \<and> i = id_of n \<and> n \<notin> (settled \<circ> snd) ` set (history h))"

definition history_ok :: "'f rpc_history \<Rightarrow> bool" where
  "history_ok h = (distinct (map (settled \<circ> snd) (history h)) \<and>
     list_all (\<lambda>x. settled (snd x) < made h \<and> fst x = id_of (settled (snd x))) (history h))"

definition table_inv :: "'f rpc_history \<Rightarrow> bool" where
  "table_inv h = (nextRpcId (rpcTable h) = min (Suc (made h)) (2 ^ 53) \<and> pending_ok h \<and> history_ok h)"

lemma table_inv_init: "table_inv \<lparr>rpcTable = prelude_init, made = 0, history = []\<rparr>"
  by (simp add: table_inv_def pending_ok_def history_ok_def prelude_init_def)

lemma history_fresh: "history_ok h \<Longrightarrow> made h \<notin> (settled \<circ> snd) ` set (history h)"
  by (auto simp: history_ok_def list_all_iff)

lemma table_inv_make:
  assumes "table_inv h"
  shows "table_inv (table_step MakeRpc h)"
proof -
  have next_id: "nextRpcId (rpcTable h) = min (Suc (made h)) (2 ^ 53)" and p: "pending_ok h" and o: "history_ok h"
    using assms by (simp_all add: table_inv_def)
  have "pending_ok (table_step MakeRpc h)"
    using p history_fresh [OF o]
    by (simp add: pending_ok_def enterRpc_def Let_def id_of_def next_id less_Suc_eq)
  moreover have "history_ok (table_step MakeRpc h)"
    using o by (auto simp: history_ok_def list_all_iff intro: less_SucI)
  moreover have "js_inc (min (Suc n) (2 ^ 53)) = min (Suc (Suc n)) (2 ^ 53)" for n
    by (simp add: js_inc_def min_def)
  ultimately show ?thesis by (simp add: table_inv_def enterRpc_def Let_def next_id)
qed

lemma table_inv_settle:
  assumes "table_inv h" and "pendingRpcs (rpcTable h) i = Some n" and "settled s = n"
  shows "table_inv (record_settlement i
    ((rpcTable h)\<lparr>pendingRpcs := (pendingRpcs (rpcTable h))(i := None)\<rparr>, Some s) h)" (is "table_inv ?h")
proof -
  have p: "n < made h \<and> i = id_of n \<and> n \<notin> (settled \<circ> snd) ` set (history h)"
    using assms(1,2) by (simp add: table_inv_def pending_ok_def)
  have "m \<noteq> n" if "j \<noteq> i" "pendingRpcs (rpcTable h) j = Some m" for j m
    using that assms(1) p by (auto simp: table_inv_def pending_ok_def)
  then have "pending_ok ?h"
    using assms(1,3) by (simp add: table_inv_def pending_ok_def record_settlement_def)
  moreover have "history_ok ?h"
    using assms(1,3) p by (simp add: table_inv_def history_ok_def record_settlement_def)
  ultimately show ?thesis using assms(1) by (simp add: table_inv_def record_settlement_def)
qed

lemma table_inv_none: "table_inv h \<Longrightarrow> table_inv (record_settlement i (rpcTable h, None) h)"
  by (simp add: record_settlement_def)

lemma table_inv_step: "table_inv h \<Longrightarrow> table_inv (table_step x h)"
proof (cases x)
  case (ResolveRpc w v)
  then show "table_inv h \<Longrightarrow> ?thesis"
    by (cases "pendingRpcs (rpcTable h) (sint w)")
      (simp_all add: resolveRpc_def table_inv_none table_inv_settle)
next
  case (RejectRpc w v)
  then show "table_inv h \<Longrightarrow> ?thesis"
    by (cases "pendingRpcs (rpcTable h) (sint w)")
      (simp_all add: rejectRpc_def table_inv_none table_inv_settle)
next
  case (OnEvent e f)
  then show "table_inv h \<Longrightarrow> ?thesis"
    by (simp add: table_inv_def pending_ok_def history_ok_def host_on_def)
next
  case ResetTable
  then show "table_inv h \<Longrightarrow> ?thesis" by (simp add: table_inv_def pending_ok_def history_ok_def reset_prelude_def)
qed (simp only: table_inv_make)

lemma table_inv_run: "table_inv (table_run ops)"
proof -
  have "table_inv h \<Longrightarrow> table_inv (fold table_step ops h)" for h :: "'a rpc_history"
    by (induction ops arbitrary: h) (simp_all add: table_inv_step del: table_step.simps)
  from this [OF table_inv_init] show ?thesis by (simp add: table_run_def)
qed

text \<open>
  C24. Whatever a script, the host and resets do in whatever order: no RPC promise is settled twice,
  and a promise is settled only under its own identifier, the low 31 bits of its number of creation
  (counted from 1, up to \<open>2^53\<close>), so answers never reach a promise of another identifier.
\<close>

theorem promises_settled_once:
  "distinct (map (settled \<circ> snd) (history (table_run ops))) \<and>
   list_all (\<lambda>x. settled (snd x) < made (table_run ops) \<and> fst x = id_of (settled (snd x))) (history (table_run ops))"
  using table_inv_run [of ops] by (simp only: table_inv_def history_ok_def)

end
