(* ===== verification/Guest_Tracking.thy ===== *)
theory Guest_Tracking
  imports Guest_Prelude Guest_Alloc
begin

text \<open>
  The state of the guest and the Rust code QuickJS calls back while it runs JavaScript:
  \<open>kafig-runtime/src/tracking.rs\<close> and the closures of \<open>init.rs\<close> (the interrupt handler, the tracker of
  rejections, the native functions behind \<open>host.rpc\<close> and \<open>host.rpcSync\<close>). QuickJS itself is not in the
  repository: its heap and queue of jobs are a value of any type \<open>'e\<close>, and what it does between
  two calls of this code is any change of that value.
\<close>

subsection \<open>State\<close>

text \<open>
  The statics of \<open>tracking.rs\<close>, the monotonic clock behind \<open>Instant\<close> in nanoseconds, the closure of
  \<open>prelude.js\<close>, QuickJS, and the host, whose state the imports act on.
\<close>

record ('p, 'f, 'e, 'h) guest_rt =
  OPCODE_COUNT :: u64
  EXEC_START :: "nat option"
  CPU_ELAPSED_US :: u64
  DRAINING :: bool
  INITIALIZED :: bool
  USED_RPC_CALLS :: bool
  FORCE_INTERRUPT :: bool
  NEXT_CHECK :: u64
  clock :: nat
  jsPrelude :: "('p, 'f) prelude_state"
  quickjs :: 'e
  host :: 'h

definition CHECK_INTERVAL :: u64 where "CHECK_INTERVAL = 1"

text \<open>The statics before anything ran, and the closure after the prelude did.\<close>

definition fresh_guest :: "'e \<Rightarrow> 'h \<Rightarrow> ('p, 'f, 'e, 'h) guest_rt" where
  "fresh_guest e h = \<lparr>OPCODE_COUNT = 0, EXEC_START = None, CPU_ELAPSED_US = 0, DRAINING = False,
     INITIALIZED = False, USED_RPC_CALLS = False, FORCE_INTERRUPT = False, NEXT_CHECK = CHECK_INTERVAL,
     clock = 0, jsPrelude = prelude_init, quickjs = e, host = h\<rparr>"

text \<open>
  The host imports, on the texts the pointers denote. \<open>import_rpc_sync\<close> answers with a packed
  pointer and length; the buffer behind it lies in the memory of the guest, which is reached through
  the host's state too: the last four are plain reads and writes of it and \<open>alloc\<close> and \<open>dealloc\<close> of
  \<open>alloc.rs\<close>.
\<close>

record 'h guest_imports =
  import_should_interrupt :: "u64 \<Rightarrow> u64 \<Rightarrow> 'h \<Rightarrow> 'h \<times> u32"
  import_promise_rejection :: "string \<Rightarrow> 'h \<Rightarrow> 'h \<times> u32"
  import_rpc :: "string \<Rightarrow> string \<Rightarrow> u32 \<Rightarrow> 'h \<Rightarrow> 'h"
  import_rpc_sync :: "string \<Rightarrow> string \<Rightarrow> 'h \<Rightarrow> 'h \<times> u64"
  import_set_result :: "string \<Rightarrow> bool \<Rightarrow> 'h \<Rightarrow> 'h"
  buffer_read :: "'h \<Rightarrow> u32 \<Rightarrow> u32 \<Rightarrow> string option"
  buffer_write :: "'h \<Rightarrow> u32 \<Rightarrow> string \<Rightarrow> 'h"
  buffer_alloc :: "'h \<Rightarrow> u32 \<Rightarrow> 'h \<times> u32"
  buffer_free :: "'h \<Rightarrow> u32 \<Rightarrow> u32 \<Rightarrow> 'h"

subsection \<open>\<open>tracking.rs\<close>\<close>

text \<open>\<open>start.elapsed().as_micros() as u64\<close>, with an elapsed time that never is negative.\<close>

definition elapsed_us :: "nat \<Rightarrow> nat \<Rightarrow> u64" where
  "elapsed_us start t = of_nat ((t - start) div 1000)"

definition sample_elapsed_us :: "('p, 'f, 'e, 'h) guest_rt \<Rightarrow> ('p, 'f, 'e, 'h) guest_rt \<times> u64" where
  "sample_elapsed_us g =
     (case EXEC_START g of
        Some start \<Rightarrow> (let e = elapsed_us start (clock g) in (g\<lparr>CPU_ELAPSED_US := e\<rparr>, e))
      | None \<Rightarrow> (g, CPU_ELAPSED_US g))"

definition get_opcode_count :: "('p, 'f, 'e, 'h) guest_rt \<Rightarrow> u64" where
  "get_opcode_count g = OPCODE_COUNT g"

definition get_cpu_time_us :: "('p, 'f, 'e, 'h) guest_rt \<Rightarrow> ('p, 'f, 'e, 'h) guest_rt \<times> u64" where
  "get_cpu_time_us g = sample_elapsed_us g"

definition reset_execution_stats :: "('p, 'f, 'e, 'h) guest_rt \<Rightarrow> ('p, 'f, 'e, 'h) guest_rt" where
  "reset_execution_stats g =
     g\<lparr>OPCODE_COUNT := 0, CPU_ELAPSED_US := 0, EXEC_START := None, NEXT_CHECK := CHECK_INTERVAL\<rparr>"

subsection \<open>The closures of \<open>init.rs\<close>\<close>

text \<open>The interrupt handler: its answer tells QuickJS whether to stop the script.\<close>

definition interrupt_handler ::
  "'h guest_imports \<Rightarrow> ('p, 'f, 'e, 'h) guest_rt \<Rightarrow> ('p, 'f, 'e, 'h) guest_rt \<times> bool" where
  "interrupt_handler I g =
     (if DRAINING g \<or> FORCE_INTERRUPT g then (g, True)
      else let g1 = g\<lparr>OPCODE_COUNT := OPCODE_COUNT g + 10000\<rparr> in
        if \<not> INITIALIZED g1 \<or> OPCODE_COUNT g1 < NEXT_CHECK g1 then (g1, False)
        else let g2 = g1\<lparr>NEXT_CHECK := OPCODE_COUNT g1 + CHECK_INTERVAL\<rparr> in
          (case sample_elapsed_us g2 of (g3, elapsed) \<Rightarrow>
           (case import_should_interrupt I (OPCODE_COUNT g3) elapsed (host g3) of (h, r) \<Rightarrow>
             (g3\<lparr>host := h\<rparr>, r \<noteq> 0))))"

text \<open>
  A thrown value as rquickjs shows it: an exception, with the parts that can be read, or another
  value, with its text when it is a string. \<open>exception_parts\<close> is what \<open>extract_exception\<close> of \<open>error.rs\<close>
  and the tracker of rejections make of it.
\<close>

datatype js_thrown = Exception "string option" "string option" "string option" | NonError "string option"

definition unwrap_or :: "string \<Rightarrow> string option \<Rightarrow> string" where
  "unwrap_or d x = (case x of Some s \<Rightarrow> s | None \<Rightarrow> d)"

fun exception_parts :: "js_thrown \<Rightarrow> string \<times> string \<times> string option" where
  "exception_parts (Exception msg name stack) =
     (unwrap_or ''unknown error'' msg, unwrap_or ''Error'' name, stack)"
| "exception_parts (NonError s) = (unwrap_or ''unknown error'' s, ''Error'', None)"

definition rejection_tracker ::
  "'h guest_imports \<Rightarrow> js_thrown \<Rightarrow> bool \<Rightarrow> ('p, 'f, 'e, 'h) guest_rt \<Rightarrow> ('p, 'f, 'e, 'h) guest_rt" where
  "rejection_tracker I reason is_handled g =
     (if is_handled then g
      else case exception_parts reason of (msg, name, stack) \<Rightarrow>
        (case import_promise_rejection I (build_js_error_json name msg stack) (host g) of (h, r) \<Rightarrow>
           let g1 = g\<lparr>host := h\<rparr> in if r \<noteq> 0 then g1\<lparr>FORCE_INTERRUPT := True\<rparr> else g1))"

definition host_rpc_native ::
  "'h guest_imports \<Rightarrow> string \<Rightarrow> string \<Rightarrow> u32 \<Rightarrow> ('p, 'f, 'e, 'h) guest_rt \<Rightarrow> ('p, 'f, 'e, 'h) guest_rt" where
  "host_rpc_native I m params_json i g =
     (let g1 = g\<lparr>USED_RPC_CALLS := True\<rparr> in g1\<lparr>host := import_rpc I m params_json i (host g1)\<rparr>)"

text \<open>
  A native function returns a string, throws an \<open>Error\<close> with a message, or the guest traps: on a
  buffer outside its memory, or on one too short to hold the tag.
\<close>

datatype native = NReturns string | NThrows string | NTraps

definition host_rpc_sync_native ::
  "'h guest_imports \<Rightarrow> string \<Rightarrow> string \<Rightarrow> ('p, 'f, 'e, 'h) guest_rt \<Rightarrow> ('p, 'f, 'e, 'h) guest_rt \<times> native" where
  "host_rpc_sync_native I m params_json g =
     (case import_rpc_sync I m params_json (host g) of (h, packed) \<Rightarrow>
       (let g1 = g\<lparr>host := h\<rparr> in
        if packed = 0 then (g1, NThrows ''sync RPC: method not found or internal error'')
        else
          let ptr = packed_ptr packed; n = of_nat (packed_len packed) in
          (case buffer_read I h ptr n of
             Some (tag # json_str) \<Rightarrow>
               (let g2 = g1\<lparr>host := buffer_free I h ptr n\<rparr> in
                (g2, if tag = CHR 0x01 then NThrows json_str else NReturns json_str))
           | _ \<Rightarrow> (g1, NTraps))))"

definition report :: "'h guest_imports \<Rightarrow> string \<times> bool \<Rightarrow> ('p, 'f, 'e, 'h) guest_rt \<Rightarrow> ('p, 'f, 'e, 'h) guest_rt" where
  "report I r g = g\<lparr>host := import_set_result I (fst r) (snd r) (host g)\<rparr>"

subsection \<open>A script that runs\<close>

text \<open>
  What may happen while QuickJS runs, step by step: its own work, which takes time, a call of
  \<open>host.rpc\<close> (which enters the promise first and then calls the native function), \<open>host.on\<close>, the
  other closures, a report by the callbacks of a promise, and the globals \<open>__resolve_rpc\<close>,
  \<open>__reject_rpc\<close> and \<open>__reset\<close> of \<open>prelude.js\<close>, which a script can call with any arguments
  (\<open>__dispatch_event\<close> only reads the table of handlers and calls one, which is work). The relation
  counts the calls of the interrupt handler.
\<close>

inductive script_run ::
  "'h guest_imports \<Rightarrow> nat \<Rightarrow> ('p, 'f, 'e, 'h) guest_rt \<Rightarrow> ('p, 'f, 'e, 'h) guest_rt \<Rightarrow> bool" for I where
  idle: "script_run I 0 g g"
| work: "script_run I n g g1 \<Longrightarrow> clock g1 \<le> t \<Longrightarrow> script_run I n g (g1\<lparr>clock := t, quickjs := e\<rparr>)"
| enter: "script_run I n g g1 \<Longrightarrow> script_run I n g (g1\<lparr>jsPrelude := fst (enterRpc p (jsPrelude g1))\<rparr>)"
| on: "script_run I n g g1 \<Longrightarrow> script_run I n g (g1\<lparr>jsPrelude := host_on name f (jsPrelude g1)\<rparr>)"
| resolve: "script_run I n g g1 \<Longrightarrow> script_run I n g (g1\<lparr>jsPrelude := fst (resolveRpc i v (jsPrelude g1))\<rparr>)"
| reject: "script_run I n g g1 \<Longrightarrow> script_run I n g (g1\<lparr>jsPrelude := fst (rejectRpc i v (jsPrelude g1))\<rparr>)"
| table_reset: "script_run I n g g1 \<Longrightarrow> script_run I n g (g1\<lparr>jsPrelude := reset_prelude (jsPrelude g1)\<rparr>)"
| rpc: "script_run I n g g1 \<Longrightarrow> script_run I n g (host_rpc_native I m ps i g1)"
| rpc_sync: "script_run I n g g1 \<Longrightarrow> script_run I n g (fst (host_rpc_sync_native I m ps g1))"
| rejection: "script_run I n g g1 \<Longrightarrow> script_run I n g (rejection_tracker I r b g1)"
| reporting: "script_run I n g g1 \<Longrightarrow> script_run I n g (report I x g1)"
| handler: "script_run I n g g1 \<Longrightarrow> script_run I (Suc n) g (fst (interrupt_handler I g1))"

text \<open>What no step touches, and what only grows.\<close>

lemma sample_fields [simp]:
  "EXEC_START (fst (sample_elapsed_us g)) = EXEC_START g" "DRAINING (fst (sample_elapsed_us g)) = DRAINING g"
  "INITIALIZED (fst (sample_elapsed_us g)) = INITIALIZED g" "clock (fst (sample_elapsed_us g)) = clock g"
  "FORCE_INTERRUPT (fst (sample_elapsed_us g)) = FORCE_INTERRUPT g" "host (fst (sample_elapsed_us g)) = host g"
  "OPCODE_COUNT (fst (sample_elapsed_us g)) = OPCODE_COUNT g" "NEXT_CHECK (fst (sample_elapsed_us g)) = NEXT_CHECK g"
  "jsPrelude (fst (sample_elapsed_us g)) = jsPrelude g" "quickjs (fst (sample_elapsed_us g)) = quickjs g"
  "USED_RPC_CALLS (fst (sample_elapsed_us g)) = USED_RPC_CALLS g"
  by (simp_all add: sample_elapsed_us_def Let_def split: option.splits)

lemmas closures = host_rpc_native_def host_rpc_sync_native_def rejection_tracker_def report_def interrupt_handler_def

text \<open>What a closure does to the host: one import, or nothing.\<close>

lemma host_closures:
  "host (host_rpc_native I m ps i g) = import_rpc I m ps i (host g)"
  "host (report I x g) = import_set_result I (fst x) (snd x) (host g)"
  "\<exists>e. host (rejection_tracker I r b g) = (if b then host g else fst (import_promise_rejection I e (host g)))"
  "\<exists>n t. host (fst (interrupt_handler I g)) \<in> {host g, fst (import_should_interrupt I n t (host g))}"
  "\<exists>p k. host (fst (host_rpc_sync_native I m ps g)) \<in>
     {fst (import_rpc_sync I m ps (host g)), buffer_free I (fst (import_rpc_sync I m ps (host g))) p k}"
proof -
  show "\<exists>n t. host (fst (interrupt_handler I g)) \<in> {host g, fst (import_should_interrupt I n t (host g))}"
    unfolding interrupt_handler_def Let_def split_beta by (auto simp: sample_fields)
  show "\<exists>p k. host (fst (host_rpc_sync_native I m ps g)) \<in>
     {fst (import_rpc_sync I m ps (host g)), buffer_free I (fst (import_rpc_sync I m ps (host g))) p k}"
    unfolding host_rpc_sync_native_def Let_def split_beta by (auto split: option.split list.split)
qed (auto simp: host_rpc_native_def report_def rejection_tracker_def Let_def split_beta)

definition fixed_parts :: "('p, 'f, 'e, 'h) guest_rt \<Rightarrow> nat option \<times> bool \<times> bool" where
  "fixed_parts g = (EXEC_START g, DRAINING g, INITIALIZED g)"

lemma fixed_parts_closures [simp]:
  "fixed_parts (host_rpc_native I m ps i g) = fixed_parts g"
  "fixed_parts (fst (host_rpc_sync_native I m ps g)) = fixed_parts g"
  "fixed_parts (rejection_tracker I r b g) = fixed_parts g"
  "fixed_parts (report I x g) = fixed_parts g"
  "fixed_parts (fst (interrupt_handler I g)) = fixed_parts g"
  by (auto simp: fixed_parts_def closures Let_def split_beta split: prod.splits option.splits list.splits)

lemma script_run_fixed: "script_run I n g g' \<Longrightarrow> fixed_parts g' = fixed_parts g"
  by (induction rule: script_run.induct) (simp_all, simp_all add: fixed_parts_def)

text \<open>A host that never answers a rejection with an interrupt never has one forced.\<close>

lemma force_closures [simp]:
  "FORCE_INTERRUPT (host_rpc_native I m ps i g) = FORCE_INTERRUPT g"
  "FORCE_INTERRUPT (fst (host_rpc_sync_native I m ps g)) = FORCE_INTERRUPT g"
  "FORCE_INTERRUPT (report I x g) = FORCE_INTERRUPT g"
  "FORCE_INTERRUPT (fst (interrupt_handler I g)) = FORCE_INTERRUPT g"
  by (auto simp: closures Let_def split_beta split: prod.splits option.splits list.splits)

lemma script_run_force:
  assumes "\<forall>e h. snd (import_promise_rejection I e h) = 0"
  shows "script_run I n g g' \<Longrightarrow> FORCE_INTERRUPT g' = FORCE_INTERRUPT g"
  by (induction rule: script_run.induct)
    (use assms in \<open>simp_all add: rejection_tracker_def Let_def split_beta\<close>)

lemma clock_closures [simp]:
  "clock (host_rpc_native I m ps i g) = clock g"
  "clock (fst (host_rpc_sync_native I m ps g)) = clock g"
  "clock (rejection_tracker I r b g) = clock g"
  "clock (report I x g) = clock g"
  "clock (fst (interrupt_handler I g)) = clock g"
  by (auto simp: closures Let_def split_beta split: prod.splits option.splits list.splits)

lemma script_run_clock: "script_run I n g g' \<Longrightarrow> clock g \<le> clock g'"
  by (induction rule: script_run.induct) simp_all

lemma script_run_trans: "script_run I m g1 g2 \<Longrightarrow> script_run I n g g1 \<Longrightarrow> script_run I (n + m) g g2"
  by (induction rule: script_run.induct) (auto intro: script_run.intros)

end
