(* ===== verification/Guest_Eval.thy ===== *)
theory Guest_Eval
  imports Guest_Tracking
begin

text \<open>
  The exports of the guest that run JavaScript and how they report: \<open>kafig-runtime/src/eval.rs\<close>,
  \<open>dispatch.rs\<close>, \<open>rpc.rs\<close>, \<open>result.rs\<close>, \<open>discard_stale_state\<close> of \<open>tracking.rs\<close> and the exports of \<open>init.rs\<close>.
  QuickJS is a parameter: a record of the operations used, each a function
  of the whole state of the guest, as most of them may run JavaScript, which calls the closures of
  \<open>Guest_Tracking\<close>. An export that traps or never returns is \<^const>\<open>None\<close>.
\<close>

subsection \<open>QuickJS\<close>

text \<open>
  \<open>js_then\<close> attaches \<open>promise_resolve_cb\<close> and \<open>promise_reject_cb\<close> below to a promise, to run as a job.
  A value that was thrown is given the way \<open>extract_exception\<close> reads it. A call from Rust returns a
  value, throws, or fails in another way, with the text of the error.
\<close>

datatype 'v call_result = Value 'v | Threw js_thrown | Failed string

datatype stringified = StrException | StrUndefined | StrText "string option"

record ('v, 'p, 'f, 'e, 'h) quickjs_api =
  js_eval :: "string \<Rightarrow> bool \<Rightarrow> ('p, 'f, 'e, 'h) guest_rt \<Rightarrow> ('p, 'f, 'e, 'h) guest_rt \<times> (js_thrown + 'v)"
  js_compile :: "string \<Rightarrow> bool \<Rightarrow> ('p, 'f, 'e, 'h) guest_rt \<Rightarrow> ('p, 'f, 'e, 'h) guest_rt \<times> (js_thrown + string option)"
  js_read_object :: "string \<Rightarrow> ('p, 'f, 'e, 'h) guest_rt \<Rightarrow> ('p, 'f, 'e, 'h) guest_rt \<times> (js_thrown + 'v)"
  js_eval_function :: "'v \<Rightarrow> ('p, 'f, 'e, 'h) guest_rt \<Rightarrow> ('p, 'f, 'e, 'h) guest_rt \<times> (js_thrown + 'v)"
  js_truthy :: "'f \<Rightarrow> bool"
  js_new_error :: "string \<Rightarrow> js_thrown"
  js_syntax_error :: "string \<Rightarrow> js_thrown"
  js_call :: "'f \<Rightarrow> string \<Rightarrow> ('p, 'f, 'e, 'h) guest_rt \<Rightarrow> ('p, 'f, 'e, 'h) guest_rt \<times> 'v call_result"
  js_stringify :: "'v \<Rightarrow> ('p, 'f, 'e, 'h) guest_rt \<Rightarrow> ('p, 'f, 'e, 'h) guest_rt \<times> stringified"
  js_is_promise :: "'v \<Rightarrow> ('p, 'f, 'e, 'h) guest_rt \<Rightarrow> bool"
  js_then :: "'v \<Rightarrow> ('p, 'f, 'e, 'h) guest_rt \<Rightarrow> ('p, 'f, 'e, 'h) guest_rt"
  js_settle :: "'p settlement \<Rightarrow> ('p, 'f, 'e, 'h) guest_rt \<Rightarrow> ('p, 'f, 'e, 'h) guest_rt \<times> string option"
  js_job :: "('p, 'f, 'e, 'h) guest_rt \<Rightarrow> ('p, 'f, 'e, 'h) guest_rt \<times> bool"
  js_catch :: "('p, 'f, 'e, 'h) guest_rt \<Rightarrow> ('p, 'f, 'e, 'h) guest_rt"
  js_is_object :: "'v \<Rightarrow> bool"
  js_text :: "'v \<Rightarrow> string option"
  js_has_property :: "'v \<Rightarrow> string \<Rightarrow> ('p, 'f, 'e, 'h) guest_rt \<Rightarrow> ('p, 'f, 'e, 'h) guest_rt \<times> bool"
  js_get_property :: "'v \<Rightarrow> string \<Rightarrow> ('p, 'f, 'e, 'h) guest_rt \<Rightarrow> ('p, 'f, 'e, 'h) guest_rt \<times> 'v"
  js_limit :: "u32 \<Rightarrow> 'e \<Rightarrow> 'e"

text \<open>\<open>while ctx.execute_pending_job() {}\<close>\<close>

partial_function (option) run_jobs :: "('g \<Rightarrow> 'g \<times> bool) \<Rightarrow> 'g \<Rightarrow> 'g option" where
  "run_jobs job g = (case job g of (g', again) \<Rightarrow> if again then run_jobs job g' else Some g')"

declare run_jobs.simps [code]

subsection \<open>Initialisation\<close>

text \<open>
  \<open>wizer.initialize\<close>, with the QuickJS runtime and context it creates: the limit of its heap is set, the
  prelude runs and the jobs it leaves; the closures are those of \<open>Guest_Tracking\<close>. Until the first call
  has set \<open>INITIALIZED\<close>, the handler does not ask the host, which does not exist yet.
\<close>

definition JS_MEMORY_LIMIT :: u32 where "JS_MEMORY_LIMIT = 32 * 1024 * 1024"

definition wizer_initialize ::
  "('v, 'p, 'f, 'e, 'h) quickjs_api \<Rightarrow> 'e \<Rightarrow> 'h \<Rightarrow> ('p, 'f, 'e, 'h) guest_rt option" where
  "wizer_initialize Q e h = run_jobs (js_job Q) (fresh_guest (js_limit Q JS_MEMORY_LIMIT e) h)"

definition set_memory_limit ::
  "('v, 'p, 'f, 'e, 'h) quickjs_api \<Rightarrow> u32 \<Rightarrow> ('p, 'f, 'e, 'h) guest_rt \<Rightarrow> ('p, 'f, 'e, 'h) guest_rt" where
  "set_memory_limit Q limit g = g\<lparr>quickjs := js_limit Q limit (quickjs g)\<rparr>"

lemma handler_before_first_call:
  "\<not> INITIALIZED g \<Longrightarrow> host (fst (interrupt_handler I g)) = host g"
  by (simp add: interrupt_handler_def Let_def)

subsection \<open>\<open>discard_stale_state\<close>\<close>

definition discard_stale_state ::
  "('v, 'p, 'f, 'e, 'h) quickjs_api \<Rightarrow> ('p, 'f, 'e, 'h) guest_rt \<Rightarrow> ('p, 'f, 'e, 'h) guest_rt option" where
  "discard_stale_state Q g =
     (let g1 = g\<lparr>FORCE_INTERRUPT := False, INITIALIZED := True\<rparr> in
      if \<not> USED_RPC_CALLS g1 then Some g1
      else do {
        let g2 = g1\<lparr>USED_RPC_CALLS := False\<rparr>;
        g3 \<leftarrow> run_jobs (js_job Q) (g2\<lparr>DRAINING := True\<rparr>);
        let g4 = (js_catch Q g3)\<lparr>DRAINING := False, OPCODE_COUNT := OPCODE_COUNT g2,
          CPU_ELAPSED_US := CPU_ELAPSED_US g2, EXEC_START := EXEC_START g2, NEXT_CHECK := NEXT_CHECK g2\<rparr>;
        Some (g4\<lparr>jsPrelude := reset_prelude (jsPrelude g4)\<rparr>)
      })"

subsection \<open>\<open>result.rs\<close>\<close>

definition send_result_value ::
  "('v, 'p, 'f, 'e, 'h) quickjs_api \<Rightarrow> 'h guest_imports \<Rightarrow> 'v \<Rightarrow> ('p, 'f, 'e, 'h) guest_rt \<Rightarrow> ('p, 'f, 'e, 'h) guest_rt" where
  "send_result_value Q I v g =
     (case js_stringify Q v g of (g1, json) \<Rightarrow>
        (case json of
           StrException \<Rightarrow> report I (''null'', False) g1
         | StrUndefined \<Rightarrow> report I (''null'', False) g1
         | StrText None \<Rightarrow> report I (''null'', False) g1
         | StrText (Some t) \<Rightarrow> report I (t, False) g1))"

definition extract_js_string_prop ::
  "('v, 'p, 'f, 'e, 'h) quickjs_api \<Rightarrow> 'v \<Rightarrow> string \<Rightarrow> string \<Rightarrow> ('p, 'f, 'e, 'h) guest_rt \<Rightarrow> ('p, 'f, 'e, 'h) guest_rt \<times> string" where
  "extract_js_string_prop Q v prop fallback g =
     (case js_get_property Q v prop g of (g1, x) \<Rightarrow>
        (g1, case js_text Q x of Some t \<Rightarrow> if valid_utf8 t then t else fallback | None \<Rightarrow> fallback))"

text \<open>The callbacks attached to the promise of an asynchronous call.\<close>

definition promise_resolve_cb ::
  "('v, 'p, 'f, 'e, 'h) quickjs_api \<Rightarrow> 'h guest_imports \<Rightarrow> 'v \<Rightarrow> ('p, 'f, 'e, 'h) guest_rt \<Rightarrow> ('p, 'f, 'e, 'h) guest_rt" where
  "promise_resolve_cb Q I v g =
     (if js_is_object Q v
      then (case js_has_property Q v ''value'' g of (g1, has) \<Rightarrow>
             if has then (case js_get_property Q v ''value'' g1 of (g2, inner) \<Rightarrow> send_result_value Q I inner g2)
             else send_result_value Q I v g1)
      else send_result_value Q I v g)"

definition promise_reject_cb ::
  "('v, 'p, 'f, 'e, 'h) quickjs_api \<Rightarrow> 'h guest_imports \<Rightarrow> 'v \<Rightarrow> ('p, 'f, 'e, 'h) guest_rt \<Rightarrow> ('p, 'f, 'e, 'h) guest_rt" where
  "promise_reject_cb Q I v g =
     (case (case js_text Q v of
              Some t \<Rightarrow> (g, if valid_utf8 t then t else ''unknown error'')
            | None \<Rightarrow> if js_is_object Q v then extract_js_string_prop Q v ''message'' ''unknown error'' g
                      else (g, ''unknown error'')) of
        (g1, msg) \<Rightarrow>
      (case extract_js_string_prop Q v ''name'' ''Error'' g1 of (g2, name) \<Rightarrow>
      (case extract_js_string_prop Q v ''stack'' '''' g2 of (g3, stack) \<Rightarrow>
         report I (send_exception name msg (if stack = '''' then None else Some stack)) g3)))"

definition process_eval_result ::
  "('v, 'p, 'f, 'e, 'h) quickjs_api \<Rightarrow> 'h guest_imports \<Rightarrow> bool \<Rightarrow> 'v \<Rightarrow> ('p, 'f, 'e, 'h) guest_rt \<Rightarrow> ('p, 'f, 'e, 'h) guest_rt" where
  "process_eval_result Q I is_async v g =
     (if is_async \<and> js_is_promise Q v g then js_then Q v g else send_result_value Q I v g)"

subsection \<open>Exports that run a script\<close>

text \<open>The frame of every such export: the clock starts, the body runs, the time is sampled.\<close>

definition timed ::
  "(('p, 'f, 'e, 'h) guest_rt \<Rightarrow> ('p, 'f, 'e, 'h) guest_rt option) \<Rightarrow> ('p, 'f, 'e, 'h) guest_rt \<Rightarrow> ('p, 'f, 'e, 'h) guest_rt option" where
  "timed body g = do {
     g1 \<leftarrow> body (g\<lparr>EXEC_START := Some (clock g)\<rparr>);
     Some ((fst (sample_elapsed_us g1))\<lparr>EXEC_START := None\<rparr>)
   }"

definition send_thrown :: "js_thrown \<Rightarrow> string \<times> bool" where
  "send_thrown t = (case exception_parts t of (msg, name, stack) \<Rightarrow> send_exception name msg stack)"

definition jobs_if :: "('v, 'p, 'f, 'e, 'h) quickjs_api \<Rightarrow> bool \<Rightarrow> ('p, 'f, 'e, 'h) guest_rt \<Rightarrow> ('p, 'f, 'e, 'h) guest_rt option" where
  "jobs_if Q is_async g = (if is_async then run_jobs (js_job Q) g else Some g)"

text \<open>A Rust panic (here of \<open>expect\<close>, for a source that is not UTF-8) traps.\<close>

definition guest_eval ::
  "('v, 'p, 'f, 'e, 'h) quickjs_api \<Rightarrow> 'h guest_imports \<Rightarrow> string \<Rightarrow> bool \<Rightarrow> ('p, 'f, 'e, 'h) guest_rt \<Rightarrow> ('p, 'f, 'e, 'h) guest_rt option" where
  "guest_eval Q I source is_async g = do {
     g1 \<leftarrow> discard_stale_state Q g;
     timed (\<lambda>g2.
       if \<not> valid_utf8 source then None
       else if CHR 0x00 \<in> set source
       then Some (report I (send_runtime_error ''runtime_error'' ''eval: source contains null byte'') g2)
       else (case js_eval Q source is_async g2 of
               (g3, Inl t) \<Rightarrow> jobs_if Q is_async (report I (send_thrown t) g3)
             | (g3, Inr v) \<Rightarrow> jobs_if Q is_async (process_eval_result Q I is_async v g3))) g1
   }"

text \<open>\<open>compile\<close> gives a packed pointer and length, 0 on failure.\<close>

definition guest_compile ::
  "('v, 'p, 'f, 'e, 'h) quickjs_api \<Rightarrow> 'h guest_imports \<Rightarrow> string \<Rightarrow> bool \<Rightarrow> ('p, 'f, 'e, 'h) guest_rt \<Rightarrow>
     (('p, 'f, 'e, 'h) guest_rt \<times> u64) option" where
  "guest_compile Q I source is_async g =
     (let fail = (\<lambda>m g. Some (report I (send_runtime_error ''runtime_error'' (''compile: '' @ m)) g, 0)) in
      if \<not> valid_utf8 source then None
      else if CHR 0x00 \<in> set source then fail ''source contains null byte'' g
      else (case js_compile Q source is_async g of
              (g1, Inl t) \<Rightarrow> fail (fst (exception_parts t)) g1
            | (g1, Inr None) \<Rightarrow> fail ''JS_WriteObject failed'' g1
            | (g1, Inr (Some bytecode)) \<Rightarrow>
                (case buffer_alloc I (host g1) (of_nat (length bytecode)) of (h, ptr) \<Rightarrow>
                   if ptr = 0 then fail ''alloc failed for bytecode'' (g1\<lparr>host := h\<rparr>)
                   else Some (g1\<lparr>host := buffer_write I h ptr bytecode\<rparr>,
                          push_bit 32 (ucast ptr) OR ucast (of_nat (length bytecode) :: u32)))))"

definition guest_eval_compiled ::
  "('v, 'p, 'f, 'e, 'h) quickjs_api \<Rightarrow> 'h guest_imports \<Rightarrow> string \<Rightarrow> bool \<Rightarrow> ('p, 'f, 'e, 'h) guest_rt \<Rightarrow> ('p, 'f, 'e, 'h) guest_rt option" where
  "guest_eval_compiled Q I bytecode is_async g = do {
     g1 \<leftarrow> discard_stale_state Q g;
     timed (\<lambda>g2.
       (case js_read_object Q bytecode g2 of
          (g3, Inl t) \<Rightarrow> Some (report I (send_runtime_error ''runtime_error'' (''eval_compiled: '' @ fst (exception_parts t))) g3)
        | (g3, Inr obj) \<Rightarrow>
            (case js_eval_function Q obj g3 of
               (g4, Inl t) \<Rightarrow> Some (report I (send_thrown t) g4)
             | (g4, Inr v) \<Rightarrow> jobs_if Q is_async (process_eval_result Q I is_async v g4)))) g1
   }"

text \<open>\<open>dispatchEvent\<close> of \<open>prelude.js\<close>, called from Rust.\<close>

definition dispatchEvent ::
  "('v, 'p, 'f, 'e, 'h) quickjs_api \<Rightarrow> string \<Rightarrow> string \<Rightarrow> ('p, 'f, 'e, 'h) guest_rt \<Rightarrow> ('p, 'f, 'e, 'h) guest_rt \<times> 'v call_result" where
  "dispatchEvent Q name paramsJson g =
     (let missing = (g, Threw (js_new_error Q (''No handler registered for event: '' @ name))) in
      case eventHandlers (jsPrelude g) name of
        None \<Rightarrow> missing
      | Some handler \<Rightarrow>
          if \<not> js_truthy Q handler then missing
          else if parse_json paramsJson = None then (g, Threw (js_syntax_error Q paramsJson))
          else js_call Q handler paramsJson g)"

definition str_or :: "string \<Rightarrow> string \<Rightarrow> string" where
  \<comment> \<open>\<open>from_utf8(bytes).unwrap_or(d)\<close>\<close>
  "str_or d bytes = (if valid_utf8 bytes then bytes else d)"

definition guest_dispatch_event ::
  "('v, 'p, 'f, 'e, 'h) quickjs_api \<Rightarrow> 'h guest_imports \<Rightarrow> string \<Rightarrow> string \<Rightarrow> bool \<Rightarrow> ('p, 'f, 'e, 'h) guest_rt \<Rightarrow> ('p, 'f, 'e, 'h) guest_rt option" where
  "guest_dispatch_event Q I name0 params0 is_async g = do {
     g1 \<leftarrow> discard_stale_state Q g;
     timed (\<lambda>g2.
       (case dispatchEvent Q (str_or '''' name0) (str_or ''null'' params0) g2 of
          (g3, Value v) \<Rightarrow> jobs_if Q is_async (process_eval_result Q I is_async v g3)
        | (g3, Threw t) \<Rightarrow> jobs_if Q is_async (report I (send_thrown t) g3)
        | (g3, Failed e) \<Rightarrow> jobs_if Q is_async
            (report I (send_runtime_error ''runtime_error'' (''dispatch_event error: '' @ e)) g3))) g1
   }"

subsection \<open>\<open>rpc.rs\<close>\<close>

datatype settlement_kind = Resolving | Rejecting

fun settlement_name :: "settlement_kind \<Rightarrow> string" where
  "settlement_name Resolving = ''__resolve_rpc''"
| "settlement_name Rejecting = ''__reject_rpc''"

fun settlement_of :: "settlement_kind \<Rightarrow> int \<Rightarrow> string \<Rightarrow> ('p, 'f) prelude_state \<Rightarrow> ('p, 'f) prelude_state \<times> 'p settlement option" where
  "settlement_of Resolving = resolveRpc"
| "settlement_of Rejecting = rejectRpc"

definition call_js_rpc_settlement ::
  "('v, 'p, 'f, 'e, 'h) quickjs_api \<Rightarrow> 'h guest_imports \<Rightarrow> settlement_kind \<Rightarrow> u32 \<Rightarrow> string \<Rightarrow>
     ('p, 'f, 'e, 'h) guest_rt \<Rightarrow> ('p, 'f, 'e, 'h) guest_rt option" where
  "call_js_rpc_settlement Q I k i payload0 =
     timed (\<lambda>g.
       (case settlement_of k (sint i) (str_or ''null'' payload0) (jsPrelude g) of (t, s) \<Rightarrow>
          (let g1 = g\<lparr>jsPrelude := t\<rparr> in
           case (case s of None \<Rightarrow> (g1, None) | Some x \<Rightarrow> js_settle Q x g1) of
             (g2, None) \<Rightarrow> run_jobs (js_job Q) g2
           | (g2, Some e) \<Rightarrow>
               Some (report I (send_runtime_error ''runtime_error'' (settlement_name k @ '' error: '' @ e)) g2))))"

definition resolve_rpc where "resolve_rpc Q I = call_js_rpc_settlement Q I Resolving"
definition reject_rpc where "reject_rpc Q I = call_js_rpc_settlement Q I Rejecting"

subsection \<open>\<open>host.rpc\<close> and \<open>host.rpcSync\<close>\<close>

text \<open>
  \<open>makeRpcPromise\<close>: the promise is entered, then the arguments are converted to strings
  (\<open>JSON.stringify\<close> may run code of the script, and may fail, which rejects the promise without
  the host hearing of it), then the host is called.
\<close>

definition makeRpcPromise ::
  "'h guest_imports \<Rightarrow> 'p \<Rightarrow> (('p, 'f, 'e, 'h) guest_rt \<Rightarrow> ('p, 'f, 'e, 'h) guest_rt \<times> (string \<times> string) option) \<Rightarrow>
     ('p, 'f, 'e, 'h) guest_rt \<Rightarrow> ('p, 'f, 'e, 'h) guest_rt" where
  "makeRpcPromise I p convert g =
     (case enterRpc p (jsPrelude g) of (t, i) \<Rightarrow>
       (case convert (g\<lparr>jsPrelude := t\<rparr>) of
          (g1, None) \<Rightarrow> g1
        | (g1, Some (m, params_json)) \<Rightarrow> host_rpc_native I m params_json (of_int i) g1))"

text \<open>The value of a JSON text, or what is thrown; the guest traps when the native function does.\<close>

datatype sync_result = SyncValue string | SyncThrows js_thrown | SyncTraps

definition rpcSync ::
  "('v, 'p, 'f, 'e, 'h) quickjs_api \<Rightarrow> 'h guest_imports \<Rightarrow> string \<Rightarrow> string \<Rightarrow> ('p, 'f, 'e, 'h) guest_rt \<Rightarrow>
     ('p, 'f, 'e, 'h) guest_rt \<times> sync_result" where
  "rpcSync Q I m params_json g =
     (case host_rpc_sync_native I m params_json g of
        (g1, NReturns t) \<Rightarrow> (g1, if parse_json t = None then SyncThrows (js_syntax_error Q t) else SyncValue t)
      | (g1, NThrows e) \<Rightarrow> (g1, SyncThrows (js_new_error Q e))
      | (g1, NTraps) \<Rightarrow> (g1, SyncTraps))"

end
