(* ===== verification/Guest_Spec.thy ===== *)
theory Guest_Spec
  imports Guest_Eval
begin

text \<open>
  The guest's exports on any QuickJS that touches the guest only through the closures it was given:
  the time they account for and the stale state they discard.
\<close>

subsection \<open>What an operation of QuickJS may do\<close>

definition runs :: "'h guest_imports \<Rightarrow> ('p, 'f, 'e, 'h) guest_rt \<Rightarrow> ('p, 'f, 'e, 'h) guest_rt \<Rightarrow> bool" where
  "runs I g g' = (\<exists>n. script_run I n g g')"

text \<open>
  The hypothesis on the engine: all it does to the guest is to run the closures it was given, in any
  order and number, besides its own work. The statics are not reachable otherwise.
\<close>

definition engine_ok :: "('v, 'p, 'f, 'e, 'h) quickjs_api \<Rightarrow> 'h guest_imports \<Rightarrow> bool" where
  "engine_ok Q I =
     ((\<forall>s b g. runs I g (fst (js_eval Q s b g))) \<and> (\<forall>s b g. runs I g (fst (js_compile Q s b g))) \<and>
      (\<forall>s g. runs I g (fst (js_read_object Q s g))) \<and> (\<forall>v g. runs I g (fst (js_eval_function Q v g))) \<and>
      (\<forall>f p g. runs I g (fst (js_call Q f p g))) \<and> (\<forall>v g. runs I g (fst (js_stringify Q v g))) \<and>
      (\<forall>v g. runs I g (js_then Q v g)) \<and> (\<forall>s g. runs I g (fst (js_settle Q s g))) \<and>
      (\<forall>g. runs I g (fst (js_job Q g))) \<and> (\<forall>g. runs I g (js_catch Q g)) \<and>
      (\<forall>v n g. runs I g (fst (js_has_property Q v n g))) \<and> (\<forall>v n g. runs I g (fst (js_get_property Q v n g))))"

named_theorems drives "operations that are runs"

lemma engine_drives [drives]:
  assumes "engine_ok Q I"
  shows "js_eval Q s b g = (g', r1) \<Longrightarrow> runs I g g'" "js_compile Q s b g = (g', r2) \<Longrightarrow> runs I g g'"
    "js_read_object Q s g = (g', r3) \<Longrightarrow> runs I g g'" "js_eval_function Q v g = (g', r3) \<Longrightarrow> runs I g g'"
    "js_call Q f p g = (g', r4) \<Longrightarrow> runs I g g'" "js_stringify Q v g = (g', r5) \<Longrightarrow> runs I g g'"
    "runs I g (js_then Q v g)" "js_settle Q x g = (g', r6) \<Longrightarrow> runs I g g'"
    "js_job Q g = (g', r7) \<Longrightarrow> runs I g g'" "runs I g (js_catch Q g)"
    "js_has_property Q v n g = (g', r7) \<Longrightarrow> runs I g g'" "js_get_property Q v n g = (g', v') \<Longrightarrow> runs I g g'"
  using assms unfolding engine_ok_def by (metis fst_conv)+

lemma runs_refl [drives]: "runs I g g"
  unfolding runs_def by (rule exI [of _ 0]) (rule script_run.idle)

lemma runs_trans: "runs I g g1 \<Longrightarrow> runs I g1 g2 \<Longrightarrow> runs I g g2"
  unfolding runs_def by (blast intro: script_run_trans)

lemma runs_report [drives]: "runs I g (report I x g)"
  unfolding runs_def by (rule exI [of _ 0]) (rule script_run.reporting [OF script_run.idle])

lemma runs_reported: "runs I g g1 \<Longrightarrow> runs I g (report I x g1)"
  by (rule runs_trans [OF _ runs_report])

lemma runs_fixed: "runs I g g' \<Longrightarrow> fixed_parts g' = fixed_parts g"
  unfolding runs_def by (blast dest: script_run_fixed)

lemma runs_clock: "runs I g g' \<Longrightarrow> clock g \<le> clock g'"
  unfolding runs_def by (blast dest: script_run_clock)

lemma runs_jobs:
  assumes ret: "run_jobs job g = Some g'" and step: "\<And>g g' b. job g = (g', b) \<Longrightarrow> runs I g g'"
  shows "runs I g g'"
proof -
  have "job = job \<longrightarrow> runs I g g'"
  proof (rule run_jobs.raw_induct [where P = "\<lambda>j g g'. j = job \<longrightarrow> runs I g g'", OF _ ret])
    fix f j g g'
    assume IH: "\<And>j g g'. f j g = Some g' \<Longrightarrow> j = job \<longrightarrow> runs I g g'"
      and eq: "(case j g of (g', again) \<Rightarrow> if again then f j g' else Some g') = Some g'"
    obtain g1 b where j: "j g = (g1, b)" by (cases "j g")
    show "j = job \<longrightarrow> runs I g g'"
      using j eq IH [of j g1 g'] step [of g g1 b] by (cases b) (auto intro: runs_trans)
  qed
  then show ?thesis by simp
qed

lemma runs_jobs_if: "engine_ok Q I \<Longrightarrow> jobs_if Q b g = Some g' \<Longrightarrow> runs I g g'"
  unfolding jobs_if_def by (auto intro: runs_jobs [of "js_job Q"] drives split: if_splits)

lemma runs_send [drives]: "engine_ok Q I \<Longrightarrow> runs I g (send_result_value Q I v g)"
  unfolding send_result_value_def
  by (auto intro!: runs_reported intro: drives split: prod.split stringified.split option.split)

lemma runs_process [drives]: "engine_ok Q I \<Longrightarrow> runs I g (process_eval_result Q I b v g)"
  unfolding process_eval_result_def by (auto intro: drives)

text \<open>The callbacks of a promise, which QuickJS runs as jobs, are runs as the hypothesis says.\<close>

lemma runs_resolve_cb:
  assumes "engine_ok Q I"
  shows "runs I g (promise_resolve_cb Q I v g)"
proof -
  obtain g1 has where h: "js_has_property Q v ''value'' g = (g1, has)" by fastforce
  obtain g2 inner where i: "js_get_property Q v ''value'' g1 = (g2, inner)" by fastforce
  have r: "runs I g g1" "runs I g1 g2" by (rule engine_drives(11) [OF assms h], rule engine_drives(12) [OF assms i])
  show ?thesis
    using r runs_send [OF assms] by (auto simp: promise_resolve_cb_def h i intro: runs_trans)
qed

lemma runs_string_prop: "engine_ok Q I \<Longrightarrow> extract_js_string_prop Q v n d g = (g', t) \<Longrightarrow> runs I g g'"
  unfolding extract_js_string_prop_def by (auto intro: drives split: prod.splits)

lemma runs_reject_cb:
  assumes "engine_ok Q I"
  shows "runs I g (promise_reject_cb Q I v g)"
proof -
  obtain g1 msg where m: "(case js_text Q v of
      Some t \<Rightarrow> (g, if valid_utf8 t then t else ''unknown error'')
    | None \<Rightarrow> if js_is_object Q v then extract_js_string_prop Q v ''message'' ''unknown error'' g
              else (g, ''unknown error'')) = (g1, msg)" (is "?m = _") by fastforce
  obtain g2 name where n: "extract_js_string_prop Q v ''name'' ''Error'' g1 = (g2, name)" by fastforce
  obtain g3 stack where t: "extract_js_string_prop Q v ''stack'' '''' g2 = (g3, stack)" by fastforce
  have "runs I g g1"
    using m by (auto intro: runs_refl runs_string_prop [OF assms] split: option.splits if_splits)
  moreover have "runs I g1 g2" "runs I g2 g3" by (rule runs_string_prop [OF assms n], rule runs_string_prop [OF assms t])
  ultimately have "runs I g g3" by (blast intro: runs_trans)
  then show ?thesis unfolding promise_reject_cb_def m by (simp add: n t runs_reported)
qed

subsection \<open>Time\<close>

lemma timed_result:
  assumes "timed body g = Some g'"
    and "\<And>g2. body (g\<lparr>EXEC_START := Some (clock g)\<rparr>) = Some g2 \<Longrightarrow>
      fixed_parts g2 = fixed_parts (g\<lparr>EXEC_START := Some (clock g)\<rparr>)"
  shows "fixed_parts g' = (None, DRAINING g, INITIALIZED g)"
    and "get_cpu_time_us g' = (g', elapsed_us (clock g) (clock g'))"
proof -
  obtain g2 where b: "body (g\<lparr>EXEC_START := Some (clock g)\<rparr>) = Some g2"
    and g': "g' = (fst (sample_elapsed_us g2))\<lparr>EXEC_START := None\<rparr>"
    using assms(1) by (auto simp: timed_def elim!: bind_SomeE)
  have f: "EXEC_START g2 = Some (clock g)" "DRAINING g2 = DRAINING g" "INITIALIZED g2 = INITIALIZED g"
    using assms(2) [OF b] by (simp_all add: fixed_parts_def)
  then show "fixed_parts g' = (None, DRAINING g, INITIALIZED g)"
    by (simp add: g' fixed_parts_def)
  show "get_cpu_time_us g' = (g', elapsed_us (clock g) (clock g'))"
    using f by (simp add: g' get_cpu_time_us_def sample_elapsed_us_def Let_def)
qed

text \<open>The bodies of the exports are runs.\<close>

lemma eval_body_runs:
  assumes "engine_ok Q I"
    and "(if \<not> valid_utf8 source then None
       else if CHR 0x00 \<in> set source then Some (report I x g)
       else (case js_eval Q source b g of
               (g3, Inl t) \<Rightarrow> jobs_if Q b (report I (send_thrown t) g3)
             | (g3, Inr v) \<Rightarrow> jobs_if Q b (process_eval_result Q I b v g3))) = Some g2"
  shows "runs I g g2"
proof -
  obtain g3 r where e: "js_eval Q source b g = (g3, r)" by fastforce
  have "runs I g g3" by (rule engine_drives(1) [OF assms(1) e])
  then have r3: "runs I g (report I y g3)" "runs I g (process_eval_result Q I b v g3)" for y v
    by (rule runs_reported, rule runs_trans) (rule runs_process [OF assms(1)])
  have jobs: "jobs_if Q b h = Some g2 \<Longrightarrow> runs I g h \<Longrightarrow> runs I g g2" for h
    by (blast intro: runs_trans runs_jobs_if [OF assms(1)])
  show ?thesis
    using assms(2) by (auto simp: e runs_report split: if_splits sum.splits intro: jobs r3)
qed

lemma settlement_body_fixed:
  assumes "engine_ok Q I"
    and "(case settlement_of k j p (jsPrelude g) of (t, s) \<Rightarrow>
          (let g1 = g\<lparr>jsPrelude := t\<rparr> in
           case (case s of None \<Rightarrow> (g1, None) | Some x \<Rightarrow> js_settle Q x g1) of
             (g2, None) \<Rightarrow> run_jobs (js_job Q) g2
           | (g2, Some e) \<Rightarrow> Some (report I (m e) g2))) = Some g'"
  shows "fixed_parts g' = fixed_parts g"
proof -
  obtain t s where t: "settlement_of k j p (jsPrelude g) = (t, s)" by fastforce
  let ?g1 = "g\<lparr>jsPrelude := t\<rparr>"
  obtain g2 r where r: "(case s of None \<Rightarrow> (?g1, None) | Some x \<Rightarrow> js_settle Q x ?g1) = (g2, r)" by fastforce
  have "runs I ?g1 g2"
    using r runs_refl engine_drives(8) [OF assms(1)] by (auto split: option.splits)
  moreover have "runs I g2 g'"
    using assms(2)
    by (auto simp: t r Let_def runs_report split: option.splits
        intro: runs_jobs [of "js_job Q"] engine_drives(9) [OF assms(1)])
  ultimately have "fixed_parts g' = fixed_parts ?g1" by (blast dest: runs_trans runs_fixed)
  then show ?thesis by (simp add: fixed_parts_def)
qed

subsection \<open>A small engine\<close>

text \<open>
  An engine on which hypotheses can be seen to hold: evaluating takes 5 ms and gives a promise,
  settling takes 3 ms, no job is left. The host ignores everything.
\<close>

definition tick :: "nat \<Rightarrow> ('p, 'f, 'e, 'h) guest_rt \<Rightarrow> ('p, 'f, 'e, 'h) guest_rt" where
  "tick d g = g\<lparr>clock := clock g + d\<rparr>"

definition sample_quickjs :: "(unit, 'p, unit, 'e, 'h) quickjs_api" where
  "sample_quickjs = \<lparr>js_eval = (\<lambda>s b g. (tick 5000000 g, Inr ())), js_compile = (\<lambda>s b g. (g, Inr None)),
     js_read_object = (\<lambda>s g. (g, Inr ())), js_eval_function = (\<lambda>v g. (g, Inr ())),
     js_truthy = (\<lambda>f. True), js_new_error = (\<lambda>m. Exception (Some m) None None),
     js_syntax_error = (\<lambda>t. Exception None (Some ''SyntaxError'') None),
     js_call = (\<lambda>f p g. (tick 5000000 g, Value ())), js_stringify = (\<lambda>v g. (g, StrUndefined)),
     js_is_promise = (\<lambda>v g. True), js_then = (\<lambda>v g. g), js_settle = (\<lambda>x g. (tick 3000000 g, None)),
     js_job = (\<lambda>g. (g, False)), js_catch = (\<lambda>g. g), js_is_object = (\<lambda>v. False), js_text = (\<lambda>v. None),
     js_has_property = (\<lambda>v n g. (g, False)), js_get_property = (\<lambda>v n g. (g, ())),
     js_limit = (\<lambda>n e. e)\<rparr>"

lemma runs_tick: "runs I g (tick d g)"
proof -
  have "runs I g (g\<lparr>clock := clock g + d, quickjs := quickjs g\<rparr>)"
    unfolding runs_def by (rule exI [of _ 0]) (rule script_run.work [OF script_run.idle], simp)
  then show ?thesis by (simp add: tick_def)
qed

lemma sample_engine_ok: "engine_ok sample_quickjs I"
  by (simp add: engine_ok_def sample_quickjs_def runs_tick runs_refl)

definition sample_imports :: "unit guest_imports" where
  "sample_imports = \<lparr>import_should_interrupt = (\<lambda>n t h. (h, 0)), import_promise_rejection = (\<lambda>e h. (h, 0)),
     import_rpc = (\<lambda>m p i h. h), import_rpc_sync = (\<lambda>m p h. (h, 0)), import_set_result = (\<lambda>r e h. h),
     buffer_read = (\<lambda>h p n. None), buffer_write = (\<lambda>h p s. h), buffer_alloc = (\<lambda>h n. (h, 0)),
     buffer_free = (\<lambda>h p n. h)\<rparr>"

subsection \<open>Stale state\<close>

lemma runs_force: "runs I g g' \<Longrightarrow> \<forall>e h. snd (import_promise_rejection I e h) = 0 \<Longrightarrow>
    FORCE_INTERRUPT g' = FORCE_INTERRUPT g"
  unfolding runs_def by (blast dest: script_run_force)

lemma discard_fixed:
  assumes "engine_ok Q I" and "discard_stale_state Q g = Some g'" and "\<not> DRAINING g"
  shows "fixed_parts g' = (EXEC_START g, False, True) \<and> clock g \<le> clock g' \<and>
    ((\<forall>e h. snd (import_promise_rejection I e h) = 0) \<longrightarrow> \<not> FORCE_INTERRUPT g')"
proof (cases "USED_RPC_CALLS g")
  case False
  then show ?thesis using assms(2,3) by (auto simp: discard_stale_state_def fixed_parts_def Let_def)
next
  case True
  let ?g2 = "g\<lparr>FORCE_INTERRUPT := False, INITIALIZED := True, USED_RPC_CALLS := False, DRAINING := True\<rparr>"
  obtain g3 where d: "run_jobs (js_job Q) ?g2 = Some g3"
    and g': "g' = (let g4 = (js_catch Q g3)\<lparr>DRAINING := False, OPCODE_COUNT := OPCODE_COUNT g,
          CPU_ELAPSED_US := CPU_ELAPSED_US g, EXEC_START := EXEC_START g, NEXT_CHECK := NEXT_CHECK g\<rparr>
        in g4\<lparr>jsPrelude := reset_prelude (jsPrelude g4)\<rparr>)"
    using assms(2) True by (auto simp: discard_stale_state_def Let_def elim!: bind_SomeE)
  have "runs I ?g2 g3" by (rule runs_jobs [OF d engine_drives(9) [OF assms(1)]])
  then have r: "runs I ?g2 (js_catch Q g3)" by (rule runs_trans) (rule engine_drives(10) [OF assms(1)])
  from runs_fixed [OF r] runs_clock [OF r] runs_force [OF r] show ?thesis
    by (simp add: g' fixed_parts_def Let_def)
qed


lemma run_jobs_sample: "run_jobs (js_job sample_quickjs) g = Some g"
  by (subst run_jobs.simps) (simp add: sample_quickjs_def)


text \<open>
  The exception is real: with an engine in which a stale promise is rejected during the drain, and a
  host whose handler answers that with an interrupt, the new execution starts with a forced
  interrupt, and the first call of the interrupt handler stops its script.
\<close>

definition rejecting_imports :: "unit guest_imports" where
  "rejecting_imports = sample_imports\<lparr>import_promise_rejection := (\<lambda>e h. (h, 1))\<rparr>"

definition rejecting_quickjs :: "(unit, 'p, unit, 'e, unit) quickjs_api" where
  "rejecting_quickjs = sample_quickjs\<lparr>js_catch := rejection_tracker rejecting_imports (NonError None) False\<rparr>"

lemma rejecting_engine_ok: "engine_ok (rejecting_quickjs :: (unit, 'p, unit, 'e, unit) quickjs_api) rejecting_imports"
proof -
  have "runs rejecting_imports g (rejection_tracker rejecting_imports r b g)" for r b and g :: "('p, unit, 'e, unit) guest_rt"
    unfolding runs_def by (rule exI [of _ 0]) (rule script_run.rejection [OF script_run.idle])
  then show ?thesis by (simp add: engine_ok_def rejecting_quickjs_def sample_quickjs_def runs_tick runs_refl)
qed

lemma drain_forces_interrupt:
  "\<exists>g'. discard_stale_state rejecting_quickjs ((fresh_guest () () :: (nat, unit, unit, unit) guest_rt)\<lparr>USED_RPC_CALLS := True\<rparr>) = Some g' \<and>
     FORCE_INTERRUPT g' \<and> interrupt_handler rejecting_imports g' = (g', True)"
proof -
  have "run_jobs (js_job sample_quickjs) g = Some g" for g :: "(nat, unit, unit, unit) guest_rt"
    by (rule run_jobs_sample)
  then show ?thesis
    by (simp add: discard_stale_state_def Let_def rejecting_quickjs_def rejection_tracker_def
        rejecting_imports_def interrupt_handler_def split_beta)
qed

text \<open>
  C14. The CPU time of an execution is that of its last segment only: when a script awaits an RPC, the
  time reported after its answer counts from that answer, whatever time the script took before.
\<close>

theorem cpu_time_of_last_segment:
  assumes "engine_ok Q I" and "\<not> DRAINING g" and "guest_eval Q I source b g = Some g1"
    and "call_js_rpc_settlement Q I k i payload (g1\<lparr>clock := t\<rparr>) = Some g2"
  shows "(\<exists>t0 \<ge> clock g. get_cpu_time_us g1 = (g1, elapsed_us t0 (clock g1))) \<and>
    get_cpu_time_us g2 = (g2, elapsed_us t (clock g2))"
proof -
  obtain g0 where d: "discard_stale_state Q g = Some g0" and e: "timed (\<lambda>g2.
       if \<not> valid_utf8 source then None
       else if CHR 0x00 \<in> set source
       then Some (report I (send_runtime_error ''runtime_error'' ''eval: source contains null byte'') g2)
       else (case js_eval Q source b g2 of
               (g3, Inl t) \<Rightarrow> jobs_if Q b (report I (send_thrown t) g3)
             | (g3, Inr v) \<Rightarrow> jobs_if Q b (process_eval_result Q I b v g3))) g0 = Some g1"
    using assms(3) unfolding guest_eval_def by (erule bind_SomeE)
  have "get_cpu_time_us g1 = (g1, elapsed_us (clock g0) (clock g1))"
    by (rule timed_result(2) [OF e]) (blast dest: eval_body_runs [OF assms(1)] runs_fixed)
  moreover have "clock g \<le> clock g0" using discard_fixed [OF assms(1) d assms(2)] by simp
  moreover have "get_cpu_time_us g2 = (g2, elapsed_us (clock (g1\<lparr>clock := t\<rparr>)) (clock g2))"
    by (rule timed_result(2) [OF assms(4) [unfolded call_js_rpc_settlement_def]])
      (rule settlement_body_fixed [OF assms(1)])
  ultimately show ?thesis by auto
qed

lemma quickjs_simps:
  "js_eval sample_quickjs s b g = (tick 5000000 g, Inr ())" "js_is_promise sample_quickjs v g"
  "js_then sample_quickjs v g = g" "js_settle sample_quickjs x g = (tick 3000000 g, None)"
  by (simp_all add: sample_quickjs_def)

theorem cpu_time_of_last_segment_witness:
  "\<exists>(g :: (nat, unit, unit, unit) guest_rt) g1 g2. pendingRpcs (jsPrelude g) 1 = Some 7 \<and>
     guest_eval sample_quickjs sample_imports ''f()'' True g = Some g1 \<and>
     get_cpu_time_us g1 = (g1, 5000) \<and>
     call_js_rpc_settlement sample_quickjs sample_imports Resolving 1 ''null'' (g1\<lparr>clock := 70000000\<rparr>) = Some g2 \<and>
     get_cpu_time_us g2 = (g2, 3000)"
proof -
  let ?g = "(fresh_guest () ())\<lparr>jsPrelude := fst (enterRpc (7 :: nat) prelude_init)\<rparr>"
  have p: "pendingRpcs (jsPrelude ?g) 1 = Some 7"
    by (simp add: enterRpc_def Let_def rpc_id_def prelude_init_def)
  obtain g1 where e: "guest_eval sample_quickjs sample_imports ''f()'' True ?g = Some g1"
    and c1: "clock g1 = 5000000" "CPU_ELAPSED_US g1 = 5000" "EXEC_START g1 = None" "jsPrelude g1 = jsPrelude ?g"
    by (simp add: guest_eval_def discard_stale_state_def timed_def fresh_guest_def Let_def valid_utf8_simps
        quickjs_simps process_eval_result_def jobs_if_def run_jobs_sample tick_def sample_elapsed_us_def elapsed_us_def)
  have p1: "pendingRpcs (jsPrelude g1) 1 = Some 7" using p c1(4) by simp
  obtain g2 where s: "call_js_rpc_settlement sample_quickjs sample_imports Resolving 1 ''null'' (g1\<lparr>clock := 70000000\<rparr>) = Some g2"
    and c2: "clock g2 = 73000000"
    by (simp add: p1 call_js_rpc_settlement_def timed_def resolveRpc_def str_or_def valid_utf8_simps
        quickjs_simps run_jobs_sample tick_def Let_def)
  have "\<not> DRAINING ?g" by (simp add: fresh_guest_def)
  from cpu_time_of_last_segment [OF sample_engine_ok this e s] c1 c2
  have "get_cpu_time_us g1 = (g1, 5000)" "get_cpu_time_us g2 = (g2, 3000)"
    by (simp_all add: get_cpu_time_us_def sample_elapsed_us_def elapsed_us_def)
  with p e s show ?thesis by blast
qed

end
