(* ===== verification/Guest_Host.thy ===== *)
theory Guest_Host
  imports Guest_Spec Session_Spec Boundary
begin

text \<open>
  The guest and the host together: the imports of an instance of \<open>kafig-go\<close> behind the closures of the
  guest. Limits that stop a script, reports that always come, RPCs that go out and come back.
\<close>

subsection \<open>The imports of an instance\<close>

text \<open>
  A text the guest passes lies at some address of its memory (\<open>place\<close>). Another goroutine may have
  called \<open>Interrupt\<close> since the last import.
\<close>

definition instance_imports ::
  "'g wasm \<Rightarrow> 'w host_env \<Rightarrow> (('g, 'w) inst \<Rightarrow> string \<Rightarrow> u32) \<Rightarrow> ('g, 'w) inst guest_imports" where
  "instance_imports M E place =
     \<lparr>import_should_interrupt = (\<lambda>n t s. hostShouldInterrupt n t (asyncSignals E s)),
      import_promise_rejection = (\<lambda>e s. let s1 = asyncSignals E s in
        hostPromiseRejection M (place s1 e) (of_nat (length e)) s1),
      import_rpc = (\<lambda>m p i s. let s1 = asyncSignals E s in
        hostRPC M (place s1 m) (of_nat (length m)) (place s1 p) (of_nat (length p)) i s1),
      import_rpc_sync = (\<lambda>m p s. let s1 = asyncSignals E s in
        hostRPCSync M E (place s1 m) (of_nat (length m)) (place s1 p) (of_nat (length p)) s1),
      import_set_result = (\<lambda>r e s. let s1 = asyncSignals E s in
        hostSetResult M (place s1 r) (of_nat (length r)) (if e then 1 else 0) s1),
      buffer_read = (\<lambda>s p n. memRead M (guest s) p n),
      buffer_write = (\<lambda>s p d. s\<lparr>guest := memWrite M (guest s) p d\<rparr>),
      buffer_alloc = (\<lambda>s n. case fnAlloc M (guest s) (ucast n) of
        (g, Inl e) \<Rightarrow> (s\<lparr>guest := g\<rparr>, 0) | (g, Inr p) \<Rightarrow> (s\<lparr>guest := g\<rparr>, ucast p)),
      buffer_free = (\<lambda>s p n. s\<lparr>guest := fnDealloc M (guest s) (ucast p) (ucast n)\<rparr>)\<rparr>"

lemma instance_imports_simps [simp]:
  "import_should_interrupt (instance_imports M E place) n t s = hostShouldInterrupt n t (asyncSignals E s)"
  "buffer_read (instance_imports M E place) s p k = memRead M (guest s) p k"
  "buffer_free (instance_imports M E place) s p k = s\<lparr>guest := fnDealloc M (guest s) (ucast p) (ucast k)\<rparr>"
  by (simp_all add: instance_imports_def)

text \<open>Each import is one of the calls of the host model, after the signals.\<close>

lemma instance_imports_calls:
  shows "\<exists>hc. fst (import_should_interrupt (instance_imports M E place) n t s) = fst (host_import M E hc (asyncSignals E s))"
    and "\<exists>hc. fst (import_promise_rejection (instance_imports M E place) e s) = fst (host_import M E hc (asyncSignals E s))"
    and "\<exists>hc. import_rpc (instance_imports M E place) m p i s = fst (host_import M E hc (asyncSignals E s))"
    and "\<exists>hc. fst (import_rpc_sync (instance_imports M E place) m p s) = fst (host_import M E hc (asyncSignals E s))"
    and "\<exists>hc. import_set_result (instance_imports M E place) r b s = fst (host_import M E hc (asyncSignals E s))"
  unfolding instance_imports_def Let_def guest_imports.simps
  by (rule exI [of _ "CallShouldInterrupt n t"], simp add: split_beta,
      rule exI [of _ "CallPromiseRejection (place (asyncSignals E s) e) (of_nat (length e))"], simp add: split_beta,
      rule exI [of _ "CallRPC (place (asyncSignals E s) m) (of_nat (length m)) (place (asyncSignals E s) p) (of_nat (length p)) i"], simp add: split_beta,
      rule exI [of _ "CallRPCSync (place (asyncSignals E s) m) (of_nat (length m)) (place (asyncSignals E s) p) (of_nat (length p))"], simp add: split_beta,
      rule exI [of _ "CallSetResult (place (asyncSignals E s) r) (of_nat (length r)) (if b then 1 else 0)"], simp add: split_beta)

text \<open>So an invariant of the host is one of a script that runs.\<close>

context run_invariant
begin

lemma imports_keep:
  assumes "P s"
  shows "P (fst (import_should_interrupt (instance_imports M E place) n t s))"
    and "P (fst (import_promise_rejection (instance_imports M E place) e s))"
    and "P (import_rpc (instance_imports M E place) m p i s)"
    and "P (fst (import_rpc_sync (instance_imports M E place) m p s))"
    and "P (import_set_result (instance_imports M E place) r b s)"
proof -
  have k: "P (fst (host_import M E hc (asyncSignals E s)))" for hc
    by (rule keeps_import [OF keeps_signals [OF assms]])
  show "P (fst (import_should_interrupt (instance_imports M E place) n t s))"
    using instance_imports_calls(1) [of M E place n t s] k by (elim exE) (simp only:)
  show "P (fst (import_promise_rejection (instance_imports M E place) e s))"
    using instance_imports_calls(2) [of M E place e s] k by (elim exE) (simp only:)
  show "P (import_rpc (instance_imports M E place) m p i s)"
    using instance_imports_calls(3) [of M E place m p i s] k by (elim exE) (simp only:)
  show "P (fst (import_rpc_sync (instance_imports M E place) m p s))"
    using instance_imports_calls(4) [of M E place m p s] k by (elim exE) (simp only:)
  show "P (import_set_result (instance_imports M E place) r b s)"
    using instance_imports_calls(5) [of M E place r b s] k by (elim exE) (simp only:)
qed

lemma closures_keep:
  assumes "P (host g)"
  shows "P (host (host_rpc_native (instance_imports M E place) m ps i g))"
    and "P (host (fst (host_rpc_sync_native (instance_imports M E place) m ps g)))"
    and "P (host (rejection_tracker (instance_imports M E place) r b g))"
    and "P (host (report (instance_imports M E place) x g))"
    and "P (host (fst (interrupt_handler (instance_imports M E place) g)))"
proof -
  let ?I = "instance_imports M E place"
  note keep = imports_keep [OF assms, where place = place]
  show "P (host (host_rpc_native ?I m ps i g))" "P (host (report ?I x g))"
    by (simp_all only: host_closures keep)
  show "P (host (fst (host_rpc_sync_native ?I m ps g)))"
    using host_closures(5) [of ?I m ps g] keep(4) [of m ps] by (elim exE insertE) (simp_all add: keeps_guest)
  show "P (host (rejection_tracker ?I r b g))"
    using host_closures(3) [of ?I r b g] keep(2) assms by (elim exE) simp
  show "P (host (fst (interrupt_handler ?I g)))"
    using host_closures(4) [of ?I g] keep(1) assms by (elim exE insertE) (simp_all del: instance_imports_simps)
qed

lemma script_keeps: "script_run (instance_imports M E place) n g g' \<Longrightarrow> P (host g) \<Longrightarrow> P (host g')"
  by (induction rule: script_run.induct) (simp_all add: closures_keep)

end

subsection \<open>Limits\<close>

text \<open>
  Since the statistics were reset, the count of opcodes follows the calls of the handler, unless an
  interrupt is forced, which then is the answer of every call.
\<close>

lemma count_kept [simp]:
  "OPCODE_COUNT (host_rpc_native I m ps i g) = OPCODE_COUNT g" "NEXT_CHECK (host_rpc_native I m ps i g) = NEXT_CHECK g"
  "OPCODE_COUNT (fst (host_rpc_sync_native I m ps g)) = OPCODE_COUNT g"
  "NEXT_CHECK (fst (host_rpc_sync_native I m ps g)) = NEXT_CHECK g"
  "OPCODE_COUNT (rejection_tracker I r b g) = OPCODE_COUNT g" "NEXT_CHECK (rejection_tracker I r b g) = NEXT_CHECK g"
  "OPCODE_COUNT (report I x g) = OPCODE_COUNT g" "NEXT_CHECK (report I x g) = NEXT_CHECK g"
  "FORCE_INTERRUPT (host_rpc_native I m ps i g) = FORCE_INTERRUPT g"
  "FORCE_INTERRUPT (fst (host_rpc_sync_native I m ps g)) = FORCE_INTERRUPT g"
  "FORCE_INTERRUPT (report I x g) = FORCE_INTERRUPT g"
  "FORCE_INTERRUPT (fst (interrupt_handler I g)) = FORCE_INTERRUPT g"
  "FORCE_INTERRUPT g \<Longrightarrow> FORCE_INTERRUPT (rejection_tracker I r b g)"
  by (simp_all add: host_rpc_native_def report_def rejection_tracker_def Let_def split_beta)
    (simp_all add: host_rpc_sync_native_def interrupt_handler_def Let_def split_beta sample_fields
      split: option.split list.split)

definition counted :: "nat \<Rightarrow> ('p, 'f, 'e, 'h) guest_rt \<Rightarrow> bool" where
  "counted n g = (FORCE_INTERRUPT g \<or>
     OPCODE_COUNT g = of_nat (10000 * n) \<and> NEXT_CHECK g = of_nat (10000 * n) + CHECK_INTERVAL)"

lemma next_check:
  assumes "10000 * Suc n < 2 ^ 64"
  shows "\<not> (of_nat (10000 * n) + 10000 :: u64) < of_nat (10000 * n) + CHECK_INTERVAL"
    and "(of_nat (10000 * n) + 10000 :: u64) = of_nat (10000 * Suc n)"
    and "unat (of_nat (10000 * Suc n) :: u64) = 10000 * Suc n"
proof -
  show u: "unat (of_nat (10000 * Suc n) :: u64) = 10000 * Suc n"
    using assms by (simp only: unat_of_nat take_bit_nat_eq_self_iff [THEN iffD2] len_of_numeral_defs) (simp add: take_bit_nat_eq_self_iff)
  show e: "(of_nat (10000 * n) + 10000 :: u64) = of_nat (10000 * Suc n)" by simp
  have "(of_nat (10000 * n) + CHECK_INTERVAL :: u64) = of_nat (10000 * n + 1)" by (simp add: CHECK_INTERVAL_def)
  moreover have "unat (of_nat (10000 * n + 1) :: u64) = 10000 * n + 1"
    using assms by (simp add: unat_of_nat take_bit_nat_eq_self_iff del: of_nat_add of_nat_mult of_nat_Suc)
  ultimately show "\<not> (of_nat (10000 * n) + 10000 :: u64) < of_nat (10000 * n) + CHECK_INTERVAL"
    using u by (simp only: e word_less_nat_alt) simp
qed

lemma handler_asks:
  assumes "OPCODE_COUNT g = of_nat (10000 * n)" and "NEXT_CHECK g = of_nat (10000 * n) + CHECK_INTERVAL"
    and "10000 * Suc n < 2 ^ 64" and "\<not> DRAINING g" and "INITIALIZED g" and "\<not> FORCE_INTERRUPT g"
  shows "interrupt_handler I g =
    (let c = of_nat (10000 * Suc n); r = import_should_interrupt I c (snd (sample_elapsed_us g)) (host g)
     in ((fst (sample_elapsed_us g))\<lparr>OPCODE_COUNT := c, NEXT_CHECK := c + CHECK_INTERVAL, host := fst r\<rparr>, snd r \<noteq> 0))"
proof -
  note c = next_check [OF assms(3)]
  have s: "sample_elapsed_us (g\<lparr>OPCODE_COUNT := x, NEXT_CHECK := y\<rparr>)
      = ((fst (sample_elapsed_us g))\<lparr>OPCODE_COUNT := x, NEXT_CHECK := y\<rparr>, snd (sample_elapsed_us g))" for x y
    by (simp add: sample_elapsed_us_def Let_def split: option.split)
  show ?thesis
    using c(1) assms
    by (simp add: interrupt_handler_def Let_def split_beta s sample_fields c(2) del: of_nat_Suc of_nat_mult)
qed

lemma counted_handler:
  assumes "counted n g" and "10000 * Suc n < 2 ^ 64" and "\<not> DRAINING g" and "INITIALIZED g"
  shows "counted (Suc n) (fst (interrupt_handler I g))"
proof (cases "FORCE_INTERRUPT g")
  case False
  then show ?thesis
    using assms handler_asks [of g n I] by (simp add: counted_def Let_def del: of_nat_Suc of_nat_mult)
qed (simp add: counted_def)

lemma counted_run:
  assumes "script_run I n g g'" and "counted m g" and "\<not> DRAINING g" and "INITIALIZED g"
  shows "10000 * (m + n) < 2 ^ 64 \<Longrightarrow> counted (m + n) g'"
  using assms
proof (induction rule: script_run.induct)
  case (handler n g g1)
  have "fixed_parts g1 = fixed_parts g" using script_run_fixed handler.hyps by blast
  with handler counted_handler [of "m + n" g1] show ?case by (simp add: fixed_parts_def)
qed (auto simp: counted_def)

text \<open>
  An execution is more than one run: segments of the script, each with its own start, between which
  the host works (\<open>between\<close>) and time passes, and answers that settle promises. The count of handler
  calls goes through all of them.
\<close>

inductive execution :: "'h guest_imports \<Rightarrow> ('h \<Rightarrow> 'h \<Rightarrow> bool) \<Rightarrow> nat \<Rightarrow>
    ('p, 'f, 'e, 'h) guest_rt \<Rightarrow> ('p, 'f, 'e, 'h) guest_rt \<Rightarrow> bool" for I between where
  begins: "execution I between 0 g g"
| script: "execution I between n g g1 \<Longrightarrow> script_run I k g1 g2 \<Longrightarrow> execution I between (n + k) g g2"
| opens: "execution I between n g g1 \<Longrightarrow> execution I between n g (g1\<lparr>EXEC_START := Some (clock g1)\<rparr>)"
| answer: "execution I between n g g1 \<Longrightarrow>
    execution I between n g (g1\<lparr>jsPrelude := fst (settlement_of k i p (jsPrelude g1))\<rparr>)"
| closes: "execution I between n g g1 \<Longrightarrow> execution I between n g ((fst (sample_elapsed_us g1))\<lparr>EXEC_START := None\<rparr>)"
| waits: "execution I between n g g1 \<Longrightarrow> between (host g1) h \<Longrightarrow> clock g1 \<le> t \<Longrightarrow>
    execution I between n g (g1\<lparr>host := h, clock := t\<rparr>)"

lemma execution_runs: "execution I between n g g1 \<Longrightarrow> runs I g1 g2 \<Longrightarrow> \<exists>n. execution I between n g g2"
  unfolding runs_def by (blast intro: execution.script)

text \<open>The exports are parts of an execution.\<close>

lemma eval_execution:
  assumes "engine_ok Q I" and "discard_stale_state Q g = Some g0" and "guest_eval Q I source b g = Some g'"
  shows "\<exists>n. execution I between n g0 g'"
proof -
  let ?g = "g0\<lparr>EXEC_START := Some (clock g0)\<rparr>"
  obtain g1 where g1: "(if \<not> valid_utf8 source then None
       else if CHR 0x00 \<in> set source
       then Some (report I (send_runtime_error ''runtime_error'' ''eval: source contains null byte'') ?g)
       else (case js_eval Q source b ?g of
               (g3, Inl t) \<Rightarrow> jobs_if Q b (report I (send_thrown t) g3)
             | (g3, Inr v) \<Rightarrow> jobs_if Q b (process_eval_result Q I b v g3))) = Some g1"
    and g': "g' = (fst (sample_elapsed_us g1))\<lparr>EXEC_START := None\<rparr>"
    using assms(2,3) unfolding guest_eval_def timed_def by (auto elim!: bind_SomeE)
  have "runs I ?g g1" by (rule eval_body_runs [OF assms(1) g1])
  with execution.opens [OF execution.begins [of I between g0]] obtain n where "execution I between n g0 g1"
    using execution_runs by blast
  then show ?thesis unfolding g' by (blast intro: execution.closes)
qed

lemma settlement_execution:
  assumes "engine_ok Q I" and "call_js_rpc_settlement Q I k i payload g = Some g'"
  shows "\<exists>n. execution I between n g g'"
proof -
  let ?g = "g\<lparr>EXEC_START := Some (clock g)\<rparr>"
  let ?t = "settlement_of k (sint i) (str_or ''null'' payload) (jsPrelude ?g)"
  let ?g1 = "?g\<lparr>jsPrelude := fst ?t\<rparr>"
  obtain g2 r where r: "(case snd ?t of None \<Rightarrow> (?g1, None) | Some x \<Rightarrow> js_settle Q x ?g1) = (g2, r)" by fastforce
  obtain g3 where g3: "(case r of None \<Rightarrow> run_jobs (js_job Q) g2
      | Some e \<Rightarrow> Some (report I (send_runtime_error ''runtime_error'' (settlement_name k @ '' error: '' @ e)) g2)) = Some g3"
    and g': "g' = (fst (sample_elapsed_us g3))\<lparr>EXEC_START := None\<rparr>"
    using assms(2) r unfolding call_js_rpc_settlement_def timed_def
    by (auto simp: split_beta Let_def elim!: bind_SomeE split: option.splits)
  have "runs I ?g1 g2" using r runs_refl engine_drives(8) [OF assms(1)] by (auto split: option.splits)
  moreover have "runs I g2 g3"
    using g3 by (auto simp: runs_report split: option.splits intro: runs_jobs [of "js_job Q"] engine_drives(9) [OF assms(1)])
  ultimately have "runs I ?g1 g3" by (rule runs_trans)
  moreover have "execution I between 0 g ?g1"
    by (intro execution.answer execution.opens execution.begins)
  ultimately obtain n where "execution I between n g g3" using execution_runs by blast
  then show ?thesis unfolding g' by (blast intro: execution.closes)
qed

lemma counted_execution:
  assumes "execution I between n g g'" and "counted 0 g" and "\<not> DRAINING g" and "INITIALIZED g"
  shows "10000 * n < 2 ^ 64 \<Longrightarrow> counted n g' \<and> \<not> DRAINING g' \<and> INITIALIZED g'"
  using assms
proof (induction rule: execution.induct)
  case (script n g g1 k g2)
  then have "counted n g1 \<and> \<not> DRAINING g1 \<and> INITIALIZED g1" by simp
  with script.hyps(2) script.prems(1) show ?case
    using counted_run [OF script.hyps(2), of n] script_run_fixed [OF script.hyps(2)] by (simp add: fixed_parts_def)
qed (auto simp: counted_def)

text \<open>What the host does between two segments keeps the configuration of the instance.\<close>

definition between_exports :: "('g, 'w) inst \<Rightarrow> ('g, 'w) inst \<Rightarrow> bool" where
  "between_exports s s' = (inst_config s' = inst_config s)"

lemma execution_config:
  "execution (instance_imports M E place) between_exports n g g' \<Longrightarrow> inst_config (host g') = inst_config (host g)"
  by (induction rule: execution.induct)
    (simp_all add: between_exports_def, metis config_run.script_keeps)

text \<open>
  C3. The limits of the command line stop a script, over all segments of its execution: with the
  statistics reset before, the handler call after \<open>n\<close> earlier ones answers yes exactly when an
  interrupt is forced or was asked for on the host, or the \<open>10000 * (n + 1)\<close> opcodes it stands for
  exceed the limit, or the time since the start of the segment exceeds the limit; a limit of 0 is
  none.
\<close>

theorem limits_enforced:
  assumes "execution (instance_imports M E place) between_exports n (reset_execution_stats g) g'"
    and "INITIALIZED g" and "\<not> DRAINING g" and "interruptCallback (host g) = Some (cliInterrupt L)"
    and "EXEC_START g' = Some t" and "10000 * Suc n < 2 ^ 64"
  shows "snd (interrupt_handler (instance_imports M E place) g') =
    (FORCE_INTERRUPT g' \<or> interrupted (asyncSignals E (host g')) \<or>
     maxOpcodes L \<noteq> 0 \<and> unat (maxOpcodes L) < 10000 * Suc n \<or>
     maxCPUTimeUs L \<noteq> 0 \<and> maxCPUTimeUs L < elapsed_us t (clock g'))"
proof (cases "FORCE_INTERRUPT g'")
  case False
  have "counted n g' \<and> \<not> DRAINING g' \<and> INITIALIZED g'"
    by (rule counted_execution [OF assms(1)]) (use assms in \<open>simp_all add: counted_def reset_execution_stats_def\<close>)
  then have c: "OPCODE_COUNT g' = of_nat (10000 * n)" "NEXT_CHECK g' = of_nat (10000 * n) + CHECK_INTERVAL"
    and f: "\<not> DRAINING g'" "INITIALIZED g'"
    using False by (simp_all add: counted_def)
  have cb: "interruptCallback (asyncSignals E (host g')) = Some (cliInterrupt L)"
    using assms(4) execution_config [OF assms(1)] config_signals [of E "host g'"]
    by (simp add: inst_config_def reset_execution_stats_def)
  have e: "snd (sample_elapsed_us g') = elapsed_us t (clock g')"
    using assms(5) by (simp add: sample_elapsed_us_def Let_def)
  have u: "(maxOpcodes L < of_nat (10000 * Suc n)) = (unat (maxOpcodes L) < 10000 * Suc n)"
    using next_check(3) [OF assms(6)] by (simp only: word_less_nat_alt)
  show ?thesis
    using handler_asks [OF c assms(6) f False, of "instance_imports M E place"] False cb u
    by (simp add: Let_def e hostShouldInterrupt_def cliInterrupt_def word_gt_0 split_beta del: of_nat_Suc of_nat_mult)
next
  case True
  then show ?thesis by (simp add: interrupt_handler_def)
qed

definition sample_guest_imports :: "(sample, nat) inst guest_imports" where
  "sample_guest_imports = instance_imports sample_wasm sample_env (\<lambda>s t. 16)"

theorem limits_enforced_witness:
  "\<exists>g. \<not> snd (interrupt_handler sample_guest_imports (g :: (nat, unit, unit, (sample, nat) inst) guest_rt)) \<and>
     snd (interrupt_handler sample_guest_imports (fst (interrupt_handler sample_guest_imports g)))"
proof -
  let ?L = "\<lparr>maxOpcodes = 15000, maxCPUTimeUs = 0\<rparr>"
  let ?g = "(fresh_guest () (sample_inst\<lparr>interruptCallback := Some (cliInterrupt ?L)\<rparr>) :: (nat, unit, unit, (sample, nat) inst) guest_rt)
    \<lparr>INITIALIZED := True\<rparr>"
  let ?r = "(reset_execution_stats ?g)\<lparr>EXEC_START := Some (clock (reset_execution_stats ?g))\<rparr>"
  let ?I = "instance_imports sample_wasm sample_env (\<lambda>s t. 16)"
  have h: "INITIALIZED ?g" "\<not> DRAINING ?g" "interruptCallback (host ?g) = Some (cliInterrupt ?L)"
    by (simp_all add: fresh_guest_def)
  have r0: "execution ?I between_exports 0 (reset_execution_stats ?g) ?r"
    by (intro execution.opens execution.begins)
  have r1: "execution ?I between_exports 1 (reset_execution_stats ?g) (fst (interrupt_handler ?I ?r))"
    using execution.script [OF r0 script_run.handler [OF script_run.idle]] by simp
  have s1: "EXEC_START (fst (interrupt_handler ?I ?r)) = Some (clock (reset_execution_stats ?g))"
    using fixed_parts_closures(5) [of ?I ?r] by (simp add: fixed_parts_def)
  have "snd (interrupt_handler ?I ?r) = False"
    using limits_enforced [OF r0 h] by (simp add: reset_execution_stats_def fresh_guest_def asyncSignals_def sample_simps)
  moreover have "snd (interrupt_handler ?I (fst (interrupt_handler ?I ?r))) = True"
    using limits_enforced [OF r1 h s1] by simp
  ultimately show ?thesis unfolding sample_guest_imports_def by blast
qed

subsection \<open>Reports\<close>

text \<open>A value or an error is with the host, and stays there.\<close>

definition reported_to :: "('g, 'w) inst \<Rightarrow> bool" where
  "reported_to s = (hasResult s \<or> hasError s)"

lemma reported_to_import: "reported_to s \<Longrightarrow> reported_to (fst (host_import M E hc s))"
  by (cases hc)
    (auto simp: reported_to_def host_imports Let_def split: sum.splits option.splits prod.splits go_error.splits)

interpretation reported_run: run_invariant M E reported_to for M :: "'g wasm" and E :: "'w host_env"
  by unfold_locales
    (simp_all add: reported_to_import, auto simp: reported_to_def asyncSignals_def Interrupt_def split: prod.splits)

lemma report_reports: "reported_to (host (report (instance_imports M E place) x g))"
  by (auto simp: report_def instance_imports_def reported_to_def hostSetResult_def Let_def split: sum.splits)

lemma send_reports: "reported_to (host (send_result_value Q (instance_imports M E place) v g))"
  by (auto simp: send_result_value_def report_reports split: prod.split stringified.split option.split)

lemma process_reports: "reported_to (host (process_eval_result Q (instance_imports M E place) False v g))"
  by (simp add: process_eval_result_def send_reports)

lemma timed_reports:
  assumes "timed body g = Some g'" and "\<And>g g'. body g = Some g' \<Longrightarrow> reported_to (host g')"
  shows "reported_to (host g')"
  using assms by (auto simp: timed_def sample_fields elim!: bind_SomeE)

text \<open>
  C22. A synchronous call never ends without a report: whatever the script does and whatever kind of
  value it ends with, when \<open>eval\<close>, \<open>eval_compiled\<close> or \<open>dispatch_event\<close> of the guest returns, the host has
  a result or an error.
\<close>

theorem sync_call_reports:
  assumes "guest_eval Q (instance_imports M E place) source False g = Some g' \<or>
    guest_eval_compiled Q (instance_imports M E place) bytecode False g = Some g' \<or>
    guest_dispatch_event Q (instance_imports M E place) name args False g = Some g'"
  shows "hasResult (host g') \<or> hasError (host g')"
proof -
  have "reported_to (host g')"
    using assms
  proof (elim disjE)
    assume "guest_eval Q (instance_imports M E place) source False g = Some g'"
    then show ?thesis
      unfolding guest_eval_def
      by (elim bind_SomeE timed_reports)
        (auto simp: jobs_if_def report_reports process_reports split: if_splits prod.splits sum.splits)
  next
    assume "guest_eval_compiled Q (instance_imports M E place) bytecode False g = Some g'"
    then show ?thesis
      unfolding guest_eval_compiled_def
      by (elim bind_SomeE timed_reports)
        (auto simp: jobs_if_def report_reports process_reports split: prod.splits sum.splits)
  next
    assume "guest_dispatch_event Q (instance_imports M E place) name args False g = Some g'"
    then show ?thesis
      unfolding guest_dispatch_event_def
      by (elim bind_SomeE timed_reports)
        (auto simp: jobs_if_def report_reports process_reports split: prod.splits call_result.splits)
  qed
  then show ?thesis by (simp add: reported_to_def)
qed

theorem sync_call_reports_witness:
  "\<exists>g'. guest_eval sample_quickjs sample_guest_imports ''1''
       False (fresh_guest () sample_inst :: (nat, unit, unit, (sample, nat) inst) guest_rt) = Some g' \<and>
     (hasResult (host g') \<or> hasError (host g'))"
proof -
  have "\<exists>g'. guest_eval sample_quickjs (instance_imports sample_wasm sample_env (\<lambda>s t. 16)) ''1''
      False (fresh_guest () sample_inst :: (nat, unit, unit, (sample, nat) inst) guest_rt) = Some g'"
    by (simp add: guest_eval_def discard_stale_state_def fresh_guest_def timed_def valid_utf8_simps quickjs_simps jobs_if_def)
  then show ?thesis
    unfolding sample_guest_imports_def
    using sync_call_reports [of sample_quickjs sample_wasm sample_env "\<lambda>s t. 16" "''1''"] by blast
qed

subsection \<open>RPCs out and back\<close>

text \<open>The guest's memory holds a text where the guest says.\<close>

definition placed :: "'g wasm \<Rightarrow> (('g, 'w) inst \<Rightarrow> string \<Rightarrow> u32) \<Rightarrow> ('g, 'w) inst \<Rightarrow> string \<Rightarrow> bool" where
  "placed M place s t = (memRead M (guest s) (place s t) (of_nat (length t)) = Some t)"

lemma valid_reject_payload: "valid_utf8 (reject_payload e)"
proof -
  have "valid_utf8 ''{\"message\":''" "valid_utf8 ''}''" by (simp_all add: valid_utf8_simps)
  then show ?thesis
    unfolding reject_payload_def by (intro valid_utf8_append valid_utf8_json_quote)
qed

lemma reject_message_payload: "reject_message (reject_payload e) = ValueOf (json_quote (error_text e))"
  by (simp add: reject_message_def reject_payload_decodes lastMember_def)

text \<open>A guest with the texts \<open>ping\<close> and \<open>1\<close> in its memory.\<close>

definition ping_place :: "('g, 'w) inst \<Rightarrow> string \<Rightarrow> u32" where
  "ping_place s t = (if t = ''ping'' then 4 else 8)"

definition ping_inst :: "nat RPCRouter \<Rightarrow> (sample, nat) inst" where
  "ping_inst r = sample_inst\<lparr>guest := sample0\<lparr>mem := poke 4 ''ping1'' (\<lambda>_. CHR 0x00)\<rparr>, router := r\<rparr>"

definition ping_guest :: "nat RPCRouter \<Rightarrow> (nat, unit, unit, (sample, nat) inst) guest_rt" where
  "ping_guest r = fresh_guest () (ping_inst r)"

lemma signals_ping: "asyncSignals sample_env (ping_inst r) = ping_inst r"
  by (simp add: asyncSignals_def ping_inst_def sample_env_def sample_inst_def)

lemma placed_ping: "placed sample_wasm ping_place (ping_inst r) ''ping''" "placed sample_wasm ping_place (ping_inst r) ''1''"
  by (simp_all add: placed_def ping_place_def ping_inst_def sample_simps upt_rec_numeral)

text \<open>
  C6. An RPC goes out and its answer comes back to the promise it was made with: the host queues the
  call with its name, its parameters and the promise's identifier; the payload the host builds for an
  error rejects that promise with an \<open>Error\<close> whose message is the error's text, and a result resolves it
  with its value, or with null when it is not JSON in UTF-8.
\<close>

theorem rpc_roundtrip:
  assumes "convert (g\<lparr>jsPrelude := fst (enterRpc p (jsPrelude g))\<rparr>) = (g1, Some (m, args))"
    and "jsPrelude g1 = fst (enterRpc p (jsPrelude g))" and "s = asyncSignals E (host g1)"
    and "placed M place s m" and "placed M place s args"
    and "g' = makeRpcPromise (instance_imports M E place) p convert g"
  shows "\<exists>w. pendingRPCs (host g') = pendingRPCs s @ [\<lparr>PromiseID = w, Method = m, Params = Some args\<rparr>] \<and>
    snd (rejectRpc (sint w) (str_or ''null'' (reject_payload e)) (jsPrelude g'))
      = Some (Reject p (ValueOf (json_quote (error_text e)))) \<and>
    snd (resolveRpc (sint w) (str_or ''null'' r) (jsPrelude g'))
      = Some (Resolve p (if valid_utf8 r \<and> parse_json r \<noteq> None then r else ''null'')) \<and>
    parse_json (json_quote (error_text e)) = Some (JStr (to_valid_utf8 (error_text e)), json_quote (error_text e))"
proof (intro exI [of _ "of_int (rpc_id (nextRpcId (jsPrelude g))) :: u32"] conjI)
  let ?i = "rpc_id (nextRpcId (jsPrelude g))"
  have e: "enterRpc p (jsPrelude g) = (fst (enterRpc p (jsPrelude g)), ?i)"
    by (simp add: enterRpc_def Let_def)
  have g': "g' = host_rpc_native (instance_imports M E place) m args (of_int ?i) g1"
    using assms(1,6) by (subst (asm) makeRpcPromise_def, subst (asm) e) simp
  have pr: "jsPrelude g' = fst (enterRpc p (jsPrelude g))"
    using assms(2) by (simp add: g' host_rpc_native_def Let_def)
  have pend: "pendingRpcs (jsPrelude g') ?i = Some p"
    by (simp add: pr enterRpc_def Let_def)
  show "pendingRPCs (host g') = pendingRPCs s @ [\<lparr>PromiseID = of_int ?i, Method = m, Params = Some args\<rparr>]"
    using assms(3,4,5)
    by (simp add: g' host_rpc_native_def instance_imports_def hostRPC_def wasmReadString_def wasmReadCopy_def
        placed_def Let_def)
  show "snd (rejectRpc (sint (of_int ?i :: u32)) (str_or ''null'' (reject_payload e)) (jsPrelude g'))
      = Some (Reject p (ValueOf (json_quote (error_text e))))"
    by (simp add: rejectRpc_def rpc_id_word pend str_or_def valid_reject_payload reject_message_payload)
  show "snd (resolveRpc (sint (of_int ?i :: u32)) (str_or ''null'' r) (jsPrelude g'))
      = Some (Resolve p (if valid_utf8 r \<and> parse_json r \<noteq> None then r else ''null''))"
    by (auto simp: resolveRpc_def rpc_id_word pend str_or_def)
  show "parse_json (json_quote (error_text e)) = Some (JStr (to_valid_utf8 (error_text e)), json_quote (error_text e))"
    by (rule parse_reads_as [OF reads_quote [of 0]]) simp
qed

theorem rpc_roundtrip_witness:
  "\<exists>w g'. g' = makeRpcPromise (instance_imports sample_wasm sample_env ping_place) (0 :: nat)
       (\<lambda>g. (g, Some (''ping'', ''1''))) (ping_guest sample_router) \<and>
     pendingRPCs (host g') = [\<lparr>PromiseID = w, Method = ''ping'', Params = Some ''1''\<rparr>] \<and>
     snd (resolveRpc (sint w) (str_or ''null'' ''2'') (jsPrelude g')) = Some (Resolve 0 ''2'')"
proof -
  have h: "host (ping_guest sample_router) = ping_inst sample_router"
    "pendingRPCs (ping_inst sample_router) = []"
    by (simp_all add: ping_guest_def fresh_guest_def ping_inst_def sample_inst_def)
  have v: "valid_utf8 ''2'' \<and> parse_json ''2'' \<noteq> None"
    by (simp add: valid_utf8_simps parse_simps is_ws_def is_punct_def dquote_def is_word_char_def is_digit_def
        is_json_number_def num_frac_def num_exp_def)
  show ?thesis
    using rpc_roundtrip [where convert = "\<lambda>g. (g, Some (''ping'', ''1''))" and p = "0 :: nat" and
        g = "ping_guest sample_router" and E = sample_env and M = sample_wasm and place = ping_place and
        r = "''2''", OF refl _ refl _ _ refl]
    by (simp add: h signals_ping placed_ping v) blast
qed

text \<open>
  C21. A synchronous RPC returns to the script what the host's handler answered: its result (null for
  none) as the value of a JSON text, or an \<open>Error\<close> with the text of its error, and the buffer the answer
  travelled in is freed.
\<close>

theorem sync_rpc_roundtrip:
  assumes "memory_laws M" and "s = asyncSignals E (host g)" and "placed M place s m" and "placed M place s args"
    and "syncHandlers (router s) m = Some h" and "call_handler (h (world s) (Some args)) = (w, result, err)"
    and "answer = (case err of Some e \<Rightarrow> error_text e | None \<Rightarrow> or_null result)"
    and "Suc (length answer) < 2 ^ 32"
    and "writeSyncRPCResult M (if err = None then 0 else 1) answer (guest s) = (g1, packed)" and "packed \<noteq> 0"
  shows "rpcSync Q (instance_imports M E place) m args g =
    (g\<lparr>host := s\<lparr>world := w, guest := fnDealloc M g1 (ucast (packed_ptr packed)) (ucast (of_nat (packed_len packed) :: u32))\<rparr>\<rparr>,
     if err \<noteq> None then SyncThrows (js_new_error Q answer)
     else if parse_json answer = None then SyncThrows (js_syntax_error Q answer) else SyncValue answer)"
proof -
  let ?I = "instance_imports M E place"
  have i: "import_rpc_sync ?I m args (host g) = (s\<lparr>world := w, guest := g1\<rparr>, packed)"
    using assms(2-7,9)
    by (cases err) (simp_all add: instance_imports_def hostRPCSync_def wasmReadString_def wasmReadCopy_def placed_def Let_def)
  have "memRead M g1 (packed_ptr packed) (of_nat (packed_len packed))
      = Some (char_of (if err = None then 0 else 1 :: nat) # answer)"
    by (rule sync_reply_readable [OF assms(1,9,10,8)])
  moreover have "char_of (if err = None then 0 else 1 :: nat) = (if err = None then CHR 0x00 else CHR 0x01)"
    by (simp add: char_of_eq_iff)
  ultimately have r: "memRead M g1 (packed_ptr packed) (of_nat (packed_len packed))
      = Some ((if err = None then CHR 0x00 else CHR 0x01) # answer)" by simp
  show ?thesis
    by (cases err) (simp_all add: rpcSync_def host_rpc_sync_native_def i r assms(10) Let_def)
qed

theorem sync_rpc_roundtrip_witness:
  "\<exists>g'. rpcSync sample_quickjs (instance_imports sample_wasm sample_env ping_place) ''ping'' ''1''
      (ping_guest (WithSync ''ping'' (\<lambda>w p. (Suc w, Returns None (Some (ErrMsg ''no'')))) NewRPCRouter))
    = (g', SyncThrows (Exception (Some ''no'') None None))"
proof -
  let ?r = "WithSync ''ping'' (\<lambda>w p. (Suc w, Returns None (Some (ErrMsg ''no'')))) NewRPCRouter"
  obtain g1 packed where w: "writeSyncRPCResult sample_wasm 1 ''no'' (guest (ping_inst ?r)) = (g1, packed)" by fastforce
  then have n: "packed \<noteq> 0"
    by (auto simp: writeSyncRPCResult_def wasmAlloc_def ping_inst_def sample_simps Let_def)
  have h: "syncHandlers (router (ping_inst ?r)) ''ping'' = Some (\<lambda>w p. (Suc w, Returns None (Some (ErrMsg ''no''))))"
    by (simp add: ping_inst_def WithSync_def)
  have c: "call_handler ((\<lambda>w p. (Suc w, Returns None (Some (ErrMsg ''no'')))) (world (ping_inst ?r)) (Some ''1''))
      = (1, None, Some (ErrMsg ''no''))"
    by (simp add: call_handler_def callWithRecover_def ping_inst_def sample_inst_def)
  have s: "ping_inst ?r = asyncSignals sample_env (host (ping_guest ?r))"
    by (simp add: ping_guest_def fresh_guest_def signals_ping)
  have "rpcSync sample_quickjs (instance_imports sample_wasm sample_env ping_place) ''ping'' ''1'' (ping_guest ?r)
      = (fst (rpcSync sample_quickjs (instance_imports sample_wasm sample_env ping_place) ''ping'' ''1'' (ping_guest ?r)),
         SyncThrows (Exception (Some ''no'') None None))"
    using sync_rpc_roundtrip [OF sample_memory_laws s placed_ping h c refl _ _ n, of g1 sample_quickjs] w
    by (simp add: sample_quickjs_def)
  then show ?thesis by blast
qed

end
