(* ===== verification/Shared_Imports.thy ===== *)
theory Shared_Imports
  imports Sample_Module
begin

text \<open>
  Many instances on one runtime: the host imports are registered once and find the instance they act
  on in the context of the call (\<open>withInstanceCtx\<close>, \<open>instanceFromContext\<close> and the shared imports of
  \<open>kafig-go/instance.go\<close>). The other theories run one instance by itself; here this is shown to be
  what running it among others does.
\<close>

text \<open>A context: the values put into it, the innermost first; other packages use keys of their own.\<close>

datatype ctx_value = InstanceKey nat | OtherKey string

type_synonym ctx = "ctx_value list"

definition withInstanceCtx :: "nat \<Rightarrow> ctx \<Rightarrow> ctx" where
  "withInstanceCtx i c = InstanceKey i # c"

text \<open>\<^const>\<open>None\<close> is the panic for a context without an instance.\<close>

fun instanceFromContext :: "ctx \<Rightarrow> nat option" where
  "instanceFromContext [] = None"
| "instanceFromContext (InstanceKey i # c) = Some i"
| "instanceFromContext (OtherKey k # c) = instanceFromContext c"

text \<open>The instances by their number, and the one world outside that all of them share.\<close>

record ('g, 'w) instances =
  instTable :: "nat \<Rightarrow> ('g, 'w) inst option"
  sharedWorld :: 'w

definition instView :: "nat \<Rightarrow> ('g, 'w) instances \<Rightarrow> ('g, 'w) inst option" where
  "instView i X = map_option (\<lambda>s. s\<lparr>world := sharedWorld X\<rparr>) (instTable X i)"

definition instPut :: "nat \<Rightarrow> ('g, 'w) inst \<Rightarrow> ('g, 'w) instances \<Rightarrow> ('g, 'w) instances" where
  "instPut i s X = X\<lparr>instTable := (instTable X)(i \<mapsto> s), sharedWorld := world s\<rparr>"

text \<open>A shared import: the instance in the context gets the call.\<close>

definition sharedImport :: "'g wasm \<Rightarrow> 'w host_env \<Rightarrow> ctx \<Rightarrow> host_call \<Rightarrow> ('g, 'w) instances \<Rightarrow>
    (('g, 'w) instances \<times> host_ret) option" where
  "sharedImport M E c hc X = do {
     i \<leftarrow> instanceFromContext c;
     s \<leftarrow> instView i X;
     (case host_import M E hc (asyncSignals E s) of (s', r) \<Rightarrow> Some (instPut i s' X, r))
   }"

datatype 'a shared_run = Completed 'a | CtxPanic | NeverEnds

text \<open>
  An export of the module of instance \<open>m\<close>, called with a context. The state of the module is that of
  \<open>m\<close>; the imports act on the instance in the context.
\<close>

definition withGuest :: "nat \<Rightarrow> 'g \<Rightarrow> ('g, 'w) instances \<Rightarrow> ('g, 'w) instances" where
  "withGuest m g X = (case instView m X of None \<Rightarrow> X | Some s \<Rightarrow> instPut m (s\<lparr>guest := g\<rparr>) X)"

primrec callShared :: "'g wasm \<Rightarrow> 'w host_env \<Rightarrow> nat \<Rightarrow> ctx \<Rightarrow> 'g run \<Rightarrow> ('g, 'w) instances \<Rightarrow>
    (('g, 'w) instances \<times> (go_error + u64 list)) shared_run" where
  "callShared M E m c (Returned g rs) X = Completed (withGuest m g X, Inr rs)"
| "callShared M E m c (Trapped g e) X = Completed (withGuest m g X, Inl e)"
| "callShared M E m c NeverReturns X = NeverEnds"
| "callShared M E m c (CallsHost g hc k) X =
     (case sharedImport M E c hc (withGuest m g X) of
        None \<Rightarrow> CtxPanic
      | Some (X', r) \<Rightarrow>
          (case instView m X' of
             None \<Rightarrow> CtxPanic
           | Some s' \<Rightarrow> callShared M E m c (k (guest s') r) X'))"

subsection \<open>One instance among others\<close>

lemma instView_put: "instView i (instPut i s X) = Some s"
  by (simp add: instView_def instPut_def)

lemma instPut_put: "instPut i s' (instPut i s X) = instPut i s' X"
  by (simp add: instPut_def)

lemma withGuest_put: "instView m X = Some s \<Longrightarrow> withGuest m g X = instPut m (s\<lparr>guest := g\<rparr>) X"
  by (simp add: withGuest_def)

text \<open>The instances as a keyed table.\<close>

interpretation instances: keyed_table "\<lambda>i s X. instPut i s X" "\<lambda>X i. instTable X i"
  by unfold_locales (simp add: instPut_def)

lemma sharedImport_own:
  assumes "instView m X = Some s"
  shows "sharedImport M E (withInstanceCtx m c) hc X =
    (case host_import M E hc (asyncSignals E s) of (s', r) \<Rightarrow> Some (instPut m s' X, r))"
  by (simp add: sharedImport_def withInstanceCtx_def assms)

lemma callShared_own:
  "instView m X = Some s \<Longrightarrow> callShared M E m (withInstanceCtx m c) run X =
    (case callExport M E run s of None \<Rightarrow> NeverEnds | Some (s', r) \<Rightarrow> Completed (instPut m s' X, r))"
proof (induction run arbitrary: X s)
  case (CallsHost g hc k)
  obtain s' r where h: "host_import M E hc (asyncSignals E (s\<lparr>guest := g\<rparr>)) = (s', r)" by fastforce
  have "callShared M E m (withInstanceCtx m c) (k (guest s') r) (instPut m s' X) =
      (case callExport M E (k (guest s') r) s' of None \<Rightarrow> NeverEnds
       | Some (s2, r2) \<Rightarrow> Completed (instPut m s2 (instPut m s' X), r2))"
    by (rule CallsHost.IH [OF rangeI rangeI instView_put])
  then show ?case
    by (simp add: withGuest_put [OF CallsHost.prems] sharedImport_own [OF instView_put] h instPut_put instView_put
        split: option.split)
qed (simp_all add: withGuest_put)

text \<open>
  C8. Instances on one runtime are isolated: a call of an export with the context of its instance,
  whatever instances that context already names, does exactly what it does to the instance alone
  and leaves every other instance as it was.
\<close>

theorem instances_isolated:
  assumes "instView m X = Some s"
  shows "(case callShared M E m (withInstanceCtx m c) run X of
      Completed (X', r) \<Rightarrow> callExport M E run s = Some (the (instView m X'), r) \<and>
        (\<forall>j. j \<noteq> m \<longrightarrow> instTable X' j = instTable X j)
    | CtxPanic \<Rightarrow> False
    | NeverEnds \<Rightarrow> callExport M E run s = None)"
  using callShared_own [OF assms, where M = M and E = E and c = c and run = run]
  by (auto simp: instView_put instances.get_put split: option.split)

theorem instances_isolated_witness:
  "\<exists>X'. callShared sample_wasm sample_env 1 (withInstanceCtx 1 [InstanceKey 2])
      (CallsHost sample0 (CallShouldInterrupt 10000 5) (\<lambda>g r. Returned g [0]))
      \<lparr>instTable = [1 \<mapsto> sample_inst, 2 \<mapsto> sample_pending], sharedWorld = 0\<rparr> = Completed (X', Inr [0]) \<and>
    instTable X' 2 = Some sample_pending"
proof -
  let ?X = "\<lparr>instTable = [1 \<mapsto> sample_inst, 2 \<mapsto> sample_pending], sharedWorld = 0 :: nat\<rparr>"
  let ?run = "CallsHost sample0 (CallShouldInterrupt 10000 5) (\<lambda>g r. Returned g [0])"
  have v: "instView 1 ?X = Some sample_inst" by (simp add: instView_def sample_inst_def)
  have "\<exists>X'. callShared sample_wasm sample_env 1 (withInstanceCtx 1 [InstanceKey 2]) ?run ?X = Completed (X', Inr [0])"
    by (simp add: withInstanceCtx_def sharedImport_def instView_def withGuest_def instPut_def asyncSignals_def
        hostShouldInterrupt_def sample_env_def sample_inst_def)
  then show ?thesis
    using instances_isolated [OF v, where M = sample_wasm and E = sample_env and c = "[InstanceKey 2]" and run = ?run]
    by auto
qed

text \<open>Without an instance in the context an import panics.\<close>

lemma no_instance_panics:
  "callShared M E m [] (CallsHost g hc k) X = CtxPanic"
  by (simp add: sharedImport_def)

end
