(* ===== verification/Answers_Spec.thy ===== *)
theory Answers_Spec
  imports Forward_Spec
begin

text \<open>
  What a client of the JSON mode sees: which line each printed result answers.
\<close>

subsection \<open>Observations\<close>

datatype observation = LineRead string | Answer string





definition lines_read :: "observation list \<Rightarrow> string list" where
  "lines_read os = concat (map (\<lambda>x. case x of LineRead l \<Rightarrow> [l] | _ \<Rightarrow> []) os)"

definition answers :: "observation list \<Rightarrow> string list" where
  "answers os = concat (map (\<lambda>x. case x of Answer a \<Rightarrow> [a] | _ \<Rightarrow> []) os)"

lemma observation_simps [simp]:
  "lines_read [] = []" "answers [] = []" "lines_read (os @ os') = lines_read os @ lines_read os'"
  "answers (os @ os') = answers os @ answers os'" "lines_read [LineRead l] = [l]" "answers [LineRead l] = []"
  "lines_read [Answer a] = []" "answers [Answer a] = [a]"
  by (simp_all add: lines_read_def answers_def)

text \<open>The lines that ask for an answer, as they are routed, and the answers that fit them.\<close>

definition asked :: "(string \<Rightarrow> string) \<Rightarrow> string list \<Rightarrow> routed list" where
  "asked jsonErr ls = filter (\<lambda>r. case r of RouteResponse x \<Rightarrow> False | _ \<Rightarrow> True)
     (map (routeLine jsonErr) (filter (\<lambda>l. length l < maxLine) ls))"

lemma asked_append [simp]: "asked jsonErr (a @ b) = asked jsonErr a @ asked jsonErr b"
  by (simp add: asked_def)




lemma print_text_fields [simp]: "fwWriter (print_text t f) = fwWriter f @ [t]"
  by (simp add: print_text_def)











end
