(* ===== verification/Spec2Isabelle.thy ===== *)
theory Spec2Isabelle
  imports Service_Spec Execution_Spec Creation_Spec Boundary Buffers Runtime_Spec
    Session_Spec Cli_Json_Spec Forward_Spec Interactive_Spec Stats_Spec Guest_Spec Guest_Host
    Shared_Imports Answers_Spec
begin

text \<open>
  A verification development for kafig, which runs JavaScript inside a WASM module.

  The program. The Go library \<open>kafig-go\<close> holds a \<open>Runtime\<close> (a compiled WASM module and the engine's
  resources) that creates \<open>Instance\<close>s of the module. An instance evaluates scripts, evaluates
  bytecode and dispatches events (\<open>Eval\<close>, \<open>EvalCompiled\<close>, \<open>DispatchEvent\<close>): it writes the input to a
  buffer in guest memory and calls an export; the guest (\<open>kafig-runtime\<close>, Rust around QuickJS) reports
  by calling the five host imports back: a result or an error, a queued RPC, a synchronous RPC, the
  question whether to interrupt, an unhandled rejection. After the export of an asynchronous call,
  the service loop runs the handler of every queued RPC in a goroutine of its own and feeds the
  results back into the guest, which may queue more. The command line client \<open>kafig-cli\<close> owns a
  session (a runtime and a current instance) and serves it in three modes: a file, a prompt, and
  lines of JSON, where the RPCs of a script are forwarded to the process at the other end.

  What models what.
  \<^item> \<open>Prelude\<close>: shared types and lemmas, UTF-8, decimal printing, the interface of keyed tables.
    \<open>Json\<close>, \<open>Json_Facts\<close>, \<open>Json_Struct\<close>: Go's \<open>encoding/json\<close> on bytes, as far as it is used (scanner,
    parser with its nesting limit, struct fields, encoding of strings, compacting).
    \<open>Json_Values\<close>, \<open>Json_Compact\<close>: printed texts read back as the values they were printed from,
    and compacting keeps the value. \<open>Go_Text\<close>: \<open>strconv.Quote\<close>.
  \<^item> \<open>Errors\<close> (\<open>errors.go\<close>), \<open>Router\<close> (\<open>rpc.go\<close>), \<open>Options\<close> (\<open>options.go\<close>): error values and their
    decoding, handler tables and dispatch, functional options. \<open>Guest_Error\<close> and \<open>Guest_Alloc\<close> are
    the guest's \<open>error.rs\<close> and \<open>alloc.rs\<close>.
  \<^item> \<open>Guest_Prelude\<close> (\<open>prelude.js\<close>: the table of RPC promises and the event handlers), \<open>Guest_Tracking\<close>
    (the statics and statistics of \<open>tracking.rs\<close>, the closures of \<open>init.rs\<close>, and the relation of what a
    running script may do), \<open>Guest_Eval\<close> (\<open>eval.rs\<close>, \<open>dispatch.rs\<close>, \<open>rpc.rs\<close>, \<open>result.rs\<close>, over QuickJS as a
    record of operations on the whole state of the guest).
  \<^item> \<open>Wasm_Module\<close>: the module as the engine offers it (a record of parameters) and the memory helpers
    of \<open>instance.go\<close>. \<open>Instance\<close>: the state of an instance and the host imports; an export that runs
    is a tree of its calls to the host. \<open>Shared_Imports\<close>: many instances behind the one set of imports,
    told apart by the context of a call. \<open>Rpc_Service\<close>: the goroutines of the service loop, the channel
    of capacity 16, the count of calls in flight and the cancellation, as a transition system over
    any loop body. \<open>Service_Loop\<close>: \<open>serviceRPCLoop\<close> itself, with the scheduler as a parameter.
    \<open>Execution\<close>: \<open>Eval\<close>, \<open>EvalCompiled\<close>, \<open>DispatchEvent\<close>, \<open>newInstance\<close>, the statistics.
    \<open>Go_Runtime\<close>: \<open>runtime.go\<close>, with the engine's open runtimes and caches as resources.
  \<^item> \<open>Cli_Session\<close> (\<open>session.go\<close>), \<open>Cli_Json\<close> (the messages of \<open>json.go\<close> and \<open>rpc_forward.go\<close>), \<open>Cli_Forward\<close>
    (the two forwarders, and the reader and main goroutines of \<open>runJSON\<close> as a transition system),
    \<open>Cli_Interactive\<close> and \<open>Cli_Main\<close> (\<open>interactive.go\<close>, \<open>main.go\<close>).
  \<^item> \<open>Sample_Module\<close>: a small concrete guest on which hypotheses are shown to be satisfiable.

  What is shown.
  \<^item> Service loop (\<open>Service_Spec\<close>): a run that returns without error refines a specification without
    loop and channel, in which each outstanding call is answered, its own promise is settled and the
    calls queued meanwhile become outstanding; on a guest that records what it is asked to settle, no
    interleaving settles a promise twice or without a call, or loses one; none deadlocks; runs are
    bounded by the number of calls; after a cancellation the loop can wait for ever. The invariants of a
    guest's run, of a loop body and of a whole loop are the locales \<open>run_invariant\<close>,
    \<open>body_invariant\<close> and \<open>loop_invariant\<close>, interpreted for well-formedness, configuration and the
    interrupt flag; the transition system is the locale \<open>rpc_service\<close>, interpreted on the real body.
  \<^item> Calls (\<open>Execution_Spec\<close>, \<open>Creation_Spec\<close>, \<open>Buffers\<close>, \<open>Boundary\<close>, \<open>Shared_Imports\<close>): independence of leftovers, no
    value with an error and without one exactly the reported value, agreement with what the guest reported, termination, an interrupt that
    stays in force, all buffers given back, bytes that arrive as they were sent,
    instances that do not disturb each other.
  \<^item> Guest (\<open>Guest_Prelude\<close>, \<open>Guest_Spec\<close>, \<open>Guest_Host\<close>): promises are settled once, by their own identifier;
    what a call discards and what it does not; the CPU time that is accounted. With the imports of
    an instance behind its closures (\<open>instance_imports\<close>): limits stop an execution, over all its segments, at the
    call of the handler they should, synchronous calls always report, RPCs go out and come back. Invariants of the host
    carry over to running scripts through \<open>run_invariant\<close>; QuickJS is only asked to run the closures it was
    given (\<open>engine_ok\<close>), which a small engine satisfies.
  \<^item> Payloads (\<open>Errors\<close>, \<open>Guest_Error\<close>): decoding is total and inverts the guest's printing.
  \<^item> Resources and commands (\<open>Runtime_Spec\<close>, \<open>Session_Spec\<close>): what stays open on failure (nothing, but for
    the one leak of the code) and that closing gives back what was opened; the limits hold on every
    instance of a session; a command is answered with what the call it stands for returned.
  \<^item> JSON mode (\<open>Cli_Json_Spec\<close>, \<open>Forward_Spec\<close>, \<open>Answers_Spec\<close>): messages are lines, a client is understood, what it
    reads is the result; the lines read that ask for an answer get one, in order; forwarded calls get
    the response with their own identifier; the mode makes progress, as a measure shows, except in
    the one deadlock, which is for ever.
  \<^item> Prompt (\<open>Interactive_Spec\<close>, \<open>Stats_Spec\<close>): when a text is complete, commands are well typed, numbers
    and times are printed as they should be.

  Conventions. A Go error is a value of \<open>go_error\<close>; a pair of a value and an error is \<open>go_error + 'a\<close>, or
  a pair of options where the code gives both. An option around a whole result is \<^const>\<open>None\<close> when the
  code never returns; \<open>outcome_of_run\<close> also tells a nil dereference. \<open>'g\<close> is the state of the guest,
  \<open>'w\<close> that of everything outside the program (handlers, callbacks, time, the scheduler). Machine
  integers are words of their width; no fuel is used: loops that may not return are
  \<open>partial_function\<close>s or transition systems, and that they return is proved from a bound on the calls
  the scripts make. Bounds of the source that appear as numbers: the channel capacity 16, the
  nesting limit 10000 of \<open>encoding/json\<close>, the longest line 10485760 of the JSON mode.

  Not modelled, and why. The engine (wazero), the prompt and the styling packages are not in the
  repository: they are parameters. So is QuickJS, whose operations the guest's code is given as a
  parameter; the freeing of its values is left out, and the built-in objects \<open>prelude.js\<close> uses are taken
  as the language defines them. The host's theories take any module, a tree of host calls per export,
  of which \<open>Guest_Host\<close> is the side of the repository's own guest. Logging
  has no effect the program depends on and is left out; a logger is a handle. \<open>flag.Parse\<close> gives the
  flags, \<open>go:embed\<close> the default binary. In \<open>json_step\<close> the guest is left open: an
  export may end at any time, calling and queueing what it likes, and the value a script ends with
  is arbitrary, as the session's execution of a command is modelled apart, in \<open>exec\<close>. What
  \<open>serviceRPCLoop\<close> does around the exports (launching, the goroutines of \<open>Forward\<close>, receiving, the early
  return and its cancellation) is in \<open>json_step\<close>, the sending and receiving of a result as one step.
\<close>

end
